theory Spec2Isabelle
  imports Main "HOL-Library.Word" "HOL-Library.List_Lexorder" "HOL-Library.Sublist"
begin

unbundle bit_operations_syntax

section \<open>Data model of client/table.go\<close>

text \<open>
  Byte slices and Go strings are byte sequences; a Go string is immutable and is modelled
  by its bytes, so \<^verbatim>\<open>[]byte(s)\<close> and \<^verbatim>\<open>string(b)\<close> keep the contents. The three
  64-bit carriers that reflect exposes (\<^verbatim>\<open>Int()\<close>, \<^verbatim>\<open>Uint()\<close>, \<^verbatim>\<open>Float()\<close>) are
  64-bit words; a float64 is modelled by its IEEE-754 bit pattern, so that
  \<^verbatim>\<open>math.Float64bits\<close>, \<^verbatim>\<open>math.Float64frombits\<close> and the conversions between int64
  and uint64 are the identity on the word.
\<close>

type_synonym byte = "8 word"
type_synonym bytes = "byte list"
type_synonym gostring = "byte list"
type_synonym int64 = "64 word"
type_synonym uint64 = "64 word"
type_synonym float64 = "64 word"

text \<open>
  The widths of the integer kinds (\<^verbatim>\<open>int\<close>, \<^verbatim>\<open>uint\<close> and \<^verbatim>\<open>uintptr\<close> have the
  width of the platform, 32 or 64 bits) and of the float kinds.
\<close>

datatype width = W8 | W16 | W32 | W64

fun bits :: "width \<Rightarrow> nat" where
  "bits W8 = 8"
| "bits W16 = 16"
| "bits W32 = 32"
| "bits W64 = 64"

datatype fwidth = F32 | F64

text \<open>
  A field value as reflect sees it. The constructors are the cases that the type
  switches and kind switches of table.go tell apart:
  \<^item> \<open>VBytes\<close>: a field of type \<^verbatim>\<open>[]byte\<close>; \<open>None\<close> is the nil slice;
  \<^item> \<open>VString\<close>: a field of type \<^verbatim>\<open>string\<close>;
  \<^item> \<open>VMessage\<close>, \<open>VBinary\<close>: a field whose concrete type implements
    \<^verbatim>\<open>gogoproto.Message\<close> or \<^verbatim>\<open>encoding.BinaryMarshaler\<close>. Such a value is opaque; it
    is given by what its marshal method returns (\<open>None\<close> when it returns an error),
    and, first, by what the marshal method returns on the zero value of its type, which
    belongs to the type;
  \<^item> \<open>VBool\<close>;
  \<^item> \<open>VInt\<close> for Int, Int8 .. Int64 and \<open>VUint\<close> for Uint, Uint8 .. Uint64 and
    Uintptr: the width of the field and the 64-bit value that \<^verbatim>\<open>Int()\<close> or
    \<^verbatim>\<open>Uint()\<close> returns (the field's value, sign-extended or zero-extended);
  \<^item> \<open>VFloat\<close> for Float32 and Float64: the width and the float64 that \<^verbatim>\<open>Float()\<close>
    returns;
  \<^item> \<open>VNamedString\<close>: a named type of kind \<^verbatim>\<open>reflect.String\<close> that is not
    \<^verbatim>\<open>string\<close> itself;
  \<^item> \<open>VOther\<close>: any other kind (struct, map, ...), with an opaque content.
  Fields of interface type are not modelled.
\<close>

datatype gvalue =
    VBytes "bytes option"
  | VString gostring
  | VMessage "bytes option" "bytes option"
  | VBinary "bytes option" "bytes option"
  | VBool bool
  | VInt width int64
  | VUint width uint64
  | VFloat fwidth float64
  | VNamedString gostring
  | VOther nat

datatype kind =
    KBytes | KString | KMessage "bytes option" | KBinary "bytes option" | KBool
  | KInt width | KUint width | KFloat fwidth | KNamedString | KOther

fun kindOf :: "gvalue \<Rightarrow> kind" where
  "kindOf (VBytes _) = KBytes"
| "kindOf (VString _) = KString"
| "kindOf (VMessage z _) = KMessage z"
| "kindOf (VBinary z _) = KBinary z"
| "kindOf (VBool _) = KBool"
| "kindOf (VInt w _) = KInt w"
| "kindOf (VUint w _) = KUint w"
| "kindOf (VFloat w _) = KFloat w"
| "kindOf (VNamedString _) = KNamedString"
| "kindOf (VOther _) = KOther"

text \<open>\<^verbatim>\<open>reflect.Zero\<close>: the zero value of each kind.\<close>

fun zeroOfKind :: "kind \<Rightarrow> gvalue" where
  "zeroOfKind KBytes = VBytes None"
| "zeroOfKind KString = VString []"
| "zeroOfKind (KMessage z) = VMessage z z"
| "zeroOfKind (KBinary z) = VBinary z z"
| "zeroOfKind KBool = VBool False"
| "zeroOfKind (KInt w) = VInt w 0"
| "zeroOfKind (KUint w) = VUint w 0"
| "zeroOfKind (KFloat w) = VFloat w 0"
| "zeroOfKind KNamedString = VNamedString []"
| "zeroOfKind KOther = VOther 0"

subsection \<open>Storing into a field of a narrower width\<close>

text \<open>
  \<^verbatim>\<open>reflect.Value.SetInt\<close> and \<^verbatim>\<open>SetUint\<close> convert the 64-bit argument to the type
  of the field, which keeps the low bits; read back, the field is sign-extended or
  zero-extended.
\<close>

definition setInt :: "width \<Rightarrow> int64 \<Rightarrow> int64" where
  "setInt w x = signed_take_bit (bits w - 1) x"

definition setUint :: "width \<Rightarrow> uint64 \<Rightarrow> uint64" where
  "setUint w x = take_bit (bits w) x"

text \<open>
  \<^verbatim>\<open>SetFloat\<close> on a Float32 field converts the float64 to float32, rounding to the
  nearest float32, ties to even. \<open>narrow32\<close> is that conversion followed by the exact
  conversion back, on the bit pattern of the float64 (1 sign bit, 11 exponent bits with
  bias 1023, 52 fraction bits; a float32 has 8 exponent bits with bias 127 and 23
  fraction bits, and its least positive value is 2 to the power -149). \<open>roundShift s k\<close> is
  \<open>s\<close> divided by \<open>2 ^ k\<close>, rounded to the nearest integer, ties to even. A NaN keeps its
  sign and the upper 23 bits of its fraction and is made quiet, as the amd64 and arm64
  conversions do.
\<close>

definition roundShift :: "nat \<Rightarrow> nat \<Rightarrow> nat" where
  "roundShift s k =
     (let q = s div 2 ^ k; r = s mod 2 ^ k
      in if 2 ^ k < 2 * r \<or> (2 * r = 2 ^ k \<and> odd q) then q + 1 else q)"

fun bitLen :: "nat \<Rightarrow> nat" where
  "bitLen n = (if n = 0 then 0 else Suc (bitLen (n div 2)))"

definition narrow32bits :: "nat \<Rightarrow> nat" where
  "narrow32bits n =
     (let sgn = (n div 2 ^ 63) * 2 ^ 63;
          e = (n div 2 ^ 52) mod 2 ^ 11;
          m = n mod 2 ^ 52
      in if e = 2047 then
           (if m = 0 then n
            else sgn + 2047 * 2 ^ 52 + 2 ^ 51 + ((m mod 2 ^ 51) div 2 ^ 29) * 2 ^ 29)
         else if e = 0 then sgn
         else if 897 \<le> e then
           (let q = roundShift (2 ^ 52 + m) 29;
                e' = (if q = 2 ^ 24 then e + 1 else e);
                q' = (if q = 2 ^ 24 then 2 ^ 23 else q)
            in if 1150 < e' then sgn + 2047 * 2 ^ 52
               else sgn + e' * 2 ^ 52 + (q' - 2 ^ 23) * 2 ^ 29)
         else
           (let q = roundShift (2 ^ 52 + m) (926 - e)
            in if q = 0 then sgn
               else sgn + (bitLen q + 873) * 2 ^ 52 + (q * 2 ^ (53 - bitLen q) - 2 ^ 52)))"

definition narrow32 :: "float64 \<Rightarrow> float64" where
  "narrow32 x = of_nat (narrow32bits (unat x))"

fun setFloat :: "fwidth \<Rightarrow> float64 \<Rightarrow> float64" where
  "setFloat F64 x = x"
| "setFloat F32 x = narrow32 x"

text \<open>
  A value that a field can hold: an integer within the range of its width, a float of
  a Float32 field that is a float32.
\<close>

fun validValue :: "gvalue \<Rightarrow> bool" where
  "validValue (VInt w i) = (setInt w i = i)"
| "validValue (VUint w u) = (setUint w u = u)"
| "validValue (VFloat w f) = (setFloat w f = f)"
| "validValue _ = True"

text \<open>
  Go types as far as table.go inspects them: a struct type has a name and the kinds of
  its fields; a field is addressed by its position (the \<^verbatim>\<open>Index\<close> of its descriptor).
\<close>

datatype gtype =
    TStruct gostring "kind list"
  | TPtr gtype
  | TSlice gtype
  | TBasic kind

type_synonym struct = "nat \<Rightarrow> gvalue"

definition fieldKind :: "kind list \<Rightarrow> nat \<Rightarrow> kind" where
  "fieldKind ks i = (if i < length ks then ks ! i else KOther)"

fun zeroStruct :: "gtype \<Rightarrow> struct" where
  "zeroStruct (TStruct n ks) = (\<lambda>i. zeroOfKind (fieldKind ks i))"
| "zeroStruct _ = (\<lambda>i. VOther 0)"

text \<open>
  A record has the kinds of a type when each field has the kind that the type gives it;
  it is a record of the type when, moreover, each field holds a value that it can hold.
\<close>

definition hasKinds :: "struct \<Rightarrow> gtype \<Rightarrow> bool" where
  "hasKinds s t = (\<forall>i. kindOf (s i) = kindOf (zeroStruct t i))"

definition hasType :: "struct \<Rightarrow> gtype \<Rightarrow> bool" where
  "hasType s t = (\<forall>i. kindOf (s i) = kindOf (zeroStruct t i) \<and> validValue (s i))"

text \<open>\<^verbatim>\<open>proto.Value\<close>: both members are optional (nil slice, nil pointer).\<close>

record pvalue =
  Bytes :: "bytes option"
  Integer :: "int64 option"

definition emptyValue :: pvalue where
  "emptyValue = \<lparr>Bytes = None, Integer = None\<rparr>"

definition GetInteger :: "pvalue \<Rightarrow> int64" where
  "GetInteger v = (case Integer v of None \<Rightarrow> 0 | Some i \<Rightarrow> i)"

datatype error =
    UnableToEncodeKey
  | UnableToDecodeKey
  | DecodePanic
  | UnableToFindField gostring gostring
  | UnexpectedTableName gostring bytes
  | AlreadyDefined gostring
  | PointerTypeRequired
  | UnableToFindModel
  | DestNotPointerToSlice
  | IncompatibleStartKeyType
  | IncompatibleEndKeyType
  | MarshalFailed
  | UnableToMarshalValue
  | UnableToUnmarshalInteger
  | UnableToUnmarshalBytes
  | UnableToUnmarshalValue
  | FieldsError nat

section \<open>Value marshaler\<close>

text \<open>
  \<^verbatim>\<open>marshalTableValue\<close>: the type switch first (string, []byte, Message,
  BinaryMarshaler), then the kind switch.
\<close>

fun marshalTableValue :: "gvalue \<Rightarrow> error + pvalue" where
  "marshalTableValue (VString t) = Inr (emptyValue\<lparr>Bytes := Some t\<rparr>)"
| "marshalTableValue (VBytes t) = Inr (emptyValue\<lparr>Bytes := t\<rparr>)"
| "marshalTableValue (VMessage z r) =
     (case r of None \<Rightarrow> Inl MarshalFailed | Some bs \<Rightarrow> Inr (emptyValue\<lparr>Bytes := Some bs\<rparr>))"
| "marshalTableValue (VBinary z r) =
     (case r of None \<Rightarrow> Inl MarshalFailed | Some bs \<Rightarrow> Inr (emptyValue\<lparr>Bytes := Some bs\<rparr>))"
| "marshalTableValue (VBool v) = Inr (emptyValue\<lparr>Integer := Some (if v then 1 else 0)\<rparr>)"
| "marshalTableValue (VInt w i) = Inr (emptyValue\<lparr>Integer := Some i\<rparr>)"
| "marshalTableValue (VUint w u) = Inr (emptyValue\<lparr>Integer := Some u\<rparr>)"
| "marshalTableValue (VFloat w f) = Inr (emptyValue\<lparr>Integer := Some f\<rparr>)"
| "marshalTableValue (VNamedString s) = Inr (emptyValue\<lparr>Bytes := Some s\<rparr>)"
| "marshalTableValue (VOther x) = Inl UnableToMarshalValue"

text \<open>
  \<^verbatim>\<open>unmarshalTableValue(src, dest)\<close> returns the new contents of \<open>dest\<close>, or the
  error; on every error path of the source \<open>dest\<close> is left as it was. The source is
  \<open>None\<close> for a nil \<^verbatim>\<open>*proto.Value\<close>.
\<close>

fun unmarshalInto :: "pvalue \<Rightarrow> gvalue \<Rightarrow> error + gvalue" where
  "unmarshalInto src (VString d) =
     (if Integer src \<noteq> None then Inl UnableToUnmarshalInteger
      else (case Bytes src of Some bs \<Rightarrow> Inr (VString bs) | None \<Rightarrow> Inr (VString [])))"
| "unmarshalInto src (VBytes d) =
     (if Integer src \<noteq> None then Inl UnableToUnmarshalInteger
      else (case Bytes src of Some bs \<Rightarrow> Inr (VBytes (Some bs)) | None \<Rightarrow> Inr (VBytes None)))"
| "unmarshalInto src (VBool d) =
     (if Bytes src \<noteq> None then Inl UnableToUnmarshalBytes
      else Inr (VBool (GetInteger src \<noteq> 0)))"
| "unmarshalInto src (VInt w d) =
     (if Bytes src \<noteq> None then Inl UnableToUnmarshalBytes
      else Inr (VInt w (setInt w (GetInteger src))))"
| "unmarshalInto src (VUint w d) =
     (if Bytes src \<noteq> None then Inl UnableToUnmarshalBytes
      else Inr (VUint w (setUint w (GetInteger src))))"
| "unmarshalInto src (VFloat w d) =
     (if Bytes src \<noteq> None then Inl UnableToUnmarshalBytes
      else Inr (VFloat w (setFloat w (GetInteger src))))"
| "unmarshalInto src (VNamedString d) =
     (if Integer src \<noteq> None then Inl UnableToUnmarshalInteger
      else Inr (VNamedString (case Bytes src of Some bs \<Rightarrow> bs | None \<Rightarrow> [])))"
| "unmarshalInto src (VMessage z d) = Inl UnableToUnmarshalValue"
| "unmarshalInto src (VBinary z d) = Inl UnableToUnmarshalValue"
| "unmarshalInto src (VOther d) = Inl UnableToUnmarshalValue"

definition unmarshalTableValue :: "pvalue option \<Rightarrow> gvalue \<Rightarrow> error + gvalue" where
  "unmarshalTableValue src dest =
     (case src of
        None \<Rightarrow> Inr (zeroOfKind (kindOf dest))
      | Some v \<Rightarrow> unmarshalInto v dest)"

text \<open>
  The post-processing step of a Get call issued by \<^verbatim>\<open>GetStruct\<close>: the reply's value
  (nil when the store holds nothing under the key) is unmarshalled into field \<open>f\<close> of the
  record. It returns the error, if any, and the record as it is afterwards.
\<close>

definition getPost :: "nat \<Rightarrow> pvalue option \<Rightarrow> struct \<Rightarrow> error option \<times> struct" where
  "getPost f replyValue v =
     (case unmarshalTableValue replyValue (v f) of
        Inl e \<Rightarrow> (Some e, v)
      | Inr x \<Rightarrow> (None, v(f := x)))"

section \<open>The order-preserving codec, as a parameter\<close>

text \<open>
  The functions of \<^verbatim>\<open>util/encoding\<close> that table.go calls are not part of the
  sources at hand; the key functions take them as a parameter. An encoder appends to the
  buffer it is given; a decoder returns the remaining bytes and the decoded value, or
  does not return (\<open>None\<close>: a panic on input it cannot read). \<^verbatim>\<open>DecodeBytes\<close> is
  always called with a nil second argument, and the slice it returns may be nil.
\<close>

record codec =
  EncodeBytes :: "bytes \<Rightarrow> bytes \<Rightarrow> bytes"
  DecodeBytes :: "bytes \<Rightarrow> (bytes \<times> bytes option) option"
  EncodeVarint :: "bytes \<Rightarrow> int64 \<Rightarrow> bytes"
  DecodeVarint :: "bytes \<Rightarrow> (bytes \<times> int64) option"
  EncodeUvarint :: "bytes \<Rightarrow> uint64 \<Rightarrow> bytes"
  DecodeUvarint :: "bytes \<Rightarrow> (bytes \<times> uint64) option"
  EncodeNumericFloat :: "bytes \<Rightarrow> float64 \<Rightarrow> bytes"
  DecodeNumericFloat :: "bytes \<Rightarrow> (bytes \<times> float64) option"

definition sliceBytes :: "bytes option \<Rightarrow> bytes" where
  "sliceBytes s = (case s of None \<Rightarrow> [] | Some bs \<Rightarrow> bs)"

section \<open>Key builder\<close>

fun encodeTableKey :: "codec \<Rightarrow> bytes \<Rightarrow> gvalue \<Rightarrow> error + bytes" where
  "encodeTableKey c b (VBytes t) = Inr (EncodeBytes c b (sliceBytes t))"
| "encodeTableKey c b (VString t) = Inr (EncodeBytes c b t)"
| "encodeTableKey c b (VBool v) =
     (if v then Inr (EncodeVarint c b 1) else Inr (EncodeVarint c b 0))"
| "encodeTableKey c b (VInt w i) = Inr (EncodeVarint c b i)"
| "encodeTableKey c b (VUint w u) = Inr (EncodeUvarint c b u)"
| "encodeTableKey c b (VFloat w f) = Inr (EncodeNumericFloat c b f)"
| "encodeTableKey c b (VNamedString s) = Inr (EncodeBytes c b s)"
| "encodeTableKey c b (VMessage z r) = Inl UnableToEncodeKey"
| "encodeTableKey c b (VBinary z r) = Inl UnableToEncodeKey"
| "encodeTableKey c b (VOther x) = Inl UnableToEncodeKey"

text \<open>
  \<^verbatim>\<open>decodeTableKey(b, v)\<close> returns the remaining bytes and the new contents of \<open>v\<close>;
  its one error return leaves \<open>v\<close> as it was.
\<close>

fun decodeTableKey :: "codec \<Rightarrow> bytes \<Rightarrow> gvalue \<Rightarrow> error + (bytes \<times> gvalue)" where
  "decodeTableKey c b (VBytes d) =
     (case DecodeBytes c b of None \<Rightarrow> Inl DecodePanic | Some (b', r) \<Rightarrow> Inr (b', VBytes r))"
| "decodeTableKey c b (VString d) =
     (case DecodeBytes c b of None \<Rightarrow> Inl DecodePanic
      | Some (b', r) \<Rightarrow> Inr (b', VString (sliceBytes r)))"
| "decodeTableKey c b (VBool d) =
     (case DecodeVarint c b of None \<Rightarrow> Inl DecodePanic
      | Some (b', i) \<Rightarrow> Inr (b', VBool (i \<noteq> 0)))"
| "decodeTableKey c b (VInt w d) =
     (case DecodeVarint c b of None \<Rightarrow> Inl DecodePanic
      | Some (b', i) \<Rightarrow> Inr (b', VInt w (setInt w i)))"
| "decodeTableKey c b (VUint w d) =
     (case DecodeUvarint c b of None \<Rightarrow> Inl DecodePanic
      | Some (b', u) \<Rightarrow> Inr (b', VUint w (setUint w u)))"
| "decodeTableKey c b (VFloat w d) =
     (case DecodeNumericFloat c b of None \<Rightarrow> Inl DecodePanic
      | Some (b', f) \<Rightarrow> Inr (b', VFloat w (setFloat w f)))"
| "decodeTableKey c b (VNamedString d) =
     (case DecodeBytes c b of None \<Rightarrow> Inl DecodePanic
      | Some (b', r) \<Rightarrow> Inr (b', VNamedString (sliceBytes r)))"
| "decodeTableKey c b (VMessage z d) = Inl UnableToDecodeKey"
| "decodeTableKey c b (VBinary z d) = Inl UnableToDecodeKey"
| "decodeTableKey c b (VOther d) = Inl UnableToDecodeKey"

text \<open>
  The binding of a record type. \<open>mfields\<close> (the member \<^verbatim>\<open>fields\<close>) is the Go map from column name to field
  descriptor, listed in the order in which a \<^verbatim>\<open>range\<close> over it yields its keys; a
  descriptor is the position of the field in the record.
\<close>

record model =
  name :: gostring
  mfields :: "(gostring \<times> nat) list"
  primaryKey :: "gostring list"
  otherColumns :: "gostring list"

fun encodeKeyColumns ::
  "codec \<Rightarrow> model \<Rightarrow> struct \<Rightarrow> gostring list \<Rightarrow> bytes \<Rightarrow> error + bytes" where
  "encodeKeyColumns c m v [] key = Inr key"
| "encodeKeyColumns c m v (col # cols) key =
     (case map_of (mfields m) col of
        None \<Rightarrow> Inl (UnableToFindField (name m) col)
      | Some f \<Rightarrow>
          (case encodeTableKey c key (v f) of
             Inl e \<Rightarrow> Inl e
           | Inr key' \<Rightarrow> encodeKeyColumns c m v cols key'))"

definition encodePrimaryKey :: "codec \<Rightarrow> model \<Rightarrow> struct \<Rightarrow> error + bytes" where
  "encodePrimaryKey c m v = encodeKeyColumns c m v (primaryKey m) (EncodeBytes c [] (name m))"

text \<open>
  \<^verbatim>\<open>decodePrimaryKey\<close> writes into the record as it goes, so the model returns the
  record as it is afterwards together with the remaining bytes or the error.
\<close>

fun decodeKeyColumns ::
  "codec \<Rightarrow> model \<Rightarrow> gostring list \<Rightarrow> bytes \<Rightarrow> struct \<Rightarrow> (error + bytes) \<times> struct" where
  "decodeKeyColumns c m [] key v = (Inr key, v)"
| "decodeKeyColumns c m (col # cols) key v =
     (case map_of (mfields m) col of
        None \<Rightarrow> (Inl (UnableToFindField (name m) col), v)
      | Some f \<Rightarrow>
          (case decodeTableKey c key (v f) of
             Inl e \<Rightarrow> (Inl e, v)
           | Inr (key', x) \<Rightarrow> decodeKeyColumns c m cols key' (v(f := x))))"

definition decodePrimaryKey ::
  "codec \<Rightarrow> model \<Rightarrow> bytes \<Rightarrow> struct \<Rightarrow> (error + bytes) \<times> struct" where
  "decodePrimaryKey c m key v =
     (case DecodeBytes c key of
        None \<Rightarrow> (Inl DecodePanic, v)
      | Some (key', nm) \<Rightarrow>
          if sliceBytes nm \<noteq> name m
          then (Inl (UnexpectedTableName (name m) (sliceBytes nm)), v)
          else decodeKeyColumns c m (primaryKey m) key' v)"

text \<open>The contents of the slice that \<^verbatim>\<open>encodeColumnKey\<close> returns.\<close>

definition encodeColumnKey :: "model \<Rightarrow> bytes \<Rightarrow> gostring \<Rightarrow> bytes" where
  "encodeColumnKey m pk column = pk @ column"

subsection \<open>Slices and their backing arrays\<close>

text \<open>
  For the effect of \<^verbatim>\<open>encodeColumnKey\<close> on memory, a slice is a window (offset, length,
  capacity) on a backing array, and the heap maps array addresses to their contents;
  addresses below \<open>nextArr\<close> are allocated. \<open>goAppend\<close> is \<^verbatim>\<open>append\<close> as the Go
  specification defines it: it writes behind the slice's end in the same array when the
  capacity is large enough, and copies into a new, sufficiently large array otherwise.
  How much larger than needed the new array is is the runtime's choice (\<open>slack\<close>).
\<close>

record slice =
  arr :: "nat option"
  off :: nat
  len :: nat
  cap :: nat

record heap =
  arrays :: "nat \<Rightarrow> bytes"
  nextArr :: nat

definition nilSlice :: slice where
  "nilSlice = \<lparr>arr = None, off = 0, len = 0, cap = 0\<rparr>"

definition sliceContents :: "heap \<Rightarrow> slice \<Rightarrow> bytes" where
  "sliceContents h s =
     (case arr s of None \<Rightarrow> [] | Some a \<Rightarrow> take (len s) (drop (off s) (arrays h a)))"

definition goAppend :: "(nat \<Rightarrow> nat) \<Rightarrow> heap \<Rightarrow> slice \<Rightarrow> bytes \<Rightarrow> heap \<times> slice" where
  "goAppend slack h s xs =
     (if len s + length xs \<le> cap s then
        (case arr s of
           None \<Rightarrow> (h, s)
         | Some a \<Rightarrow>
             (h\<lparr>arrays := (arrays h)
                  (a := take (off s + len s) (arrays h a) @ xs @
                        drop (off s + len s + length xs) (arrays h a))\<rparr>,
              s\<lparr>len := len s + length xs\<rparr>))
      else
        (let n = len s + length xs; c = n + slack n; a = nextArr h in
         (h\<lparr>arrays := (arrays h)(a := sliceContents h s @ xs @ replicate (c - n) 0),
            nextArr := Suc a\<rparr>,
          \<lparr>arr = Some a, off = 0, len = n, cap = c\<rparr>)))"

text \<open>
  \<^verbatim>\<open>encodeColumnKey\<close> on the heap: \<^verbatim>\<open>var key []byte\<close>, then the two appends. The
  column is a Go string, immutable, given by its bytes.
\<close>

definition encodeColumnKey_heap ::
  "(nat \<Rightarrow> nat) \<Rightarrow> heap \<Rightarrow> slice \<Rightarrow> gostring \<Rightarrow> heap \<times> slice" where
  "encodeColumnKey_heap slack h pk column =
     (case goAppend slack h nilSlice (sliceContents h pk) of
        (h1, key) \<Rightarrow> goAppend slack h1 key column)"

text \<open>Column keys for several columns, built one after the other from the same buffer.\<close>

fun encodeColumnKeys ::
  "(nat \<Rightarrow> nat) \<Rightarrow> heap \<Rightarrow> slice \<Rightarrow> gostring list \<Rightarrow> heap \<times> slice list" where
  "encodeColumnKeys slack h pk [] = (h, [])"
| "encodeColumnKeys slack h pk (col # cols) =
     (case encodeColumnKey_heap slack h pk col of
        (h1, key) \<Rightarrow>
          (case encodeColumnKeys slack h1 pk cols of (h2, keys) \<Rightarrow> (h2, key # keys)))"

section \<open>Schema binding registry\<close>

type_synonym registry = "gtype \<Rightarrow> model option"

text \<open>
  Modelled from the spec: \<^verbatim>\<open>deref\<close> (a helper of the client package) is not among the
  sources. By 4.3 a record type is bound and looked up as itself whether the caller
  hands in a record or a pointer to one, so \<open>deref\<close> is the step from a pointer type
  to the type it points to. \<open>Indirect\<close> is the same step done by \<^verbatim>\<open>reflect.Indirect\<close>
  on a value.
\<close>

fun deref :: "gtype \<Rightarrow> gtype" where
  "deref (TPtr t) = t"
| "deref t = t"

fun Indirect :: "gtype \<Rightarrow> gtype" where
  "Indirect (TPtr t) = t"
| "Indirect t = t"

fun isPtr :: "gtype \<Rightarrow> bool" where
  "isPtr (TPtr t) = True"
| "isPtr t = False"

text \<open>
  \<^verbatim>\<open>BindModel(name, obj, primaryKey...)\<close>. \<^verbatim>\<open>getDBFields\<close> is not among the sources
  and is a parameter: it yields the field map of a type or an error. The result is the
  returned error, if any, and the registry afterwards.
\<close>

definition BindModel ::
  "(gtype \<Rightarrow> error + (gostring \<times> nat) list) \<Rightarrow> registry \<Rightarrow> gostring \<Rightarrow> gtype \<Rightarrow>
   gostring list \<Rightarrow> error option \<times> registry" where
  "BindModel getDBFields db nm objT pk =
     (let t = deref objT in
      if db t \<noteq> None then (Some (AlreadyDefined nm), db)
      else
        (case getDBFields t of
           Inl e \<Rightarrow> (Some e, db)
         | Inr fs \<Rightarrow>
             (let m = \<lparr>name = nm, mfields = fs, primaryKey = pk,
                       otherColumns = filter (\<lambda>col. col \<notin> set pk) (map fst fs)\<rparr>
              in (None, db(t \<mapsto> m)))))"

definition getModel :: "registry \<Rightarrow> gtype \<Rightarrow> bool \<Rightarrow> error + model" where
  "getModel db t mustBePointer =
     (if mustBePointer \<and> \<not> isPtr t then Inl PointerTypeRequired
      else (case db (deref t) of Some m \<Rightarrow> Inr m | None \<Rightarrow> Inl UnableToFindModel))"

section \<open>Batch operation builder\<close>

text \<open>
  A call is its request and its post-processing step; the step is a closure in the
  source and is given here by what it captures. The checksum that \<^verbatim>\<open>PutStruct\<close> stamps
  on a value is not modelled.
\<close>

datatype request =
    GetRequest bytes
  | PutRequest bytes pvalue
  | IncrementRequest bytes int64
  | ScanRequest bytes bytes int64
  | DeleteRequest bytes

datatype post =
    NoPost
  | GetPost nat
  | IncPost nat
  | ScanPost model gtype bool "gostring list"

record call =
  Args :: request
  Post :: post

record result =
  ncalls :: nat
  nrows :: nat
  Err :: "error option"

record batch =
  calls :: "call list"
  Results :: "result list"

text \<open>
  Modelled from the spec: \<^verbatim>\<open>Batch.initResult\<close> is not among the sources. By 4.5 and 7
  an operation that fails validation records a synchronous error and issues no call;
  \<open>initResult\<close> is the recording: it adds one result (number of calls, number of rows,
  error) to the batch and leaves the batch's calls alone.
\<close>

definition initResult :: "batch \<Rightarrow> nat \<Rightarrow> nat \<Rightarrow> error option \<Rightarrow> batch" where
  "initResult b n rows e = b\<lparr>Results := Results b @ [\<lparr>ncalls = n, nrows = rows, Err = e\<rparr>]\<rparr>"

text \<open>
  An object handed to an operation is given by its dynamic type and by the record it is
  or points to. The loops over the requested columns collect calls in a local list.
\<close>

fun getStructCalls ::
  "model \<Rightarrow> bytes \<Rightarrow> gostring list \<Rightarrow> call list \<Rightarrow> error + call list" where
  "getStructCalls m pk [] cs = Inr cs"
| "getStructCalls m pk (col # cols) cs =
     (case map_of (mfields m) col of
        None \<Rightarrow> Inl (UnableToFindField (name m) col)
      | Some f \<Rightarrow>
          getStructCalls m pk cols
            (cs @ [\<lparr>Args = GetRequest (encodeColumnKey m pk col), Post = GetPost f\<rparr>]))"

definition GetStruct ::
  "codec \<Rightarrow> registry \<Rightarrow> batch \<Rightarrow> gtype \<Rightarrow> struct \<Rightarrow> gostring list \<Rightarrow> batch" where
  "GetStruct c db b objT v columns =
     (case getModel db objT True of
        Inl e \<Rightarrow> initResult b 0 0 (Some e)
      | Inr m \<Rightarrow>
          (case encodePrimaryKey c m v of
             Inl e \<Rightarrow> initResult b 0 0 (Some e)
           | Inr pk \<Rightarrow>
               (case getStructCalls m pk (if columns = [] then otherColumns m else columns) [] of
                  Inl e \<Rightarrow> initResult b 0 0 (Some e)
                | Inr cs \<Rightarrow>
                    initResult (b\<lparr>calls := calls b @ cs\<rparr>) (length cs) (length cs) None)))"

fun putStructCalls ::
  "model \<Rightarrow> bytes \<Rightarrow> struct \<Rightarrow> gostring list \<Rightarrow> call list \<Rightarrow> error + call list" where
  "putStructCalls m pk v [] cs = Inr cs"
| "putStructCalls m pk v (col # cols) cs =
     (case map_of (mfields m) col of
        None \<Rightarrow> Inl (UnableToFindField (name m) col)
      | Some f \<Rightarrow>
          (case marshalTableValue (v f) of
             Inl e \<Rightarrow> Inl e
           | Inr x \<Rightarrow>
               putStructCalls m pk v cols
                 (cs @ [\<lparr>Args = PutRequest (encodeColumnKey m pk col) x, Post = NoPost\<rparr>])))"

definition PutStruct ::
  "codec \<Rightarrow> registry \<Rightarrow> batch \<Rightarrow> gtype \<Rightarrow> struct \<Rightarrow> gostring list \<Rightarrow> batch" where
  "PutStruct c db b objT v columns =
     (case getModel db (Indirect objT) False of
        Inl e \<Rightarrow> initResult b 0 0 (Some e)
      | Inr m \<Rightarrow>
          (case encodePrimaryKey c m v of
             Inl e \<Rightarrow> initResult b 0 0 (Some e)
           | Inr pk \<Rightarrow>
               (case putStructCalls m pk v (if columns = [] then otherColumns m else columns) [] of
                  Inl e \<Rightarrow> initResult b 0 0 (Some e)
                | Inr cs \<Rightarrow>
                    initResult (b\<lparr>calls := calls b @ cs\<rparr>) (length cs) (length cs) None)))"

definition IncStruct ::
  "codec \<Rightarrow> registry \<Rightarrow> batch \<Rightarrow> gtype \<Rightarrow> struct \<Rightarrow> int64 \<Rightarrow> gostring \<Rightarrow> batch" where
  "IncStruct c db b objT v val column =
     (case getModel db objT True of
        Inl e \<Rightarrow> initResult b 0 0 (Some e)
      | Inr m \<Rightarrow>
          (case encodePrimaryKey c m v of
             Inl e \<Rightarrow> initResult b 0 0 (Some e)
           | Inr pk \<Rightarrow>
               (case map_of (mfields m) column of
                  None \<Rightarrow> initResult b 0 0 (Some (UnableToFindField (name m) column))
                | Some f \<Rightarrow>
                    initResult
                      (b\<lparr>calls := calls b @
                          [\<lparr>Args = IncrementRequest (encodeColumnKey m pk column) val,
                            Post = IncPost f\<rparr>]\<rparr>) 1 1 None)))"

fun sliceElem :: "gtype \<Rightarrow> gtype option" where
  "sliceElem (TPtr (TSlice t)) = Some t"
| "sliceElem t = None"

definition ScanStruct ::
  "codec \<Rightarrow> registry \<Rightarrow> batch \<Rightarrow> gtype \<Rightarrow> gtype \<Rightarrow> struct \<Rightarrow> gtype \<Rightarrow> struct \<Rightarrow> int64 \<Rightarrow>
   gostring list \<Rightarrow> batch" where
  "ScanStruct c db b destT startT startV endT endV maxRows columns =
     (case sliceElem destT of
        None \<Rightarrow> initResult b 0 0 (Some DestNotPointerToSlice)
      | Some elemT \<Rightarrow>
          (let ptrResults = isPtr elemT;
               modelT = (if ptrResults then deref elemT else elemT) in
           case getModel db modelT False of
             Inl e \<Rightarrow> initResult b 0 0 (Some e)
           | Inr m \<Rightarrow>
               if modelT \<noteq> Indirect startT then initResult b 0 0 (Some IncompatibleStartKeyType)
               else if modelT \<noteq> Indirect endT then initResult b 0 0 (Some IncompatibleEndKeyType)
               else
                 (case encodePrimaryKey c m startV of
                    Inl e \<Rightarrow> initResult b 0 0 (Some e)
                  | Inr startKey \<Rightarrow>
                      (case encodePrimaryKey c m endV of
                         Inl e \<Rightarrow> initResult b 0 0 (Some e)
                       | Inr endKey \<Rightarrow>
                           initResult
                             (b\<lparr>calls := calls b @
                                 [\<lparr>Args = ScanRequest startKey endKey maxRows,
                                   Post = ScanPost m modelT ptrResults columns\<rparr>]\<rparr>)
                             1 0 None))))"

fun delStructCalls ::
  "model \<Rightarrow> bytes \<Rightarrow> gostring list \<Rightarrow> call list \<Rightarrow> error + call list" where
  "delStructCalls m pk [] cs = Inr cs"
| "delStructCalls m pk (col # cols) cs =
     (case map_of (mfields m) col of
        None \<Rightarrow> Inl (UnableToFindField (name m) col)
      | Some f \<Rightarrow>
          delStructCalls m pk cols
            (cs @ [\<lparr>Args = DeleteRequest (encodeColumnKey m pk col), Post = NoPost\<rparr>]))"

definition DelStruct ::
  "codec \<Rightarrow> registry \<Rightarrow> batch \<Rightarrow> gtype \<Rightarrow> struct \<Rightarrow> gostring list \<Rightarrow> batch" where
  "DelStruct c db b objT v columns =
     (case getModel db (Indirect objT) False of
        Inl e \<Rightarrow> initResult b 0 0 (Some e)
      | Inr m \<Rightarrow>
          (case encodePrimaryKey c m v of
             Inl e \<Rightarrow> initResult b 0 0 (Some e)
           | Inr pk \<Rightarrow>
               (case delStructCalls m pk (if columns = [] then otherColumns m else columns) [] of
                  Inl e \<Rightarrow> initResult b 0 0 (Some e)
                | Inr cs \<Rightarrow>
                    initResult (b\<lparr>calls := calls b @ cs\<rparr>) (length cs) (length cs) None)))"

section \<open>Scan reconstructor\<close>

text \<open>
  The post-processing step of the Scan call issued by \<^verbatim>\<open>ScanStruct\<close>. A row of the
  reply is a key and a value. The loop carries the current primary key (nil before the
  first row), the current record and the slice built so far. A record is appended by
  value or as a pointer to a record allocated for it (\<^verbatim>\<open>ptrResults\<close>); either way
  the loop goes on with a zero record, so the model does not tell the two apart.
\<close>

record row =
  Key :: bytes
  Value :: pvalue

fun scanRows ::
  "codec \<Rightarrow> model \<Rightarrow> struct \<Rightarrow> gostring list \<Rightarrow> row list \<Rightarrow> bytes option \<Rightarrow> struct \<Rightarrow>
   struct list \<Rightarrow> error + (struct \<times> struct list)" where
  "scanRows c m zero columns [] pk res sliceV = Inr (res, sliceV)"
| "scanRows c m zero columns (r # rows) pk res sliceV =
     (case
        (case pk of
           None \<Rightarrow> Inr (res, sliceV)
         | Some p \<Rightarrow>
             if \<not> prefix p (Key r) then
               (case decodePrimaryKey c m p zero of
                  (Inl e, _) \<Rightarrow> Inl e
                | (Inr _, res') \<Rightarrow> Inr (res', sliceV @ [res]))
             else Inr (res, sliceV))
      of
        Inl e \<Rightarrow> Inl e
      | Inr (res1, sliceV1) \<Rightarrow>
          (case decodePrimaryKey c m (Key r) res1 of
             (Inl e, _) \<Rightarrow> Inl e
           | (Inr col, res2) \<Rightarrow>
               (let pk' = Some (take (length (Key r) - length col) (Key r)) in
                if columns \<noteq> [] \<and> col \<notin> set columns then
                  scanRows c m zero columns rows pk' res2 sliceV1
                else
                  (case map_of (mfields m) col of
                     None \<Rightarrow> Inl (UnableToFindField (name m) col)
                   | Some f \<Rightarrow>
                       (case unmarshalTableValue (Some (Value r)) (res2 f) of
                          Inl e \<Rightarrow> Inl e
                        | Inr x \<Rightarrow>
                            scanRows c m zero columns rows pk' (res2(f := x)) sliceV1)))))"

text \<open>
  The whole step: the destination slice as it is afterwards, or the error. On an error
  the source returns before it stores the slice back, so the destination keeps its
  elements.
\<close>

definition scanPost ::
  "codec \<Rightarrow> model \<Rightarrow> gtype \<Rightarrow> gostring list \<Rightarrow> row list \<Rightarrow> struct list \<Rightarrow>
   error + struct list" where
  "scanPost c m modelT columns rows dest =
     (if rows = [] then Inr dest
      else
        (case scanRows c m (zeroStruct modelT) columns rows None (zeroStruct modelT) dest of
           Inl e \<Rightarrow> Inl e
         | Inr (res, sliceV) \<Rightarrow> Inr (sliceV @ [res])))"

section \<open>What the key functions need of the codec\<close>

text \<open>
  Each encoder appends the encoding of the value to its buffer, and each decoder, given
  an encoding followed by more bytes, returns those bytes and the value (for
  \<^verbatim>\<open>DecodeBytes\<close>: a slice with the encoded contents).
\<close>

definition codec_ok :: "codec \<Rightarrow> bool" where
  "codec_ok c \<longleftrightarrow>
     (\<forall>b t. EncodeBytes c b t = b @ EncodeBytes c [] t) \<and>
     (\<forall>t rest. map_option (\<lambda>(r, s). (r, sliceBytes s)) (DecodeBytes c (EncodeBytes c [] t @ rest))
                = Some (rest, t)) \<and>
     (\<forall>b i. EncodeVarint c b i = b @ EncodeVarint c [] i) \<and>
     (\<forall>i rest. DecodeVarint c (EncodeVarint c [] i @ rest) = Some (rest, i)) \<and>
     (\<forall>b u. EncodeUvarint c b u = b @ EncodeUvarint c [] u) \<and>
     (\<forall>u rest. DecodeUvarint c (EncodeUvarint c [] u @ rest) = Some (rest, u)) \<and>
     (\<forall>b f. EncodeNumericFloat c b f = b @ EncodeNumericFloat c [] f) \<and>
     (\<forall>f rest. DecodeNumericFloat c (EncodeNumericFloat c [] f @ rest) = Some (rest, f))"


section \<open>A reference codec\<close>

text \<open>
  Modelled from the spec: the package \<^verbatim>\<open>util/encoding\<close> (\<^verbatim>\<open>EncodeBytes\<close>,
  \<^verbatim>\<open>EncodeVarint\<close>, \<^verbatim>\<open>EncodeUvarint\<close>, \<^verbatim>\<open>EncodeNumericFloat\<close> and their decoders)
  is not among the sources. Section 4.1 asks for
  \<^item> byte sequences and text in an escape-delimited encoding: a zero byte is escaped
    (00 FF) and the value ends with the terminator 00 01;
  \<^item> integers in a variable-length, order-preserving encoding: a marker byte that
    gives the number of significant bytes, then those bytes, most significant first;
    a negative value counts its bytes downwards from the marker 8 (so that it sorts before
    every non-negative value), a non-negative one upwards;
  \<^item> floats in an order-preserving transform of the bit pattern (all bits flipped for
    a negative float, the sign bit set for a non-negative one), eight bytes, most
    significant first.
\<close>

fun escapeBytes :: "bytes \<Rightarrow> bytes" where
  "escapeBytes [] = [0x00, 0x01]"
| "escapeBytes (x # xs) = (if x = 0 then [0x00, 0xFF] else [x]) @ escapeBytes xs"

fun unescapeBytes :: "bytes \<Rightarrow> (bytes \<times> bytes) option" where
  "unescapeBytes [] = None"
| "unescapeBytes (x # xs) =
     (if x \<noteq> 0 then map_option (\<lambda>(r, v). (r, x # v)) (unescapeBytes xs)
      else (case xs of
              [] \<Rightarrow> None
            | y # rest \<Rightarrow>
                if y = 0x01 then Some (rest, [])
                else if y = 0xFF then map_option (\<lambda>(r, v). (r, 0 # v)) (unescapeBytes rest)
                else None))"

fun byteLen :: "nat \<Rightarrow> nat" where
  "byteLen x = (if x = 0 then 0 else Suc (byteLen (x div 256)))"

fun beBytes :: "nat \<Rightarrow> nat \<Rightarrow> bytes" where
  "beBytes 0 x = []"
| "beBytes (Suc n) x = of_nat (x div 256 ^ n) # beBytes n (x mod 256 ^ n)"

definition beValue :: "bytes \<Rightarrow> nat" where
  "beValue bs = foldl (\<lambda>a b. a * 256 + unat b) 0 bs"

definition specEncodeBytes :: "bytes \<Rightarrow> bytes \<Rightarrow> bytes" where
  "specEncodeBytes b t = b @ escapeBytes t"

definition specDecodeBytes :: "bytes \<Rightarrow> (bytes \<times> bytes option) option" where
  "specDecodeBytes b = map_option (\<lambda>(r, v). (r, Some v)) (unescapeBytes b)"

definition specEncodeUvarint :: "bytes \<Rightarrow> uint64 \<Rightarrow> bytes" where
  "specEncodeUvarint b u =
     (let n = byteLen (unat u) in b @ of_nat (8 + n) # beBytes n (unat u))"

definition specDecodeUvarint :: "bytes \<Rightarrow> (bytes \<times> uint64) option" where
  "specDecodeUvarint b =
     (case b of
        [] \<Rightarrow> None
      | m # rest \<Rightarrow>
          if unat m < 8 \<or> 16 < unat m \<or> length rest < unat m - 8 then None
          else Some (drop (unat m - 8) rest, of_nat (beValue (take (unat m - 8) rest))))"

definition specEncodeVarint :: "bytes \<Rightarrow> int64 \<Rightarrow> bytes" where
  "specEncodeVarint b i =
     (if sint i < 0 then
        (let x = nat (- sint i); n = byteLen x in b @ of_nat (8 - n) # beBytes n (256 ^ n - x))
      else specEncodeUvarint b i)"

definition specDecodeVarint :: "bytes \<Rightarrow> (bytes \<times> int64) option" where
  "specDecodeVarint b =
     (case b of
        [] \<Rightarrow> None
      | m # rest \<Rightarrow>
          if unat m < 8 then
            (let n = 8 - unat m in
             if length rest < n then None
             else Some (drop n rest, of_int (int (beValue (take n rest)) - 256 ^ n)))
          else specDecodeUvarint b)"

definition floatKey :: "nat \<Rightarrow> nat" where
  "floatKey x = (if 2 ^ 63 \<le> x then 2 ^ 64 - 1 - x else x + 2 ^ 63)"

definition floatUnkey :: "nat \<Rightarrow> nat" where
  "floatUnkey y = (if 2 ^ 63 \<le> y then y - 2 ^ 63 else 2 ^ 64 - 1 - y)"

definition specEncodeNumericFloat :: "bytes \<Rightarrow> float64 \<Rightarrow> bytes" where
  "specEncodeNumericFloat b f = b @ beBytes 8 (floatKey (unat f))"

definition specDecodeNumericFloat :: "bytes \<Rightarrow> (bytes \<times> float64) option" where
  "specDecodeNumericFloat b =
     (if length b < 8 then None
      else Some (drop 8 b, of_nat (floatUnkey (beValue (take 8 b)))))"

definition specCodec :: codec where
  "specCodec = \<lparr>EncodeBytes = specEncodeBytes, DecodeBytes = specDecodeBytes,
     EncodeVarint = specEncodeVarint, DecodeVarint = specDecodeVarint,
     EncodeUvarint = specEncodeUvarint, DecodeUvarint = specDecodeUvarint,
     EncodeNumericFloat = specEncodeNumericFloat, DecodeNumericFloat = specDecodeNumericFloat\<rparr>"

section \<open>Vocabulary of the statements\<close>

text \<open>
  The columns an operation asks for (the model's other columns when the caller names
  none), and what it means that an operation issued all of its \<open>n\<close> calls or none:
  either the batch's calls are as before and an error is recorded, or exactly \<open>n\<close>
  calls were appended and no error is recorded.
\<close>

definition requestedColumns :: "registry \<Rightarrow> gtype \<Rightarrow> gostring list \<Rightarrow> gostring list" where
  "requestedColumns db t columns =
     (case db (deref t) of
        None \<Rightarrow> columns
      | Some m \<Rightarrow> if columns = [] then otherColumns m else columns)"

definition allOrNothing :: "batch \<Rightarrow> batch \<Rightarrow> nat \<Rightarrow> bool" where
  "allOrNothing b b' n \<longleftrightarrow>
     (calls b' = calls b \<and>
      (\<exists>e. Results b' = Results b @ [\<lparr>ncalls = 0, nrows = 0, Err = Some e\<rparr>])) \<or>
     (\<exists>cs r. calls b' = calls b @ cs \<and> length cs = n \<and>
      Results b' = Results b @ [\<lparr>ncalls = n, nrows = r, Err = None\<rparr>])"

text \<open>
  The two outcomes of an operation, spelled out. \<open>rejects b b' e\<close>: the batch has the
  calls it had and one more result, which holds the error \<open>e\<close> and counts no call.
  \<open>issues b b' cs rows\<close>: the calls \<open>cs\<close> were appended, in this order, and the one
  more result counts them and holds no error.
\<close>

definition rejects :: "batch \<Rightarrow> batch \<Rightarrow> error \<Rightarrow> bool" where
  "rejects b b' e \<longleftrightarrow>
     calls b' = calls b \<and>
     Results b' = Results b @ [\<lparr>ncalls = 0, nrows = 0, Err = Some e\<rparr>]"

definition issues :: "batch \<Rightarrow> batch \<Rightarrow> call list \<Rightarrow> nat \<Rightarrow> bool" where
  "issues b b' cs rows \<longleftrightarrow>
     calls b' = calls b @ cs \<and>
     Results b' = Results b @ [\<lparr>ncalls = length cs, nrows = rows, Err = None\<rparr>]"

text \<open>
  The columns an operation on a model asks for; a column that names a field of the
  model; a column that names a field whose value in the record marshals; and the call
  that \<^verbatim>\<open>GetStruct\<close>, \<^verbatim>\<open>PutStruct\<close> and \<^verbatim>\<open>DelStruct\<close> build for one column: the request
  on the column's key, with the field's position (Get) or the marshalled value of the
  field (Put).
\<close>

definition columnsOf :: "model \<Rightarrow> gostring list \<Rightarrow> gostring list" where
  "columnsOf m columns = (if columns = [] then otherColumns m else columns)"

definition knownColumn :: "model \<Rightarrow> gostring \<Rightarrow> bool" where
  "knownColumn m col = (case map_of (mfields m) col of None \<Rightarrow> False | Some f \<Rightarrow> True)"

definition marshalsColumn :: "model \<Rightarrow> struct \<Rightarrow> gostring \<Rightarrow> bool" where
  "marshalsColumn m v col =
     (case map_of (mfields m) col of
        None \<Rightarrow> False
      | Some f \<Rightarrow> (case marshalTableValue (v f) of Inl e \<Rightarrow> False | Inr x \<Rightarrow> True))"

definition getCallFor :: "model \<Rightarrow> bytes \<Rightarrow> gostring \<Rightarrow> call \<Rightarrow> bool" where
  "getCallFor m pk col cl =
     (case map_of (mfields m) col of
        None \<Rightarrow> False
      | Some f \<Rightarrow> cl = \<lparr>Args = GetRequest (encodeColumnKey m pk col), Post = GetPost f\<rparr>)"

definition putCallFor :: "model \<Rightarrow> bytes \<Rightarrow> struct \<Rightarrow> gostring \<Rightarrow> call \<Rightarrow> bool" where
  "putCallFor m pk v col cl =
     (case map_of (mfields m) col of
        None \<Rightarrow> False
      | Some f \<Rightarrow>
          (case marshalTableValue (v f) of
             Inl e \<Rightarrow> False
           | Inr x \<Rightarrow> cl = \<lparr>Args = PutRequest (encodeColumnKey m pk col) x, Post = NoPost\<rparr>))"

definition delCallFor :: "model \<Rightarrow> bytes \<Rightarrow> gostring \<Rightarrow> call \<Rightarrow> bool" where
  "delCallFor m pk col cl =
     (case map_of (mfields m) col of
        None \<Rightarrow> False
      | Some f \<Rightarrow> cl = \<lparr>Args = DeleteRequest (encodeColumnKey m pk col), Post = NoPost\<rparr>)"

text \<open>
  The record type that \<^verbatim>\<open>ScanStruct\<close> looks up for a destination slice with elements
  of type \<open>elemT\<close>: the element type, or what it points to.
\<close>

definition scanModelType :: "gtype \<Rightarrow> gtype" where
  "scanModelType elemT = (if isPtr elemT then deref elemT else elemT)"

text \<open>
  The positions of the fields that a list of key columns addresses, and those of the
  model's primary key.
\<close>

definition keyFields :: "model \<Rightarrow> gostring list \<Rightarrow> nat set" where
  "keyFields m cols = set (List.map_filter (\<lambda>col. map_of (mfields m) col) cols)"

definition pkFields :: "model \<Rightarrow> nat set" where
  "pkFields m = keyFields m (primaryKey m)"

text \<open>
  For the heap: a slice is valid in a heap when its array, if it has one, is allocated;
  it is fresh between two heaps when its array, if it has one, was allocated in between;
  two heaps have the same arrays when every array of the first is unchanged in the
  second.
\<close>

definition validSlice :: "heap \<Rightarrow> slice \<Rightarrow> bool" where
  "validSlice h s = (case arr s of None \<Rightarrow> True | Some a \<Rightarrow> a < nextArr h)"

definition freshIn :: "heap \<Rightarrow> heap \<Rightarrow> slice \<Rightarrow> bool" where
  "freshIn h h' s = (case arr s of None \<Rightarrow> True | Some a \<Rightarrow> nextArr h \<le> a \<and> a < nextArr h')"

definition sameArrays :: "heap \<Rightarrow> heap \<Rightarrow> bool" where
  "sameArrays h h' \<longleftrightarrow> nextArr h \<le> nextArr h' \<and> (\<forall>a. a < nextArr h \<longrightarrow> arrays h' a = arrays h a)"

text \<open>A slice that is nil or spans, from its start, an array allocated at or after address \<open>n\<close>.\<close>

definition owned :: "nat \<Rightarrow> heap \<Rightarrow> slice \<Rightarrow> bool" where
  "owned n h s \<longleftrightarrow>
     (case arr s of
        None \<Rightarrow> len s = 0 \<and> cap s = 0
      | Some a \<Rightarrow> n \<le> a \<and> a < nextArr h \<and> off s = 0 \<and> len s \<le> cap s \<and>
                  length (arrays h a) = cap s)"

text \<open>
  For the scan: the primary keys of the records of a type, as \<^verbatim>\<open>encodePrimaryKey\<close>
  builds them; the rows of a reply given by primary key, column name and value; a column
  that the column filter of the scan excludes; a row that is excluded or names a field of
  the model and holds a value that unmarshals into a field of that kind; a reply none of
  whose rows, unless excluded, names a primary-key column; and the fields that some row
  of a reply, not excluded, assigns.
\<close>

definition encodedKeys :: "codec \<Rightarrow> model \<Rightarrow> gtype \<Rightarrow> bytes set" where
  "encodedKeys c m t = {p. \<exists>r. hasType r t \<and> encodePrimaryKey c m r = Inr p}"

definition replyRows :: "model \<Rightarrow> (bytes \<times> gostring \<times> pvalue) list \<Rightarrow> row list" where
  "replyRows m trs = map (\<lambda>(p, col, v). \<lparr>Key = encodeColumnKey m p col, Value = v\<rparr>) trs"

definition filteredOut :: "gostring list \<Rightarrow> gostring \<Rightarrow> bool" where
  "filteredOut columns col \<longleftrightarrow> columns \<noteq> [] \<and> col \<notin> set columns"

definition rowOK :: "model \<Rightarrow> gtype \<Rightarrow> gostring list \<Rightarrow> gostring \<Rightarrow> pvalue \<Rightarrow> bool" where
  "rowOK m t columns col v \<longleftrightarrow>
     filteredOut columns col \<or>
     (\<exists>f x. map_of (mfields m) col = Some f \<and>
            unmarshalTableValue (Some v) (zeroStruct t f) = Inr x)"

definition keyColumnFree :: "model \<Rightarrow> gostring list \<Rightarrow> (bytes \<times> gostring \<times> pvalue) list \<Rightarrow> bool" where
  "keyColumnFree m columns trs \<longleftrightarrow>
     (\<forall>(p, col, v)\<in>set trs. filteredOut columns col \<or>
        (\<forall>f. map_of (mfields m) col = Some f \<longrightarrow> f \<notin> pkFields m))"

definition assignedFields ::
  "model \<Rightarrow> gostring list \<Rightarrow> (bytes \<times> gostring \<times> pvalue) list \<Rightarrow> nat set" where
  "assignedFields m columns trs =
     {f. \<exists>(p, col, v)\<in>set trs. \<not> filteredOut columns col \<and> map_of (mfields m) col = Some f}"

section \<open>Example data\<close>

text \<open>
  A record type KV with a string field K (position 0, the primary key) and a string
  field V (position 1), bound to the table kv; column names are given by their bytes.
\<close>

definition exK :: gostring where "exK = [0x4B]"
definition exV :: gostring where "exV = [0x56]"
definition exX :: gostring where "exX = [0x58]"
definition exName :: gostring where "exName = [0x6B, 0x76]"
definition exType :: gtype where "exType = TStruct [0x4B, 0x56] [KString, KString]"
definition exType2 :: gtype where "exType2 = TStruct [0x4B, 0x57] [KString, KInt W8]"
definition exFields :: "gtype \<Rightarrow> error + (gostring \<times> nat) list" where
  "exFields t = Inr [(exK, 0), (exV, 1)]"
definition exModel :: model where
  "exModel = \<lparr>name = exName, mfields = [(exK, 0), (exV, 1)], primaryKey = [exK],
              otherColumns = [exV]\<rparr>"
definition exDB :: registry where
  "exDB = Map.empty(exType \<mapsto> exModel)"
definition exRec :: "bytes \<Rightarrow> bytes \<Rightarrow> struct" where
  "exRec k v = (\<lambda>i. if i = 0 then VString k else if i = 1 then VString v else VOther 0)"
definition exBatch :: batch where
  "exBatch = \<lparr>calls = [], Results = []\<rparr>"

text \<open>
  A heap with one array of capacity 10 that holds the primary key of the record with
  K = "a" in its first 7 bytes, and the slice of those 7 bytes.
\<close>

definition exHeap :: heap where
  "exHeap = \<lparr>arrays = (\<lambda>a. if a = 0 then [0x6B, 0x76, 0, 1, 0x61, 0, 1, 0, 0, 0] else []),
             nextArr = 1\<rparr>"

definition exPk :: slice where
  "exPk = \<lparr>arr = Some 0, off = 0, len = 7, cap = 10\<rparr>"

text \<open>
  The primary keys of the records with K = "a" and K = "c", a reply with the column V of
  both ("b" and "d"), and a reply whose only row holds an integer under the string
  column V.
\<close>

definition exPkA :: bytes where "exPkA = [0x6B, 0x76, 0, 1, 0x61, 0, 1]"
definition exPkC :: bytes where "exPkC = [0x6B, 0x76, 0, 1, 0x63, 0, 1]"
definition exTrs :: "(bytes \<times> gostring \<times> pvalue) list" where
  "exTrs = [(exPkA, exV, \<lparr>Bytes = Some [0x62], Integer = None\<rparr>),
            (exPkC, exV, \<lparr>Bytes = Some [0x64], Integer = None\<rparr>)]"
definition exBadTrs :: "(bytes \<times> gostring \<times> pvalue) list" where
  "exBadTrs = [(exPkA, exV, \<lparr>Bytes = None, Integer = Some 5\<rparr>)]"

section \<open>Properties of the value marshaler\<close>

lemma kindOf_zeroOfKind [simp]: "kindOf (zeroOfKind k) = k"
  by (cases k) simp_all

lemma unmarshalInto_kind: "unmarshalInto src d = Inr x \<Longrightarrow> kindOf x = kindOf d"
  by (cases d) (auto split: if_splits option.splits)

lemma unmarshalTableValue_kind: "unmarshalTableValue src d = Inr x \<Longrightarrow> kindOf x = kindOf d"
  by (auto simp: unmarshalTableValue_def unmarshalInto_kind split: option.splits)

lemma setInt_W64 [simp]: "setInt W64 x = x"
  unfolding setInt_def
proof (rule bit_word_eqI)
  fix n assume n: "n < LENGTH(64)"
  then have "min 63 n = n" by simp
  with n show "bit (signed_take_bit (bits W64 - 1) x) n = bit x n"
    by (simp add: bit_signed_take_bit_iff)
qed

lemma setUint_W64 [simp]: "setUint W64 x = x"
  by (simp add: setUint_def take_bit_word_eq_self)

lemma setInt_idem [simp]: "setInt w (setInt w x) = setInt w x"
  by (simp add: setInt_def)

lemma setUint_idem [simp]: "setUint w (setUint w x) = setUint w x"
  by (simp add: setUint_def)

lemma hasType_hasKinds: "hasType r t \<Longrightarrow> hasKinds r t"
  by (simp add: hasType_def hasKinds_def)

lemma hasKinds_zero: "hasKinds (zeroStruct t) t"
  by (simp add: hasKinds_def)

section \<open>The reference codec meets the requirements\<close>

lemma unescape_escape: "unescapeBytes (escapeBytes t @ rest) = Some (rest, t)"
  by (induction t) auto

lemma length_beBytes [simp]: "length (beBytes n x) = n"
  by (induction n arbitrary: x) auto

lemma foldl_beBytes:
  "x < 256 ^ n \<Longrightarrow> foldl (\<lambda>a b. a * 256 + unat (b::byte)) a (beBytes n x) = a * 256 ^ n + x"
proof (induction n arbitrary: a x)
  case 0
  then show ?case by simp
next
  case (Suc n)
  have d: "x div 256 ^ n < 256"
    using Suc.prems by (simp add: less_mult_imp_div_less mult.commute)
  have u: "unat (of_nat (x div 256 ^ n) :: byte) = x div 256 ^ n"
    using d by (simp add: unat_of_nat)
  have m: "x mod 256 ^ n < 256 ^ n" by simp
  show ?case
    using Suc.IH [OF m] u by (simp add: algebra_simps)
qed

lemma beValue_beBytes: "x < 256 ^ n \<Longrightarrow> beValue (beBytes n x) = x"
  by (simp add: beValue_def foldl_beBytes)

lemma byteLen_bound: "x < 256 ^ byteLen x"
proof (induction x rule: byteLen.induct)
  case (1 x)
  show ?case
  proof (cases "x = 0")
    case True then show ?thesis by simp
  next
    case False
    with 1 have "x div 256 < 256 ^ byteLen (x div 256)" by simp
    then have "x < 256 * 256 ^ byteLen (x div 256)"
      by (simp add: div_less_iff_less_mult mult.commute)
    with False show ?thesis by (subst byteLen.simps) simp
  qed
qed

lemma byteLen_least: "x < 256 ^ n \<Longrightarrow> byteLen x \<le> n"
proof (induction x arbitrary: n rule: byteLen.induct)
  case (1 x)
  show ?case
  proof (cases "x = 0")
    case True then show ?thesis by simp
  next
    case False
    then obtain k where n: "n = Suc k" using "1.prems" by (cases n) auto
    have "x div 256 < 256 ^ k" using "1.prems" n
      by (simp add: less_mult_imp_div_less mult.commute)
    with 1 False have "byteLen (x div 256) \<le> k" by blast
    with False n show ?thesis by (subst byteLen.simps) simp
  qed
qed

lemma unat_word64_bound: "unat (u::64 word) < 256 ^ 8"
  using unsigned_less [of u, where 'a=nat] by simp

lemma byteLen_word64: "byteLen (unat (u::64 word)) \<le> 8"
  by (rule byteLen_least) (rule unat_word64_bound)

lemma decode_uvarint_cons:
  assumes "unat m = 8 + n" "n \<le> 8" "x < 256 ^ n"
  shows "specDecodeUvarint (m # beBytes n x @ rest) = Some (rest, of_nat x)"
  using assms by (simp add: specDecodeUvarint_def beValue_beBytes)

lemma marker_unat: "k \<le> 16 \<Longrightarrow> unat (of_nat k :: byte) = k"
  by (simp add: unat_of_nat)

lemma spec_uvarint_roundtrip:
  "specDecodeUvarint (specEncodeUvarint [] u @ rest) = Some (rest, u)"
proof -
  define n where "n = byteLen (unat u)"
  define m where "m = (of_nat (8 + n) :: byte)"
  have n8: "n \<le> 8" unfolding n_def by (rule byteLen_word64)
  have mu: "unat m = 8 + n" unfolding m_def using n8 by (intro marker_unat) simp
  have xb: "unat u < 256 ^ n" unfolding n_def by (rule byteLen_bound)
  have enc: "specEncodeUvarint [] u @ rest = m # beBytes n (unat u) @ rest"
    by (simp add: specEncodeUvarint_def Let_def n_def m_def)
  show ?thesis
    unfolding enc using decode_uvarint_cons [OF mu n8 xb, of rest] by simp
qed

lemma decode_varint_neg_cons:
  assumes "unat m = 8 - n" "1 \<le> n" "n \<le> 8" "y < 256 ^ n"
  shows "specDecodeVarint (m # beBytes n y @ rest) = Some (rest, of_int (int y - 256 ^ n))"
  using assms by (simp add: specDecodeVarint_def beValue_beBytes Let_def)

lemma decode_varint_pos_cons:
  assumes "unat m = 8 + n"
  shows "specDecodeVarint (m # bs) = specDecodeUvarint (m # bs)"
  using assms by (simp add: specDecodeVarint_def)

lemma spec_varint_roundtrip:
  "specDecodeVarint (specEncodeVarint [] i @ rest) = Some (rest, i)"
proof (cases "sint i < 0")
  case True
  define x where "x = nat (- sint i)"
  define n where "n = byteLen x"
  define m where "m = (of_nat (8 - n) :: byte)"
  have lo: "- (2 ^ 63) \<le> sint i" using sint_ge [of i] by simp
  have xpos: "0 < x" using True by (simp add: x_def)
  have "x < 256 ^ 8" using lo by (simp add: x_def)
  then have n8: "n \<le> 8" unfolding n_def by (rule byteLen_least)
  have n1: "1 \<le> n" unfolding n_def using xpos by (subst byteLen.simps) simp
  have mu: "unat m = 8 - n" unfolding m_def by (intro marker_unat) simp
  have xb: "x < 256 ^ n" unfolding n_def by (rule byteLen_bound)
  have yb: "256 ^ n - x < (256::nat) ^ n" using xpos xb by simp
  have "int (256 ^ n - x) - 256 ^ n = - int x"
    using xb by (simp add: of_nat_diff)
  also have "\<dots> = sint i" using True by (simp add: x_def)
  finally have r: "(of_int (int (256 ^ n - x) - 256 ^ n) :: int64) = i"
    by simp
  have enc: "specEncodeVarint [] i @ rest = m # beBytes n (256 ^ n - x) @ rest"
    unfolding specEncodeVarint_def Let_def n_def m_def x_def using True
    by (simp only: if_True append_Nil append_Cons)
  show ?thesis
    unfolding enc using decode_varint_neg_cons [OF mu n1 n8 yb, of rest] r by simp
next
  case False
  define n where "n = byteLen (unat i)"
  define m where "m = (of_nat (8 + n) :: byte)"
  have n8: "n \<le> 8" unfolding n_def by (rule byteLen_word64)
  have mu: "unat m = 8 + n" unfolding m_def using n8 by (intro marker_unat) simp
  have enc: "specEncodeUvarint [] i @ rest = m # beBytes n (unat i) @ rest"
    by (simp add: specEncodeUvarint_def Let_def n_def m_def)
  have "specDecodeVarint (specEncodeUvarint [] i @ rest) =
        specDecodeUvarint (specEncodeUvarint [] i @ rest)"
    unfolding enc by (rule decode_varint_pos_cons [OF mu])
  with False show ?thesis
    by (simp add: specEncodeVarint_def spec_uvarint_roundtrip)
qed

lemma floatUnkey_floatKey: "x < 2 ^ 64 \<Longrightarrow> floatUnkey (floatKey x) = x"
  unfolding floatUnkey_def floatKey_def by (cases "2 ^ 63 \<le> x") auto

lemma floatKey_bound: "x < 2 ^ 64 \<Longrightarrow> floatKey x < 2 ^ 64"
  unfolding floatKey_def by (cases "2 ^ 63 \<le> x") auto

lemma unat_word64_bound2: "unat (u::64 word) < 2 ^ 64"
  using unsigned_less [of u, where 'a=nat] by simp

lemma spec_float_roundtrip:
  "specDecodeNumericFloat (specEncodeNumericFloat [] f @ rest) = Some (rest, f)"
proof -
  define k where "k = floatKey (unat f)"
  have "k < 2 ^ 64" unfolding k_def by (rule floatKey_bound) (rule unat_word64_bound2)
  then have "k < 256 ^ 8" by simp
  then have v: "beValue (beBytes 8 k) = k"
    by (rule beValue_beBytes)
  have u: "floatUnkey k = unat f"
    unfolding k_def by (rule floatUnkey_floatKey) (rule unat_word64_bound2)
  have enc: "specEncodeNumericFloat [] f @ rest = beBytes 8 k @ rest"
    by (simp add: specEncodeNumericFloat_def k_def)
  have tk: "take 8 (beBytes 8 k @ rest) = beBytes 8 k" by simp
  have dr: "drop 8 (beBytes 8 k @ rest) = rest" by simp
  have ln: "\<not> length (beBytes 8 k @ rest) < 8" by simp
  show ?thesis
    unfolding enc specDecodeNumericFloat_def by (simp only: ln tk dr v u if_False) simp
qed

lemma spec_bytes_roundtrip:
  "map_option (\<lambda>(r, s). (r, sliceBytes s)) (specDecodeBytes (specEncodeBytes [] t @ rest)) = Some (rest, t)"
  by (simp add: specDecodeBytes_def specEncodeBytes_def unescape_escape sliceBytes_def)

lemma spec_bytes_append: "specEncodeBytes b t = b @ specEncodeBytes [] t"
  by (simp add: specEncodeBytes_def)

lemma spec_uvarint_append: "specEncodeUvarint b u = b @ specEncodeUvarint [] u"
  unfolding specEncodeUvarint_def Let_def by (simp only: append_Nil)

lemma spec_varint_append: "specEncodeVarint b i = b @ specEncodeVarint [] i"
  unfolding specEncodeVarint_def specEncodeUvarint_def Let_def
  by (simp only: append_Nil if_distrib [of "\<lambda>x. b @ x"] cong: if_cong)

lemma spec_float_append: "specEncodeNumericFloat b f = b @ specEncodeNumericFloat [] f"
  by (simp add: specEncodeNumericFloat_def)

lemma codec_ok_specCodec: "codec_ok specCodec"
  unfolding codec_ok_def specCodec_def codec.simps
  using spec_bytes_append spec_uvarint_append spec_varint_append spec_float_append
    spec_bytes_roundtrip spec_varint_roundtrip spec_uvarint_roundtrip spec_float_roundtrip
  by blast

lemmas ex_defs = exK_def exV_def exX_def exName_def exType_def exType2_def exFields_def
  exModel_def exDB_def exRec_def exBatch_def

section \<open>Primary keys decode to what was encoded\<close>

lemma keyFields_iff:
  "f \<in> keyFields m cols \<longleftrightarrow> (\<exists>col\<in>set cols. map_of (mfields m) col = Some f)"
  by (force simp: keyFields_def List.map_filter_def)

lemma keyFields_Cons:
  "keyFields m (col # cols) =
     (case map_of (mfields m) col of None \<Rightarrow> {} | Some f \<Rightarrow> {f}) \<union> keyFields m cols"
  by (auto simp: keyFields_iff split: option.splits)

lemma codec_ok_append:
  assumes "codec_ok c"
  shows "EncodeBytes c b t = b @ EncodeBytes c [] t"
    and "EncodeVarint c b i = b @ EncodeVarint c [] i"
    and "EncodeUvarint c b u = b @ EncodeUvarint c [] u"
    and "EncodeNumericFloat c b f = b @ EncodeNumericFloat c [] f"
  using assms unfolding codec_ok_def by blast+

lemma codec_ok_decode:
  assumes "codec_ok c"
  shows "\<exists>s. DecodeBytes c (EncodeBytes c [] t @ rest) = Some (rest, s) \<and> sliceBytes s = t"
    and "DecodeVarint c (EncodeVarint c [] i @ rest) = Some (rest, i)"
    and "DecodeUvarint c (EncodeUvarint c [] u @ rest) = Some (rest, u)"
    and "DecodeNumericFloat c (EncodeNumericFloat c [] f @ rest) = Some (rest, f)"
proof -
  from assms have "map_option (\<lambda>(r, s). (r, sliceBytes s)) (DecodeBytes c (EncodeBytes c [] t @ rest))
                = Some (rest, t)"
    unfolding codec_ok_def by blast
  then show "\<exists>s. DecodeBytes c (EncodeBytes c [] t @ rest) = Some (rest, s) \<and> sliceBytes s = t"
    by (cases "DecodeBytes c (EncodeBytes c [] t @ rest)") auto
next
  show "DecodeVarint c (EncodeVarint c [] i @ rest) = Some (rest, i)"
    using assms unfolding codec_ok_def by blast
  show "DecodeUvarint c (EncodeUvarint c [] u @ rest) = Some (rest, u)"
    using assms unfolding codec_ok_def by blast
  show "DecodeNumericFloat c (EncodeNumericFloat c [] f @ rest) = Some (rest, f)"
    using assms unfolding codec_ok_def by blast
qed

lemma encodeTableKey_append:
  assumes "codec_ok c"
  shows "encodeTableKey c b v =
           (case encodeTableKey c [] v of Inl e \<Rightarrow> Inl e | Inr e \<Rightarrow> Inr (b @ e))"
  using codec_ok_append [OF assms, of b] by (cases v) simp_all

lemma decode_encoded_key:
  assumes ok: "codec_ok c" and enc: "encodeTableKey c [] v = Inr e"
    and kind: "kindOf d = kindOf v"
  shows "\<exists>v'. decodeTableKey c (e @ rest) d = Inr (rest, v') \<and> kindOf v' = kindOf v \<and>
              (validValue v \<longrightarrow> encodeTableKey c [] v' = Inr e)"
proof (cases v)
  case (VBytes t)
  with kind obtain d0 where d: "d = VBytes d0" by (cases d) auto
  from codec_ok_decode(1) [OF ok, of "sliceBytes t" rest] obtain s
    where "DecodeBytes c (EncodeBytes c [] (sliceBytes t) @ rest) = Some (rest, s)"
      and "sliceBytes s = sliceBytes t" by blast
  with VBytes d enc show ?thesis by auto
next
  case (VString t)
  with kind obtain d0 where d: "d = VString d0" by (cases d) auto
  from codec_ok_decode(1) [OF ok, of t rest] obtain s
    where "DecodeBytes c (EncodeBytes c [] t @ rest) = Some (rest, s)"
      and "sliceBytes s = t" by blast
  with VString d enc show ?thesis by auto
next
  case (VNamedString t)
  with kind obtain d0 where d: "d = VNamedString d0" by (cases d) auto
  from codec_ok_decode(1) [OF ok, of t rest] obtain s
    where "DecodeBytes c (EncodeBytes c [] t @ rest) = Some (rest, s)"
      and "sliceBytes s = t" by blast
  with VNamedString d enc show ?thesis by auto
next
  case (VBool x)
  with kind obtain d0 where d: "d = VBool d0" by (cases d) auto
  show ?thesis
    using VBool d enc codec_ok_decode(2) [OF ok, of 1 rest] codec_ok_decode(2) [OF ok, of 0 rest]
    by (cases x) auto
next
  case (VInt w x)
  with kind obtain d0 where d: "d = VInt w d0" by (cases d) auto
  show ?thesis
    using VInt d enc codec_ok_decode(2) [OF ok, of x rest] by auto
next
  case (VUint w x)
  with kind obtain d0 where d: "d = VUint w d0" by (cases d) auto
  show ?thesis
    using VUint d enc codec_ok_decode(3) [OF ok, of x rest] by auto
next
  case (VFloat w x)
  with kind obtain d0 where d: "d = VFloat w d0" by (cases d) auto
  show ?thesis
    using VFloat d enc codec_ok_decode(4) [OF ok, of x rest] by auto
next
  case (VMessage z x)
  with enc show ?thesis by simp
next
  case (VBinary z x)
  with enc show ?thesis by simp
next
  case (VOther x)
  with enc show ?thesis by simp
qed

lemma encodeKeyColumns_append:
  assumes ok: "codec_ok c"
  shows "encodeKeyColumns c m v cols key =
           (case encodeKeyColumns c m v cols [] of Inl e \<Rightarrow> Inl e | Inr e \<Rightarrow> Inr (key @ e))"
proof (induction cols arbitrary: key)
  case Nil
  show ?case by simp
next
  case (Cons col cols)
  show ?case
  proof (cases "map_of (mfields m) col")
    case None
    then show ?thesis by simp
  next
    case (Some f)
    show ?thesis
    proof (cases "encodeTableKey c [] (v f)")
      case (Inl e)
      then show ?thesis using Some encodeTableKey_append [OF ok, of key "v f"] by simp
    next
      case (Inr e1)
      have k: "encodeTableKey c key (v f) = Inr (key @ e1)"
        using Inr encodeTableKey_append [OF ok, of key "v f"] by simp
      show ?thesis
        using Some Inr k Cons.IH [of "key @ e1"] Cons.IH [of e1]
        by (simp split: sum.splits)
    qed
  qed
qed

lemma encodeKeyColumns_cong:
  assumes ok: "codec_ok c"
    and same: "\<forall>f\<in>keyFields m cols. encodeTableKey c [] (v1 f) = encodeTableKey c [] (v f)"
  shows "encodeKeyColumns c m v1 cols key = encodeKeyColumns c m v cols key"
  using same
proof (induction cols arbitrary: key)
  case Nil
  show ?case by simp
next
  case (Cons col cols)
  show ?case
  proof (cases "map_of (mfields m) col")
    case None
    then show ?thesis by simp
  next
    case (Some f)
    have f: "encodeTableKey c [] (v1 f) = encodeTableKey c [] (v f)"
      using Cons.prems Some by (simp add: keyFields_Cons)
    have rest: "\<forall>f\<in>keyFields m cols. encodeTableKey c [] (v1 f) = encodeTableKey c [] (v f)"
      using Cons.prems by (simp add: keyFields_Cons)
    have "encodeTableKey c key (v1 f) = encodeTableKey c key (v f)"
      using f encodeTableKey_append [OF ok, of key "v1 f"] encodeTableKey_append [OF ok, of key "v f"]
      by simp
    then show ?thesis using Some Cons.IH [OF rest] by (simp split: sum.splits)
  qed
qed

lemma decodeKeyColumns_encoded:
  assumes ok: "codec_ok c"
  shows "encodeKeyColumns c m v cols [] = Inr e \<Longrightarrow>
         \<forall>f\<in>keyFields m cols. kindOf (v0 f) = kindOf (v f) \<Longrightarrow>
         \<exists>v1. decodeKeyColumns c m cols (e @ rest) v0 = (Inr rest, v1) \<and>
              (\<forall>f\<in>keyFields m cols.
                  (validValue (v f) \<longrightarrow> encodeTableKey c [] (v1 f) = encodeTableKey c [] (v f)) \<and>
                  kindOf (v1 f) = kindOf (v f)) \<and>
              (\<forall>f. f \<notin> keyFields m cols \<longrightarrow> v1 f = v0 f)"
proof (induction cols arbitrary: e v0)
  case Nil
  then show ?case by (simp add: keyFields_def List.map_filter_def)
next
  case (Cons col cols)
  from Cons.prems(1) obtain f where Some: "map_of (mfields m) col = Some f"
    by (cases "map_of (mfields m) col") auto
  from Cons.prems(1) Some obtain e1 where e1: "encodeTableKey c [] (v f) = Inr e1"
    by (cases "encodeTableKey c [] (v f)") auto
  from Cons.prems(1) Some e1 have "encodeKeyColumns c m v cols e1 = Inr e" by simp
  with encodeKeyColumns_append [OF ok, of m v cols e1]
  obtain e2 where e2: "encodeKeyColumns c m v cols [] = Inr e2" and e: "e = e1 @ e2"
    by (cases "encodeKeyColumns c m v cols []") auto
  have kf: "kindOf (v0 f) = kindOf (v f)"
    using Cons.prems(2) Some by (simp add: keyFields_Cons)
  from decode_encoded_key [OF ok e1 kf, of "e2 @ rest"] obtain x
    where dx: "decodeTableKey c (e1 @ e2 @ rest) (v0 f) = Inr (e2 @ rest, x)"
      and kx: "kindOf x = kindOf (v f)"
      and ex: "validValue (v f) \<longrightarrow> encodeTableKey c [] x = Inr e1" by blast
  have kinds': "\<forall>g\<in>keyFields m cols. kindOf ((v0(f := x)) g) = kindOf (v g)"
    using Cons.prems(2) kx by (simp add: keyFields_Cons)
  from Cons.IH [OF e2 kinds'] obtain v1
    where d1: "decodeKeyColumns c m cols (e2 @ rest) (v0(f := x)) = (Inr rest, v1)"
      and in1: "\<forall>g\<in>keyFields m cols.
                  (validValue (v g) \<longrightarrow> encodeTableKey c [] (v1 g) = encodeTableKey c [] (v g)) \<and>
                  kindOf (v1 g) = kindOf (v g)"
      and out1: "\<forall>g. g \<notin> keyFields m cols \<longrightarrow> v1 g = (v0(f := x)) g" by blast
  have dec: "decodeKeyColumns c m (col # cols) (e @ rest) v0 = (Inr rest, v1)"
    using Some dx d1 e by simp
  have inF: "(validValue (v f) \<longrightarrow> encodeTableKey c [] (v1 f) = encodeTableKey c [] (v f)) \<and>
      kindOf (v1 f) = kindOf (v f)"
  proof (cases "f \<in> keyFields m cols")
    case True
    with in1 show ?thesis by blast
  next
    case False
    with out1 have "v1 f = x" by simp
    with ex e1 kx show ?thesis by simp
  qed
  have "\<forall>g\<in>keyFields m (col # cols).
          (validValue (v g) \<longrightarrow> encodeTableKey c [] (v1 g) = encodeTableKey c [] (v g)) \<and>
          kindOf (v1 g) = kindOf (v g)"
    using inF in1 Some by (simp add: keyFields_Cons)
  moreover have "\<forall>g. g \<notin> keyFields m (col # cols) \<longrightarrow> v1 g = v0 g"
    using out1 Some by (simp add: keyFields_Cons)
  ultimately show ?case using dec by blast
qed

lemma encodePrimaryKey_split:
  assumes ok: "codec_ok c" and enc: "encodePrimaryKey c m v = Inr p"
  shows "\<exists>e. encodeKeyColumns c m v (primaryKey m) [] = Inr e \<and>
             p = EncodeBytes c [] (name m) @ e"
  using enc encodeKeyColumns_append [OF ok, of m v "primaryKey m" "EncodeBytes c [] (name m)"]
  by (cases "encodeKeyColumns c m v (primaryKey m) []") (auto simp: encodePrimaryKey_def)

lemma decodePrimaryKey_encoded:
  assumes ok: "codec_ok c" and enc: "encodePrimaryKey c m v = Inr p"
    and kinds: "\<forall>f\<in>pkFields m. kindOf (v0 f) = kindOf (v f)"
  shows "\<exists>v1. decodePrimaryKey c m (p @ rest) v0 = (Inr rest, v1) \<and>
              ((\<forall>f\<in>pkFields m. validValue (v f)) \<longrightarrow> encodePrimaryKey c m v1 = Inr p) \<and>
              (\<forall>f\<in>pkFields m. kindOf (v1 f) = kindOf (v f)) \<and>
              (\<forall>f. f \<notin> pkFields m \<longrightarrow> v1 f = v0 f)"
proof -
  from encodePrimaryKey_split [OF ok enc] obtain e
    where e: "encodeKeyColumns c m v (primaryKey m) [] = Inr e"
      and p: "p = EncodeBytes c [] (name m) @ e" by blast
  from codec_ok_decode(1) [OF ok, of "name m" "e @ rest"] obtain s
    where s: "DecodeBytes c (EncodeBytes c [] (name m) @ e @ rest) = Some (e @ rest, s)"
      and sn: "sliceBytes s = name m" by blast
  from decodeKeyColumns_encoded [OF ok e, of v0 rest] kinds obtain v1
    where d: "decodeKeyColumns c m (primaryKey m) (e @ rest) v0 = (Inr rest, v1)"
      and inn: "\<forall>f\<in>keyFields m (primaryKey m).
                  (validValue (v f) \<longrightarrow> encodeTableKey c [] (v1 f) = encodeTableKey c [] (v f)) \<and>
                  kindOf (v1 f) = kindOf (v f)"
      and out: "\<forall>f. f \<notin> keyFields m (primaryKey m) \<longrightarrow> v1 f = v0 f"
    unfolding pkFields_def by blast
  have "decodePrimaryKey c m (p @ rest) v0 = (Inr rest, v1)"
    using s sn d p by (simp add: decodePrimaryKey_def)
  moreover have "encodePrimaryKey c m v1 = Inr p" if "\<forall>f\<in>pkFields m. validValue (v f)"
    using encodeKeyColumns_cong [OF ok, of m "primaryKey m" v1 v] inn enc that
    by (simp add: encodePrimaryKey_def pkFields_def)
  ultimately show ?thesis using inn out unfolding pkFields_def by blast
qed

lemma decodePrimaryKey_other_table:
  assumes ok: "codec_ok c" and enc: "encodePrimaryKey c m' r = Inr p"
    and diff: "name m' \<noteq> name m"
  shows "decodePrimaryKey c m (p @ rest) v = (Inl (UnexpectedTableName (name m) (name m')), v)"
proof -
  from encodePrimaryKey_split [OF ok enc] obtain e
    where p: "p = EncodeBytes c [] (name m') @ e" by blast
  from codec_ok_decode(1) [OF ok, of "name m'" "e @ rest"] obtain s
    where s: "DecodeBytes c (EncodeBytes c [] (name m') @ e @ rest) = Some (e @ rest, s)"
      and sn: "sliceBytes s = name m'" by blast
  show ?thesis using s sn p diff by (simp add: decodePrimaryKey_def)
qed

lemmas spec_eval = specCodec_def specEncodeBytes_def specDecodeBytes_def encodePrimaryKey_def
  decodePrimaryKey_def sliceBytes_def

section \<open>The scan loop groups rows by primary key\<close>

lemma decode_typed:
  assumes ok: "codec_ok c" and p: "p \<in> encodedKeys c m t" and ty: "hasKinds v0 t"
  shows "\<exists>v1. decodePrimaryKey c m (p @ rest) v0 = (Inr rest, v1) \<and>
              encodePrimaryKey c m v1 = Inr p \<and> hasKinds v1 t \<and>
              (\<forall>f. f \<notin> pkFields m \<longrightarrow> v1 f = v0 f)"
proof -
  from p obtain r where r: "hasType r t" and e: "encodePrimaryKey c m r = Inr p"
    by (auto simp: encodedKeys_def)
  have k: "\<forall>f\<in>pkFields m. kindOf (v0 f) = kindOf (r f)"
    using ty r by (simp add: hasType_def hasKinds_def)
  have vl: "\<forall>f\<in>pkFields m. validValue (r f)"
    using r by (simp add: hasType_def)
  from decodePrimaryKey_encoded [OF ok e k, of rest] vl obtain v1
    where d: "decodePrimaryKey c m (p @ rest) v0 = (Inr rest, v1)"
      and e1: "encodePrimaryKey c m v1 = Inr p"
      and k1: "\<forall>f\<in>pkFields m. kindOf (v1 f) = kindOf (r f)"
      and o1: "\<forall>f. f \<notin> pkFields m \<longrightarrow> v1 f = v0 f" by blast
  have "hasKinds v1 t"
    unfolding hasKinds_def
  proof
    fix i
    show "kindOf (v1 i) = kindOf (zeroStruct t i)"
    proof (cases "i \<in> pkFields m")
      case True
      with k1 have "kindOf (v1 i) = kindOf (r i)" by blast
      with r show ?thesis by (simp add: hasType_def)
    next
      case False
      with o1 have "v1 i = v0 i" by blast
      with ty show ?thesis by (simp add: hasKinds_def)
    qed
  qed
  with d e1 o1 show ?thesis by blast
qed

lemma encodedKeys_prefix_free:
  assumes ok: "codec_ok c" and p: "p \<in> encodedKeys c m t" and q: "q \<in> encodedKeys c m t"
    and pre: "prefix q (p @ col)"
  shows "q = p"
proof -
  from pre obtain x where x: "p @ col = q @ x" by (auto simp: prefix_def)
  from decode_typed [OF ok p hasKinds_zero, of col] obtain v1
    where d1: "decodePrimaryKey c m (p @ col) (zeroStruct t) = (Inr col, v1)"
      and e1: "encodePrimaryKey c m v1 = Inr p" by blast
  from decode_typed [OF ok q hasKinds_zero, of x] obtain v2
    where d2: "decodePrimaryKey c m (q @ x) (zeroStruct t) = (Inr x, v2)"
      and e2: "encodePrimaryKey c m v2 = Inr q" by blast
  from d1 d2 x have "v1 = v2" by simp
  with e1 e2 show ?thesis by simp
qed

lemma unmarshalInto_kind_only:
  "kindOf d = kindOf d' \<Longrightarrow> unmarshalInto src d = Inr x \<Longrightarrow> \<exists>x'. unmarshalInto src d' = Inr x'"
  by (cases d; cases d') (auto split: if_splits option.splits)

lemma unmarshalTableValue_kind_only:
  "kindOf d = kindOf d' \<Longrightarrow> unmarshalTableValue src d = Inr x \<Longrightarrow>
   \<exists>x'. unmarshalTableValue src d' = Inr x'"
  by (cases src) (auto simp: unmarshalTableValue_def dest: unmarshalInto_kind_only)

lemma encodePrimaryKey_cong:
  assumes ok: "codec_ok c" and same: "\<forall>f\<in>pkFields m. v1 f = v f"
  shows "encodePrimaryKey c m v1 = encodePrimaryKey c m v"
  using encodeKeyColumns_cong [OF ok, of m "primaryKey m" v1 v] same
  by (simp add: encodePrimaryKey_def pkFields_def)

lemma scanRows_step:
  assumes ok: "codec_ok c" and p: "p \<in> encodedKeys c m t"
    and rok: "rowOK m t columns col v" and ty: "hasKinds res t"
    and pk: "pk = None \<or> (\<exists>q. pk = Some q \<and> q \<in> encodedKeys c m t)"
  shows "\<exists>res3. hasKinds res3 t \<and>
           ((filteredOut columns col \<or> (\<forall>f. map_of (mfields m) col = Some f \<longrightarrow> f \<notin> pkFields m))
              \<longrightarrow> encodePrimaryKey c m res3 = Inr p) \<and>
           (\<forall>f. f \<notin> pkFields m \<longrightarrow>
                (filteredOut columns col \<or> map_of (mfields m) col \<noteq> Some f) \<longrightarrow>
                res3 f = (if pk = None \<or> pk = Some p then res f else zeroStruct t f)) \<and>
           (\<forall>rows sliceV.
              scanRows c m (zeroStruct t) columns
                (\<lparr>Key = encodeColumnKey m p col, Value = v\<rparr> # rows) pk res sliceV =
              scanRows c m (zeroStruct t) columns rows (Some p) res3
                (if pk = None \<or> pk = Some p then sliceV else sliceV @ [res]))"
proof -
  let ?keep = "pk = None \<or> pk = Some p"
  let ?zero = "zeroStruct t"
  let ?key = "p @ col"
  \<comment> \<open>the record and slice after the boundary test\<close>
  have "\<exists>res1. hasKinds res1 t \<and> (\<forall>f. f \<notin> pkFields m \<longrightarrow> res1 f = (if ?keep then res f else ?zero f)) \<and>
          (\<forall>sliceV. (case pk of
              None \<Rightarrow> Inr (res, sliceV)
            | Some q \<Rightarrow>
                if \<not> prefix q ?key then
                  (case decodePrimaryKey c m q ?zero of
                     (Inl e, _) \<Rightarrow> Inl e
                   | (Inr _, res') \<Rightarrow> Inr (res', sliceV @ [res]))
                else Inr (res, sliceV)) = Inr (res1, if ?keep then sliceV else sliceV @ [res]))"
  proof (cases pk)
    case None
    with ty show ?thesis by auto
  next
    case (Some q)
    with pk have q: "q \<in> encodedKeys c m t" by simp
    show ?thesis
    proof (cases "q = p")
      case True
      with Some ty show ?thesis by auto
    next
      case False
      with encodedKeys_prefix_free [OF ok p q, of col] have np: "\<not> prefix q ?key" by blast
      from decode_typed [OF ok q hasKinds_zero, of "[]"] obtain z
        where d: "decodePrimaryKey c m q ?zero = (Inr [], z)" and tz: "hasKinds z t"
          and oz: "\<forall>f. f \<notin> pkFields m \<longrightarrow> z f = ?zero f" by auto
      show ?thesis
        using Some False np d tz oz by auto
    qed
  qed
  then obtain res1 where t1: "hasKinds res1 t"
    and o1: "\<forall>f. f \<notin> pkFields m \<longrightarrow> res1 f = (if ?keep then res f else ?zero f)"
    and pre: "\<And>sliceV. (case pk of
              None \<Rightarrow> Inr (res, sliceV)
            | Some q \<Rightarrow>
                if \<not> prefix q ?key then
                  (case decodePrimaryKey c m q ?zero of
                     (Inl e, _) \<Rightarrow> Inl e
                   | (Inr _, res') \<Rightarrow> Inr (res', sliceV @ [res]))
                else Inr (res, sliceV)) = Inr (res1, if ?keep then sliceV else sliceV @ [res])"
    by blast
  from decode_typed [OF ok p t1, of col] obtain res2
    where d2: "decodePrimaryKey c m ?key res1 = (Inr col, res2)"
      and e2: "encodePrimaryKey c m res2 = Inr p" and t2: "hasKinds res2 t"
      and o2: "\<forall>f. f \<notin> pkFields m \<longrightarrow> res2 f = res1 f" by blast
  have tk: "take (length ?key - length col) ?key = p" by simp
  show ?thesis
  proof (cases "filteredOut columns col")
    case True
    have "\<forall>rows sliceV.
            scanRows c m ?zero columns (\<lparr>Key = encodeColumnKey m p col, Value = v\<rparr> # rows) pk res sliceV =
            scanRows c m ?zero columns rows (Some p) res2 (if ?keep then sliceV else sliceV @ [res])"
      using True
      apply (subst scanRows.simps(2))
      apply (simp only: row.select_convs encodeColumnKey_def pre sum.case prod.case d2 Let_def tk)
      apply (simp add: filteredOut_def)
      done
    with t2 e2 o1 o2 show ?thesis by auto
  next
    case False
    with rok obtain f x0 where f: "map_of (mfields m) col = Some f"
      and u0: "unmarshalTableValue (Some v) (?zero f) = Inr x0"
      by (auto simp: rowOK_def)
    have "kindOf (?zero f) = kindOf (res2 f)" using t2 by (simp add: hasKinds_def)
    from unmarshalTableValue_kind_only [OF this u0] obtain x
      where u: "unmarshalTableValue (Some v) (res2 f) = Inr x" by blast
    let ?res3 = "res2(f := x)"
    have t3: "hasKinds ?res3 t"
      using t2 unmarshalTableValue_kind [OF u] by (simp add: hasKinds_def)
    have nf: "\<not> (columns \<noteq> [] \<and> col \<notin> set columns)"
      using False by (simp add: filteredOut_def)
    have run: "\<forall>rows sliceV.
            scanRows c m ?zero columns (\<lparr>Key = encodeColumnKey m p col, Value = v\<rparr> # rows) pk res sliceV =
            scanRows c m ?zero columns rows (Some p) ?res3 (if ?keep then sliceV else sliceV @ [res])"
      using nf
      apply (subst scanRows.simps(2))
      apply (simp only: row.select_convs encodeColumnKey_def pre sum.case prod.case d2 Let_def tk)
      apply (simp add: f u)
      done
    have e3: "f \<notin> pkFields m \<Longrightarrow> encodePrimaryKey c m ?res3 = Inr p"
      using encodePrimaryKey_cong [OF ok, of m ?res3 res2] e2 by auto
    have o3: "\<forall>g. g \<notin> pkFields m \<longrightarrow> map_of (mfields m) col \<noteq> Some g \<longrightarrow>
                ?res3 g = (if ?keep then res g else ?zero g)"
      using o1 o2 f by auto
    show ?thesis
      using t3 e3 o3 run False f by (intro exI [of _ ?res3]) auto
  qed
qed

lemma keyColumnFree_Cons:
  "keyColumnFree m columns ((p, col, v) # trs) \<longleftrightarrow>
     (filteredOut columns col \<or> (\<forall>f. map_of (mfields m) col = Some f \<longrightarrow> f \<notin> pkFields m)) \<and>
     keyColumnFree m columns trs"
  by (simp add: keyColumnFree_def)

lemma assignedFields_Cons:
  "assignedFields m columns ((p, col, v) # trs) =
     {f. \<not> filteredOut columns col \<and> map_of (mfields m) col = Some f} \<union>
     assignedFields m columns trs"
  by (auto simp: assignedFields_def)

lemma scanRows_groups:
  assumes ok: "codec_ok c"
  shows "\<forall>(p, col, v)\<in>set trs. p \<in> encodedKeys c m t \<and> rowOK m t columns col v \<Longrightarrow>
         q \<in> encodedKeys c m t \<Longrightarrow> hasKinds res t \<Longrightarrow> assignedFields m columns trs \<subseteq> A \<Longrightarrow>
         \<exists>res' G. scanRows c m (zeroStruct t) columns (replyRows m trs) (Some q) res sliceV =
                    Inr (res', sliceV @ G) \<and>
           length (G @ [res']) = length (remdups_adj (q # map fst trs)) \<and>
           (keyColumnFree m columns trs \<longrightarrow> encodePrimaryKey c m res = Inr q \<longrightarrow>
              map (encodePrimaryKey c m) (G @ [res']) = map Inr (remdups_adj (q # map fst trs))) \<and>
           ((\<forall>f. f \<notin> pkFields m \<longrightarrow> f \<notin> A \<longrightarrow> res f = zeroStruct t f) \<longrightarrow>
              (\<forall>r\<in>set (G @ [res']). \<forall>f. f \<notin> pkFields m \<longrightarrow> f \<notin> A \<longrightarrow> r f = zeroStruct t f))"
proof (induction trs arbitrary: q res sliceV)
  case Nil
  show ?case by (simp add: replyRows_def)
next
  case (Cons tr trs)
  obtain p col v where tr: "tr = (p, col, v)" by (cases tr)
  from Cons.prems(1) tr have p: "p \<in> encodedKeys c m t" and rok: "rowOK m t columns col v"
    and rest: "\<forall>(p, col, v)\<in>set trs. p \<in> encodedKeys c m t \<and> rowOK m t columns col v"
    by auto
  from Cons.prems(4) tr have A: "assignedFields m columns trs \<subseteq> A"
    and Af: "\<And>f. \<not> filteredOut columns col \<Longrightarrow> map_of (mfields m) col = Some f \<Longrightarrow> f \<in> A"
    by (auto simp: assignedFields_Cons)
  from scanRows_step [OF ok p rok Cons.prems(3), of "Some q"] Cons.prems(2)
  obtain res3 where t3: "hasKinds res3 t"
    and e3: "filteredOut columns col \<or> (\<forall>f. map_of (mfields m) col = Some f \<longrightarrow> f \<notin> pkFields m)
             \<Longrightarrow> encodePrimaryKey c m res3 = Inr p"
    and o3: "\<And>f. f \<notin> pkFields m \<Longrightarrow> filteredOut columns col \<or> map_of (mfields m) col \<noteq> Some f \<Longrightarrow>
                res3 f = (if q = p then res f else zeroStruct t f)"
    and run: "\<And>rows sliceV.
        scanRows c m (zeroStruct t) columns (\<lparr>Key = encodeColumnKey m p col, Value = v\<rparr> # rows)
          (Some q) res sliceV =
        scanRows c m (zeroStruct t) columns rows (Some p) res3
          (if q = p then sliceV else sliceV @ [res])"
    by auto
  let ?slice1 = "if q = p then sliceV else sliceV @ [res]"
  from Cons.IH [OF rest p t3 A, of ?slice1] obtain res' G'
    where r: "scanRows c m (zeroStruct t) columns (replyRows m trs) (Some p) res3 ?slice1 =
                Inr (res', ?slice1 @ G')"
      and l: "length (G' @ [res']) = length (remdups_adj (p # map fst trs))"
      and k: "keyColumnFree m columns trs \<Longrightarrow> encodePrimaryKey c m res3 = Inr p \<Longrightarrow>
                map (encodePrimaryKey c m) (G' @ [res']) = map Inr (remdups_adj (p # map fst trs))"
      and z: "(\<forall>f. f \<notin> pkFields m \<longrightarrow> f \<notin> A \<longrightarrow> res3 f = zeroStruct t f) \<Longrightarrow>
                (\<forall>r\<in>set (G' @ [res']). \<forall>f. f \<notin> pkFields m \<longrightarrow> f \<notin> A \<longrightarrow> r f = zeroStruct t f)"
    by blast
  have rr: "replyRows m (tr # trs) = \<lparr>Key = encodeColumnKey m p col, Value = v\<rparr> # replyRows m trs"
    by (simp add: replyRows_def tr)
  have z3: "(\<forall>f. f \<notin> pkFields m \<longrightarrow> f \<notin> A \<longrightarrow> res f = zeroStruct t f) \<Longrightarrow>
            (\<forall>f. f \<notin> pkFields m \<longrightarrow> f \<notin> A \<longrightarrow> res3 f = zeroStruct t f)"
  proof (intro allI impI)
    fix f assume h: "\<forall>f. f \<notin> pkFields m \<longrightarrow> f \<notin> A \<longrightarrow> res f = zeroStruct t f"
      and f1: "f \<notin> pkFields m" and f2: "f \<notin> A"
    from f2 Af have "filteredOut columns col \<or> map_of (mfields m) col \<noteq> Some f" by blast
    from o3 [OF f1 this] h f1 f2 show "res3 f = zeroStruct t f" by simp
  qed
  show ?case
  proof (cases "q = p")
    case True
    let ?G = G'
    have run': "scanRows c m (zeroStruct t) columns (replyRows m (tr # trs)) (Some q) res sliceV =
                  Inr (res', sliceV @ ?G)"
      using run [of "replyRows m trs" sliceV] r True by (simp add: rr)
    have len: "length (?G @ [res']) = length (remdups_adj (q # map fst (tr # trs)))"
      using l True by (simp add: tr)
    have key: "keyColumnFree m columns (tr # trs) \<longrightarrow> encodePrimaryKey c m res = Inr q \<longrightarrow>
               map (encodePrimaryKey c m) (?G @ [res']) =
                 map Inr (remdups_adj (q # map fst (tr # trs)))"
    proof (intro impI)
      assume kf: "keyColumnFree m columns (tr # trs)" and eq: "encodePrimaryKey c m res = Inr q"
      from kf have c1: "filteredOut columns col \<or>
          (\<forall>f. map_of (mfields m) col = Some f \<longrightarrow> f \<notin> pkFields m)"
        and c2: "keyColumnFree m columns trs" by (simp_all add: tr keyColumnFree_Cons)
      from k [OF c2 e3 [OF c1]]
      have "map (encodePrimaryKey c m) (G' @ [res']) = map Inr (remdups_adj (p # map fst trs))" .
      with eq True show "map (encodePrimaryKey c m) (?G @ [res']) =
                 map Inr (remdups_adj (q # map fst (tr # trs)))"
        by (simp add: tr)
    qed
    have zer: "(\<forall>f. f \<notin> pkFields m \<longrightarrow> f \<notin> A \<longrightarrow> res f = zeroStruct t f) \<longrightarrow>
               (\<forall>r\<in>set (?G @ [res']). \<forall>f. f \<notin> pkFields m \<longrightarrow> f \<notin> A \<longrightarrow> r f = zeroStruct t f)"
    proof (intro impI)
      assume h: "\<forall>f. f \<notin> pkFields m \<longrightarrow> f \<notin> A \<longrightarrow> res f = zeroStruct t f"
      from z [OF z3 [OF h]]
      show "\<forall>r\<in>set (?G @ [res']). \<forall>f. f \<notin> pkFields m \<longrightarrow> f \<notin> A \<longrightarrow> r f = zeroStruct t f" .
    qed
    show ?thesis
      apply (rule exI [of _ res'], rule exI [of _ ?G])
      using run' len key zer apply (intro conjI)
      apply assumption+
      done
  next
    case False
    let ?G = "res # G'"
    have run': "scanRows c m (zeroStruct t) columns (replyRows m (tr # trs)) (Some q) res sliceV =
                  Inr (res', sliceV @ ?G)"
      using run [of "replyRows m trs" sliceV] r False by (simp add: rr)
    have len: "length (?G @ [res']) = length (remdups_adj (q # map fst (tr # trs)))"
      using l False by (simp add: tr)
    have key: "keyColumnFree m columns (tr # trs) \<longrightarrow> encodePrimaryKey c m res = Inr q \<longrightarrow>
               map (encodePrimaryKey c m) (?G @ [res']) =
                 map Inr (remdups_adj (q # map fst (tr # trs)))"
    proof (intro impI)
      assume kf: "keyColumnFree m columns (tr # trs)" and eq: "encodePrimaryKey c m res = Inr q"
      from kf have c1: "filteredOut columns col \<or>
          (\<forall>f. map_of (mfields m) col = Some f \<longrightarrow> f \<notin> pkFields m)"
        and c2: "keyColumnFree m columns trs" by (simp_all add: tr keyColumnFree_Cons)
      from k [OF c2 e3 [OF c1]]
      have "map (encodePrimaryKey c m) (G' @ [res']) = map Inr (remdups_adj (p # map fst trs))" .
      with eq False show "map (encodePrimaryKey c m) (?G @ [res']) =
                 map Inr (remdups_adj (q # map fst (tr # trs)))"
        by (simp add: tr)
    qed
    have zer: "(\<forall>f. f \<notin> pkFields m \<longrightarrow> f \<notin> A \<longrightarrow> res f = zeroStruct t f) \<longrightarrow>
               (\<forall>r\<in>set (?G @ [res']). \<forall>f. f \<notin> pkFields m \<longrightarrow> f \<notin> A \<longrightarrow> r f = zeroStruct t f)"
    proof (intro impI)
      assume h: "\<forall>f. f \<notin> pkFields m \<longrightarrow> f \<notin> A \<longrightarrow> res f = zeroStruct t f"
      from z [OF z3 [OF h]] h
      show "\<forall>r\<in>set (?G @ [res']). \<forall>f. f \<notin> pkFields m \<longrightarrow> f \<notin> A \<longrightarrow> r f = zeroStruct t f"
        by simp
    qed
    show ?thesis
      apply (rule exI [of _ res'], rule exI [of _ ?G])
      using run' len key zer apply (intro conjI)
      apply assumption+
      done
  qed
qed

lemma scanPost_groups:
  assumes ok: "codec_ok c"
    and rows: "\<forall>(p, col, v)\<in>set trs. p \<in> encodedKeys c m t \<and> rowOK m t columns col v"
  shows "\<exists>new. scanPost c m t columns (replyRows m trs) dest = Inr (dest @ new) \<and>
           length new = length (remdups_adj (map fst trs)) \<and>
           (keyColumnFree m columns trs \<longrightarrow>
              map (encodePrimaryKey c m) new = map Inr (remdups_adj (map fst trs))) \<and>
           (\<forall>r\<in>set new. \<forall>f. f \<notin> pkFields m \<longrightarrow> f \<notin> assignedFields m columns trs \<longrightarrow>
              r f = zeroStruct t f)"
proof (cases trs)
  case Nil
  then show ?thesis by (simp add: scanPost_def replyRows_def)
next
  case (Cons tr trs')
  obtain p col v where tr: "tr = (p, col, v)" by (cases tr)
  let ?A = "assignedFields m columns trs"
  let ?zero = "zeroStruct t"
  from rows Cons tr have p: "p \<in> encodedKeys c m t" and rok: "rowOK m t columns col v"
    and rest: "\<forall>(p, col, v)\<in>set trs'. p \<in> encodedKeys c m t \<and> rowOK m t columns col v"
    by auto
  have A: "assignedFields m columns trs' \<subseteq> ?A"
    and Af: "\<And>f. \<not> filteredOut columns col \<Longrightarrow> map_of (mfields m) col = Some f \<Longrightarrow> f \<in> ?A"
    by (auto simp: Cons tr assignedFields_Cons)
  from scanRows_step [OF ok p rok hasKinds_zero, of None]
  obtain res3 where t3: "hasKinds res3 t"
    and e3: "filteredOut columns col \<or> (\<forall>f. map_of (mfields m) col = Some f \<longrightarrow> f \<notin> pkFields m)
             \<Longrightarrow> encodePrimaryKey c m res3 = Inr p"
    and o3: "\<And>f. f \<notin> pkFields m \<Longrightarrow> filteredOut columns col \<or> map_of (mfields m) col \<noteq> Some f \<Longrightarrow>
                res3 f = ?zero f"
    and run: "\<And>rows sliceV.
        scanRows c m ?zero columns (\<lparr>Key = encodeColumnKey m p col, Value = v\<rparr> # rows)
          None ?zero sliceV =
        scanRows c m ?zero columns rows (Some p) res3 sliceV"
    by auto
  from scanRows_groups [OF ok rest p t3 A, of dest] obtain res' G
    where r: "scanRows c m ?zero columns (replyRows m trs') (Some p) res3 dest = Inr (res', dest @ G)"
      and l: "length (G @ [res']) = length (remdups_adj (p # map fst trs'))"
      and k: "keyColumnFree m columns trs' \<Longrightarrow> encodePrimaryKey c m res3 = Inr p \<Longrightarrow>
                map (encodePrimaryKey c m) (G @ [res']) = map Inr (remdups_adj (p # map fst trs'))"
      and z: "(\<forall>f. f \<notin> pkFields m \<longrightarrow> f \<notin> ?A \<longrightarrow> res3 f = ?zero f) \<Longrightarrow>
                (\<forall>r\<in>set (G @ [res']). \<forall>f. f \<notin> pkFields m \<longrightarrow> f \<notin> ?A \<longrightarrow> r f = ?zero f)"
    by blast
  have rr: "replyRows m trs = \<lparr>Key = encodeColumnKey m p col, Value = v\<rparr> # replyRows m trs'"
    by (simp add: replyRows_def Cons tr)
  have post: "scanPost c m t columns (replyRows m trs) dest = Inr (dest @ (G @ [res']))"
    using run [of "replyRows m trs'" dest] r by (simp add: scanPost_def rr)
  have len: "length (G @ [res']) = length (remdups_adj (map fst trs))"
    using l by (simp add: Cons tr)
  have key: "keyColumnFree m columns trs \<longrightarrow>
             map (encodePrimaryKey c m) (G @ [res']) = map Inr (remdups_adj (map fst trs))"
  proof (intro impI)
    assume kf: "keyColumnFree m columns trs"
    from kf have c1: "filteredOut columns col \<or>
        (\<forall>f. map_of (mfields m) col = Some f \<longrightarrow> f \<notin> pkFields m)"
      and c2: "keyColumnFree m columns trs'" by (simp_all add: Cons tr keyColumnFree_Cons)
    from k [OF c2 e3 [OF c1]]
    show "map (encodePrimaryKey c m) (G @ [res']) = map Inr (remdups_adj (map fst trs))"
      by (simp add: Cons tr)
  qed
  have z3: "\<forall>f. f \<notin> pkFields m \<longrightarrow> f \<notin> ?A \<longrightarrow> res3 f = ?zero f"
    using o3 Af by blast
  show ?thesis
    apply (rule exI [of _ "G @ [res']"])
    using post len key z [OF z3] apply (intro conjI)
    apply assumption+
    done
qed

lemma lex_append_prefix_free:
  fixes p q :: "('a::linorder) list"
  shows "\<not> prefix p q \<Longrightarrow> \<not> prefix q p \<Longrightarrow> p @ c \<le> q @ d \<Longrightarrow> p < q"
proof (induction p arbitrary: q)
  case Nil
  then show ?case by simp
next
  case (Cons a p)
  then obtain b q' where q: "q = b # q'" by (cases q) auto
  with Cons.prems show ?case
    using Cons.IH [of q'] by auto
qed

lemma encodedKeys_le:
  assumes ok: "codec_ok c" and p: "p \<in> encodedKeys c m t" and q: "q \<in> encodedKeys c m t"
    and le: "p @ col \<le> q @ col'"
  shows "p \<le> q"
proof (cases "p = q")
  case True
  then show ?thesis by simp
next
  case False
  have "\<not> prefix p q"
    using encodedKeys_prefix_free [OF ok q p, of "[]"] False by auto
  moreover have "\<not> prefix q p"
    using encodedKeys_prefix_free [OF ok p q, of "[]"] False by auto
  ultimately have "p < q" using le by (rule lex_append_prefix_free)
  then show ?thesis by simp
qed

lemma encodedKeys_sorted:
  assumes ok: "codec_ok c"
  shows "\<forall>(p, col, v)\<in>set trs. p \<in> encodedKeys c m t \<Longrightarrow>
         sorted (map Key (replyRows m trs)) \<Longrightarrow> sorted (map fst trs)"
proof (induction trs)
  case Nil
  show ?case by simp
next
  case (Cons tr trs)
  obtain p col v where tr: "tr = (p, col, v)" by (cases tr)
  from Cons.prems tr have p: "p \<in> encodedKeys c m t"
    and rest: "\<forall>(p, col, v)\<in>set trs. p \<in> encodedKeys c m t"
    and s: "sorted (map Key (replyRows m trs))"
    and le: "\<forall>(p', col', v')\<in>set trs. p @ col \<le> p' @ col'"
    by (auto simp: replyRows_def encodeColumnKey_def)
  have "\<forall>p'\<in>set (map fst trs). p \<le> p'"
  proof
    fix p' assume "p' \<in> set (map fst trs)"
    then obtain col' v' where in': "(p', col', v') \<in> set trs" by auto
    with rest le have "p' \<in> encodedKeys c m t" "p @ col \<le> p' @ col'" by auto
    with encodedKeys_le [OF ok p] show "p \<le> p'" by blast
  qed
  with Cons.IH [OF rest s] show ?case by (simp add: tr)
qed

lemma sorted_remdups_adj_strict:
  fixes xs :: "('a::linorder) list"
  shows "sorted xs \<Longrightarrow> sorted_wrt (<) (remdups_adj xs)"
proof (induction xs rule: remdups_adj.induct)
  case 1
  show ?case by simp
next
  case (2 x)
  show ?case by simp
next
  case (3 x y xs)
  show ?case
  proof (cases "x = y")
    case True
    with 3 show ?thesis by simp
  next
    case False
    with "3.prems" have xy: "x < y" by (simp add: less_le)
    from "3.prems" have sy: "sorted (y # xs)" by simp
    from "3.IH"(2) [OF False sy] have st: "sorted_wrt (<) (remdups_adj (y # xs))" .
    have "\<forall>z\<in>set (remdups_adj (y # xs)). x < z"
    proof
      fix z assume "z \<in> set (remdups_adj (y # xs))"
      then have "z \<in> set (y # xs)" by simp
      with sy have "y \<le> z" by auto
      with xy show "x < z" by simp
    qed
    with st False show ?thesis by simp
  qed
qed

lemma remdups_adj_sorted_list:
  fixes xs :: "('a::linorder) list"
  assumes "sorted xs"
  shows "remdups_adj xs = sorted_list_of_set (set xs)"
proof -
  from sorted_remdups_adj_strict [OF assms]
  have "sorted (remdups_adj xs)" "distinct (remdups_adj xs)"
    by (simp_all add: strict_sorted_iff)
  then show ?thesis
    by (intro sorted_distinct_set_unique) simp_all
qed

lemma remdups_adj_sorted_length:
  fixes xs :: "('a::linorder) list"
  assumes "sorted xs"
  shows "length (remdups_adj xs) = card (set xs)"
proof -
  from sorted_remdups_adj_strict [OF assms] have "distinct (remdups_adj xs)"
    by (simp add: strict_sorted_iff)
  from distinct_card [OF this] show ?thesis by simp
qed

section \<open>The example reply\<close>

lemma ex_hasType: "hasType (exRec a b) exType"
  by (auto simp: hasType_def exRec_def exType_def fieldKind_def less_Suc_eq)

lemma ex_encode: "encodePrimaryKey specCodec exModel (exRec [k] b) = Inr [0x6B, 0x76, 0, 1, k, 0, 1]" if "k \<noteq> 0"
  using that by (simp add: spec_eval ex_defs)

lemma ex_keys: "exPkA \<in> encodedKeys specCodec exModel exType" "exPkC \<in> encodedKeys specCodec exModel exType"
  using ex_hasType [of "[0x61]" "[]"] ex_encode [of "0x61" "[]"]
    ex_hasType [of "[0x63]" "[]"] ex_encode [of "0x63" "[]"]
  by (auto simp: encodedKeys_def exPkA_def exPkC_def)

lemma ex_sorted: "sorted (map Key (replyRows exModel exTrs))"
  by (simp add: replyRows_def exTrs_def encodeColumnKey_def exPkA_def exPkC_def exV_def)

lemma ex_rowOK: "\<forall>(p, col, v)\<in>set exTrs. rowOK exModel exType [] col v"
  by (simp add: exTrs_def rowOK_def filteredOut_def ex_defs unmarshalTableValue_def fieldKind_def)

lemma ex_card: "card (fst ` set exTrs) = 2"
  by (simp add: exTrs_def exPkA_def exPkC_def)

lemma ex_sorted_list: "sorted_list_of_set (fst ` set exTrs) = [exPkA, exPkC]"
  by (simp add: exTrs_def exPkA_def exPkC_def sorted_list_of_set_sort_remdups)

lemma ex_keyColumnFree: "keyColumnFree exModel cols exTrs"
  by (simp add: keyColumnFree_def exTrs_def pkFields_def keyFields_def List.map_filter_def ex_defs)

lemma ex_scan:
  "scanPost specCodec exModel exType [] (replyRows exModel exTrs) [] = Inr out \<Longrightarrow>
   map (\<lambda>r. (r 0, r 1)) out = [(VString [0x61], VString [0x62]), (VString [0x63], VString [0x64])]"
  by (auto simp: scanPost_def replyRows_def exTrs_def exPkA_def exPkC_def encodeColumnKey_def
      spec_eval ex_defs unmarshalTableValue_def fieldKind_def)

lemma ex_bad:
  "scanPost specCodec exModel exType [] (replyRows exModel exBadTrs) [] = Inl UnableToUnmarshalInteger"
  by (simp add: scanPost_def replyRows_def exBadTrs_def exPkA_def encodeColumnKey_def
      spec_eval ex_defs unmarshalTableValue_def fieldKind_def)

lemma ex_scan_filtered:
  "scanPost specCodec exModel exType [exK] (replyRows exModel exTrs) [] = Inr out \<Longrightarrow>
   map (\<lambda>r. (r 0, r 1)) out = [(VString [0x61], VString []), (VString [0x63], VString [])]"
  by (auto simp: scanPost_def replyRows_def exTrs_def exPkA_def exPkC_def encodeColumnKey_def
      spec_eval ex_defs unmarshalTableValue_def fieldKind_def)

lemma ex_pks: "\<forall>(p, col, v)\<in>set exTrs. p \<in> encodedKeys specCodec exModel exType"
  using ex_keys by (simp add: exTrs_def)

lemma ex_filtered: "[exK] \<noteq> []" "\<forall>(p, col, v)\<in>set exTrs. col \<notin> set [exK]"
  by (simp_all add: exTrs_def exK_def exV_def)

section \<open>Absent values\<close>

text \<open>
  C8. An absent source (nil \<^verbatim>\<open>*proto.Value\<close>) unmarshals to the zero value of the
  destination's type, whatever the destination is, and returns no error. Hence the
  post-processing of a Get whose reply carries no value (the column was deleted) sets
  the field to its zero value, leaves the other fields alone and reports no error.
\<close>

theorem unmarshal_nil_is_zero:
  "unmarshalTableValue None dest = Inr (zeroOfKind (kindOf dest)) \<and>
   getPost f None v = (None, v(f := zeroOfKind (kindOf (v f))))"
  by (simp add: unmarshalTableValue_def getPost_def)

theorem unmarshal_nil_is_zero_witness:
  "unmarshalTableValue None (VString [0x62]) = Inr (VString []) \<and>
   getPost 1 None (\<lambda>i. VString [0x62]) = (None, (\<lambda>i. VString [0x62])(1 := VString []))"
  using unmarshal_nil_is_zero [of "VString [0x62]" 1 "\<lambda>i. VString [0x62]"] by simp

section \<open>Floats\<close>

lemma narrow32_exact: "narrow32 0x3FB99999A0000000 = 0x3FB99999A0000000"
  by (simp add: narrow32_def narrow32bits_def roundShift_def Let_def)

lemma narrow32_rounds: "narrow32 0x3FB999999999999A = 0x3FB99999A0000000"
  by (simp add: narrow32_def narrow32bits_def roundShift_def Let_def)

text \<open>
  C9. A float field of either width marshals to the integer member holding the
  float64 bit pattern of its value (and no bytes member). Unmarshalling an integer
  member into a float field stores it through \<^verbatim>\<open>SetFloat\<close>: unchanged in a Float64
  field, rounded to the nearest float32 in a Float32 field. A value that a float
  field holds is a fixed point of that store (every float64 for a Float64 field, a
  float32 for a Float32 field), so marshalling a float field and unmarshalling the
  result into a field of the same width gives the field's value back. The key
  encoding of a float goes through the codec's \<^verbatim>\<open>EncodeNumericFloat\<close> instead of the
  bit pattern.
\<close>

theorem float_marshal_roundtrip:
  "marshalTableValue (VFloat w f) = Inr \<lparr>Bytes = None, Integer = Some f\<rparr> \<and>
   unmarshalTableValue (Some \<lparr>Bytes = None, Integer = Some x\<rparr>) (VFloat w d) =
     Inr (VFloat w (setFloat w x)) \<and>
   unmarshalTableValue (Some \<lparr>Bytes = None, Integer = Some x\<rparr>) (VFloat F64 d) =
     Inr (VFloat F64 x) \<and>
   (validValue (VFloat w f) \<longrightarrow>
      (\<exists>p. marshalTableValue (VFloat w f) = Inr p \<and>
           unmarshalTableValue (Some p) (VFloat w d) = Inr (VFloat w f))) \<and>
   encodeTableKey c b (VFloat w f) = Inr (EncodeNumericFloat c b f)"
  by (simp add: unmarshalTableValue_def emptyValue_def GetInteger_def)

theorem float_marshal_roundtrip_witness:
  "validValue (VFloat F32 0x3FB99999A0000000) \<and>
   marshalTableValue (VFloat F32 0x3FB99999A0000000) =
     Inr \<lparr>Bytes = None, Integer = Some 0x3FB99999A0000000\<rparr> \<and>
   unmarshalTableValue (Some \<lparr>Bytes = None, Integer = Some 0x3FB999999999999A\<rparr>)
       (VFloat F32 0) = Inr (VFloat F32 0x3FB99999A0000000) \<and>
   unmarshalTableValue (Some \<lparr>Bytes = None, Integer = Some 0x3FB999999999999A\<rparr>)
       (VFloat F64 0) = Inr (VFloat F64 0x3FB999999999999A) \<and>
   (\<exists>p. marshalTableValue (VFloat F32 0x3FB99999A0000000) = Inr p \<and>
        unmarshalTableValue (Some p) (VFloat F32 0) = Inr (VFloat F32 0x3FB99999A0000000)) \<and>
   encodeTableKey specCodec [] (VFloat F32 0x3FB99999A0000000) =
     Inr (EncodeNumericFloat specCodec [] 0x3FB99999A0000000)"
proof -
  have v: "validValue (VFloat F32 0x3FB99999A0000000)"
    using narrow32_exact by simp
  note T = float_marshal_roundtrip [of F32 "0x3FB99999A0000000" "0x3FB999999999999A" 0
      specCodec "[]"]
  have s: "setFloat F32 0x3FB999999999999A = 0x3FB99999A0000000"
    using narrow32_rounds by simp
  from T have a: "marshalTableValue (VFloat F32 0x3FB99999A0000000) =
      Inr \<lparr>Bytes = None, Integer = Some 0x3FB99999A0000000\<rparr>" by (rule conjunct1)
  from T s have b: "unmarshalTableValue
      (Some \<lparr>Bytes = None, Integer = Some 0x3FB999999999999A\<rparr>) (VFloat F32 0) =
      Inr (VFloat F32 0x3FB99999A0000000)" by (simp only: simp_thms)
  from T have c: "unmarshalTableValue
      (Some \<lparr>Bytes = None, Integer = Some 0x3FB999999999999A\<rparr>) (VFloat F64 0) =
      Inr (VFloat F64 0x3FB999999999999A)" by (elim conjE)
  from T v have d: "\<exists>p. marshalTableValue (VFloat F32 0x3FB99999A0000000) = Inr p \<and>
      unmarshalTableValue (Some p) (VFloat F32 0) = Inr (VFloat F32 0x3FB99999A0000000)"
    by (elim conjE impE)
  from T have e: "encodeTableKey specCodec [] (VFloat F32 0x3FB99999A0000000) =
      Inr (EncodeNumericFloat specCodec [] 0x3FB99999A0000000)" by (elim conjE)
  from v a b c d e show ?thesis by (intro conjI)
qed

section \<open>Call issuance\<close>

lemma getStructCalls_length:
  "getStructCalls m pk cols cs = Inr cs' \<Longrightarrow> \<exists>new. cs' = cs @ new \<and> length new = length cols"
proof (induction cols arbitrary: cs)
  case Nil
  then show ?case by simp
next
  case (Cons col cols)
  then show ?case by (fastforce split: option.splits)
qed

lemma putStructCalls_length:
  "putStructCalls m pk v cols cs = Inr cs' \<Longrightarrow> \<exists>new. cs' = cs @ new \<and> length new = length cols"
proof (induction cols arbitrary: cs)
  case Nil
  then show ?case by simp
next
  case (Cons col cols)
  then show ?case by (fastforce split: option.splits sum.splits)
qed

lemma delStructCalls_length:
  "delStructCalls m pk cols cs = Inr cs' \<Longrightarrow> \<exists>new. cs' = cs @ new \<and> length new = length cols"
proof (induction cols arbitrary: cs)
  case Nil
  then show ?case by simp
next
  case (Cons col cols)
  then show ?case by (fastforce split: option.splits)
qed

lemma allOrNothing_error: "allOrNothing b (initResult b 0 0 (Some e)) n"
  by (simp add: allOrNothing_def initResult_def)

lemma allOrNothing_issue:
  "length cs = n \<Longrightarrow> allOrNothing b (initResult (b\<lparr>calls := calls b @ cs\<rparr>) n r None) n"
  by (simp add: allOrNothing_def initResult_def)

lemma getModel_requested:
  "getModel db t p = Inr m \<Longrightarrow>
   requestedColumns db t cols = (if cols = [] then otherColumns m else cols)"
  by (auto simp: getModel_def requestedColumns_def split: if_splits option.splits)

lemma GetStruct_allOrNothing:
  "allOrNothing b (GetStruct c db b t v cols) (length (requestedColumns db t cols))"
proof (cases "getModel db t True")
  case (Inl e)
  then show ?thesis by (simp add: GetStruct_def allOrNothing_error)
next
  case (Inr m)
  note rq = getModel_requested [OF Inr, of cols]
  show ?thesis
  proof (cases "encodePrimaryKey c m v")
    case (Inl e)
    with Inr show ?thesis by (simp add: GetStruct_def allOrNothing_error)
  next
    case pk: (Inr pk)
    show ?thesis
    proof (cases "getStructCalls m pk (requestedColumns db t cols) []")
      case (Inl e)
      with Inr pk rq show ?thesis by (simp add: GetStruct_def allOrNothing_error)
    next
      case cs: (Inr cs)
      from getStructCalls_length [OF cs] have "length cs = length (requestedColumns db t cols)"
        by auto
      with Inr pk rq cs show ?thesis
        by (simp add: GetStruct_def allOrNothing_issue)
    qed
  qed
qed

lemma PutStruct_allOrNothing:
  "allOrNothing b (PutStruct c db b t v cols) (length (requestedColumns db (Indirect t) cols))"
proof (cases "getModel db (Indirect t) False")
  case (Inl e)
  then show ?thesis by (simp add: PutStruct_def allOrNothing_error)
next
  case (Inr m)
  note rq = getModel_requested [OF Inr, of cols]
  show ?thesis
  proof (cases "encodePrimaryKey c m v")
    case (Inl e)
    with Inr show ?thesis by (simp add: PutStruct_def allOrNothing_error)
  next
    case pk: (Inr pk)
    show ?thesis
    proof (cases "putStructCalls m pk v (requestedColumns db (Indirect t) cols) []")
      case (Inl e)
      with Inr pk rq show ?thesis by (simp add: PutStruct_def allOrNothing_error)
    next
      case cs: (Inr cs)
      from putStructCalls_length [OF cs]
      have "length cs = length (requestedColumns db (Indirect t) cols)" by auto
      with Inr pk rq cs show ?thesis
        by (simp add: PutStruct_def allOrNothing_issue)
    qed
  qed
qed

lemma DelStruct_allOrNothing:
  "allOrNothing b (DelStruct c db b t v cols) (length (requestedColumns db (Indirect t) cols))"
proof (cases "getModel db (Indirect t) False")
  case (Inl e)
  then show ?thesis by (simp add: DelStruct_def allOrNothing_error)
next
  case (Inr m)
  note rq = getModel_requested [OF Inr, of cols]
  show ?thesis
  proof (cases "encodePrimaryKey c m v")
    case (Inl e)
    with Inr show ?thesis by (simp add: DelStruct_def allOrNothing_error)
  next
    case pk: (Inr pk)
    show ?thesis
    proof (cases "delStructCalls m pk (requestedColumns db (Indirect t) cols) []")
      case (Inl e)
      with Inr pk rq show ?thesis by (simp add: DelStruct_def allOrNothing_error)
    next
      case cs: (Inr cs)
      from delStructCalls_length [OF cs]
      have "length cs = length (requestedColumns db (Indirect t) cols)" by auto
      with Inr pk rq cs show ?thesis
        by (simp add: DelStruct_def allOrNothing_issue)
    qed
  qed
qed

lemma IncStruct_allOrNothing:
  "allOrNothing b (IncStruct c db b t v val column) 1"
  unfolding IncStruct_def
  by (auto simp: allOrNothing_error allOrNothing_issue split: sum.splits option.splits)

lemma ScanStruct_allOrNothing:
  "allOrNothing b (ScanStruct c db b destT startT startV endT endV maxRows cols) 1"
  unfolding ScanStruct_def Let_def
  by (auto simp: allOrNothing_error allOrNothing_issue split: sum.splits option.splits)

lemma getStructCalls_ok:
  "list_all (knownColumn m) cols \<Longrightarrow>
   \<exists>new. getStructCalls m pk cols cs = Inr (cs @ new) \<and> list_all2 (getCallFor m pk) cols new"
proof (induction cols arbitrary: cs)
  case Nil
  then show ?case by simp
next
  case (Cons col cols)
  from Cons.prems have k: "knownColumn m col" and rest: "list_all (knownColumn m) cols"
    by simp_all
  from k obtain f where f: "map_of (mfields m) col = Some f"
    by (auto simp: knownColumn_def split: option.splits)
  define cl where "cl = \<lparr>Args = GetRequest (encodeColumnKey m pk col), Post = GetPost f\<rparr>"
  from Cons.IH [OF rest, of "cs @ [cl]"] obtain new
    where n: "getStructCalls m pk cols (cs @ [cl]) = Inr ((cs @ [cl]) @ new)"
      and l: "list_all2 (getCallFor m pk) cols new" by blast
  have "getStructCalls m pk (col # cols) cs = Inr (cs @ cl # new)"
    using f n by (simp add: cl_def)
  moreover have "list_all2 (getCallFor m pk) (col # cols) (cl # new)"
    using f l by (simp add: getCallFor_def cl_def)
  ultimately show ?case by blast
qed

lemma getStructCalls_bad:
  "\<not> list_all (knownColumn m) cols \<Longrightarrow>
   \<exists>col\<in>set cols. \<not> knownColumn m col \<and>
      getStructCalls m pk cols cs = Inl (UnableToFindField (name m) col)"
proof (induction cols arbitrary: cs)
  case Nil
  then show ?case by simp
next
  case (Cons col cols)
  show ?case
  proof (cases "map_of (mfields m) col")
    case None
    then show ?thesis by (simp add: knownColumn_def)
  next
    case (Some f)
    then have "knownColumn m col" by (simp add: knownColumn_def)
    with Cons.prems have "\<not> list_all (knownColumn m) cols" by simp
    from Cons.IH [OF this] Some show ?thesis by simp
  qed
qed

lemma delStructCalls_ok:
  "list_all (knownColumn m) cols \<Longrightarrow>
   \<exists>new. delStructCalls m pk cols cs = Inr (cs @ new) \<and> list_all2 (delCallFor m pk) cols new"
proof (induction cols arbitrary: cs)
  case Nil
  then show ?case by simp
next
  case (Cons col cols)
  from Cons.prems have k: "knownColumn m col" and rest: "list_all (knownColumn m) cols"
    by simp_all
  from k obtain f where f: "map_of (mfields m) col = Some f"
    by (auto simp: knownColumn_def split: option.splits)
  define cl where "cl = \<lparr>Args = DeleteRequest (encodeColumnKey m pk col), Post = NoPost\<rparr>"
  from Cons.IH [OF rest, of "cs @ [cl]"] obtain new
    where n: "delStructCalls m pk cols (cs @ [cl]) = Inr ((cs @ [cl]) @ new)"
      and l: "list_all2 (delCallFor m pk) cols new" by blast
  have "delStructCalls m pk (col # cols) cs = Inr (cs @ cl # new)"
    using f n by (simp add: cl_def)
  moreover have "list_all2 (delCallFor m pk) (col # cols) (cl # new)"
    using f l by (simp add: delCallFor_def cl_def)
  ultimately show ?case by blast
qed

lemma delStructCalls_bad:
  "\<not> list_all (knownColumn m) cols \<Longrightarrow>
   \<exists>col\<in>set cols. \<not> knownColumn m col \<and>
      delStructCalls m pk cols cs = Inl (UnableToFindField (name m) col)"
proof (induction cols arbitrary: cs)
  case Nil
  then show ?case by simp
next
  case (Cons col cols)
  show ?case
  proof (cases "map_of (mfields m) col")
    case None
    then show ?thesis by (simp add: knownColumn_def)
  next
    case (Some f)
    then have "knownColumn m col" by (simp add: knownColumn_def)
    with Cons.prems have "\<not> list_all (knownColumn m) cols" by simp
    from Cons.IH [OF this] Some show ?thesis by simp
  qed
qed

lemma putStructCalls_ok:
  "list_all (marshalsColumn m v) cols \<Longrightarrow>
   \<exists>new. putStructCalls m pk v cols cs = Inr (cs @ new) \<and>
      list_all2 (putCallFor m pk v) cols new"
proof (induction cols arbitrary: cs)
  case Nil
  then show ?case by simp
next
  case (Cons col cols)
  from Cons.prems have k: "marshalsColumn m v col"
    and rest: "list_all (marshalsColumn m v) cols" by simp_all
  from k obtain f x where f: "map_of (mfields m) col = Some f"
    and x: "marshalTableValue (v f) = Inr x"
    by (auto simp: marshalsColumn_def split: option.splits sum.splits)
  define cl where "cl = \<lparr>Args = PutRequest (encodeColumnKey m pk col) x, Post = NoPost\<rparr>"
  from Cons.IH [OF rest, of "cs @ [cl]"] obtain new
    where n: "putStructCalls m pk v cols (cs @ [cl]) = Inr ((cs @ [cl]) @ new)"
      and l: "list_all2 (putCallFor m pk v) cols new" by blast
  have "putStructCalls m pk v (col # cols) cs = Inr (cs @ cl # new)"
    using f x n by (simp add: cl_def)
  moreover have "list_all2 (putCallFor m pk v) (col # cols) (cl # new)"
    using f x l by (simp add: putCallFor_def cl_def)
  ultimately show ?case by blast
qed

lemma putStructCalls_bad:
  "\<not> list_all (marshalsColumn m v) cols \<Longrightarrow>
   \<exists>col\<in>set cols. \<not> marshalsColumn m v col \<and>
      (\<exists>e. putStructCalls m pk v cols cs = Inl e \<and>
           (if knownColumn m col then (\<exists>f. map_of (mfields m) col = Some f \<and>
                                          marshalTableValue (v f) = Inl e)
            else e = UnableToFindField (name m) col))"
proof (induction cols arbitrary: cs)
  case Nil
  then show ?case by simp
next
  case (Cons col cols)
  show ?case
  proof (cases "map_of (mfields m) col")
    case None
    then show ?thesis by (simp add: knownColumn_def marshalsColumn_def)
  next
    case (Some f)
    show ?thesis
    proof (cases "marshalTableValue (v f)")
      case (Inl e)
      with Some show ?thesis by (simp add: knownColumn_def marshalsColumn_def)
    next
      case (Inr x)
      with Some have "marshalsColumn m v col" by (simp add: marshalsColumn_def)
      with Cons.prems have "\<not> list_all (marshalsColumn m v) cols" by simp
      from Cons.IH [OF this] Some Inr show ?thesis by simp
    qed
  qed
qed

lemma rejects_initResult: "rejects b (initResult b 0 0 (Some e)) e"
  by (simp add: rejects_def initResult_def)

lemma issues_initResult:
  "issues b (initResult (b\<lparr>calls := calls b @ cs\<rparr>) (length cs) r None) cs r"
  by (simp add: issues_def initResult_def)

lemma GetStruct_outcome:
  "(getModel db t True = Inl e \<longrightarrow> rejects b (GetStruct c db b t v cols) e) \<and>
   (getModel db t True = Inr m \<and> encodePrimaryKey c m v = Inl e \<longrightarrow>
      rejects b (GetStruct c db b t v cols) e) \<and>
   (getModel db t True = Inr m \<and> encodePrimaryKey c m v = Inr pk \<and>
    \<not> list_all (knownColumn m) (columnsOf m cols) \<longrightarrow>
      (\<exists>col\<in>set (columnsOf m cols). \<not> knownColumn m col \<and>
         rejects b (GetStruct c db b t v cols) (UnableToFindField (name m) col))) \<and>
   (getModel db t True = Inr m \<and> encodePrimaryKey c m v = Inr pk \<and>
    list_all (knownColumn m) (columnsOf m cols) \<longrightarrow>
      (\<exists>cs. list_all2 (getCallFor m pk) (columnsOf m cols) cs \<and>
         issues b (GetStruct c db b t v cols) cs (length cs)))"
proof (intro conjI impI)
  show "rejects b (GetStruct c db b t v cols) e" if "getModel db t True = Inl e"
    using that by (simp add: GetStruct_def rejects_initResult)
  show "rejects b (GetStruct c db b t v cols) e"
    if "getModel db t True = Inr m \<and> encodePrimaryKey c m v = Inl e"
    using that by (simp add: GetStruct_def rejects_initResult)
  show "\<exists>col\<in>set (columnsOf m cols). \<not> knownColumn m col \<and>
         rejects b (GetStruct c db b t v cols) (UnableToFindField (name m) col)"
    if h: "getModel db t True = Inr m \<and> encodePrimaryKey c m v = Inr pk \<and>
        \<not> list_all (knownColumn m) (columnsOf m cols)"
  proof -
    from h getStructCalls_bad [of m "columnsOf m cols" pk "[]"] obtain col
      where "col \<in> set (columnsOf m cols)" "\<not> knownColumn m col"
        "getStructCalls m pk (columnsOf m cols) [] = Inl (UnableToFindField (name m) col)"
      by blast
    with h show ?thesis
      by (auto simp: GetStruct_def columnsOf_def rejects_initResult)
  qed
  show "\<exists>cs. list_all2 (getCallFor m pk) (columnsOf m cols) cs \<and>
         issues b (GetStruct c db b t v cols) cs (length cs)"
    if h: "getModel db t True = Inr m \<and> encodePrimaryKey c m v = Inr pk \<and>
        list_all (knownColumn m) (columnsOf m cols)"
  proof -
    from h getStructCalls_ok [of m "columnsOf m cols" pk "[]"] obtain cs
      where l: "list_all2 (getCallFor m pk) (columnsOf m cols) cs"
        and g: "getStructCalls m pk (columnsOf m cols) [] = Inr cs" by auto
    from h g have "GetStruct c db b t v cols =
        initResult (b\<lparr>calls := calls b @ cs\<rparr>) (length cs) (length cs) None"
      by (simp add: GetStruct_def columnsOf_def)
    with l issues_initResult [of b cs "length cs"] show ?thesis by auto
  qed
qed

lemma PutStruct_outcome:
  "(getModel db (Indirect t) False = Inl e \<longrightarrow> rejects b (PutStruct c db b t v cols) e) \<and>
   (getModel db (Indirect t) False = Inr m \<and> encodePrimaryKey c m v = Inl e \<longrightarrow>
      rejects b (PutStruct c db b t v cols) e) \<and>
   (getModel db (Indirect t) False = Inr m \<and> encodePrimaryKey c m v = Inr pk \<and>
    \<not> list_all (marshalsColumn m v) (columnsOf m cols) \<longrightarrow>
      (\<exists>col\<in>set (columnsOf m cols). \<not> marshalsColumn m v col \<and>
         (\<exists>e'. rejects b (PutStruct c db b t v cols) e' \<and>
            (if knownColumn m col
             then (\<exists>f. map_of (mfields m) col = Some f \<and> marshalTableValue (v f) = Inl e')
             else e' = UnableToFindField (name m) col)))) \<and>
   (getModel db (Indirect t) False = Inr m \<and> encodePrimaryKey c m v = Inr pk \<and>
    list_all (marshalsColumn m v) (columnsOf m cols) \<longrightarrow>
      (\<exists>cs. list_all2 (putCallFor m pk v) (columnsOf m cols) cs \<and>
         issues b (PutStruct c db b t v cols) cs (length cs)))"
proof (intro conjI impI)
  show "rejects b (PutStruct c db b t v cols) e" if "getModel db (Indirect t) False = Inl e"
    using that by (simp add: PutStruct_def rejects_initResult)
  show "rejects b (PutStruct c db b t v cols) e"
    if "getModel db (Indirect t) False = Inr m \<and> encodePrimaryKey c m v = Inl e"
    using that by (simp add: PutStruct_def rejects_initResult)
  show "\<exists>col\<in>set (columnsOf m cols). \<not> marshalsColumn m v col \<and>
         (\<exists>e'. rejects b (PutStruct c db b t v cols) e' \<and>
            (if knownColumn m col
             then (\<exists>f. map_of (mfields m) col = Some f \<and> marshalTableValue (v f) = Inl e')
             else e' = UnableToFindField (name m) col))"
    if h: "getModel db (Indirect t) False = Inr m \<and> encodePrimaryKey c m v = Inr pk \<and>
        \<not> list_all (marshalsColumn m v) (columnsOf m cols)"
  proof -
    from h putStructCalls_bad [of m v "columnsOf m cols" pk "[]"] obtain col e'
      where c: "col \<in> set (columnsOf m cols)" "\<not> marshalsColumn m v col"
        and p: "putStructCalls m pk v (columnsOf m cols) [] = Inl e'"
        and w: "if knownColumn m col
             then (\<exists>f. map_of (mfields m) col = Some f \<and> marshalTableValue (v f) = Inl e')
             else e' = UnableToFindField (name m) col"
      by blast
    from h p have "PutStruct c db b t v cols = initResult b 0 0 (Some e')"
      by (simp add: PutStruct_def columnsOf_def)
    with rejects_initResult [of b e'] have "rejects b (PutStruct c db b t v cols) e'" by simp
    with c w show ?thesis by blast
  qed
  show "\<exists>cs. list_all2 (putCallFor m pk v) (columnsOf m cols) cs \<and>
         issues b (PutStruct c db b t v cols) cs (length cs)"
    if h: "getModel db (Indirect t) False = Inr m \<and> encodePrimaryKey c m v = Inr pk \<and>
        list_all (marshalsColumn m v) (columnsOf m cols)"
  proof -
    from h putStructCalls_ok [of m v "columnsOf m cols" pk "[]"] obtain cs
      where l: "list_all2 (putCallFor m pk v) (columnsOf m cols) cs"
        and g: "putStructCalls m pk v (columnsOf m cols) [] = Inr cs" by auto
    from h g have "PutStruct c db b t v cols =
        initResult (b\<lparr>calls := calls b @ cs\<rparr>) (length cs) (length cs) None"
      by (simp add: PutStruct_def columnsOf_def)
    with l issues_initResult [of b cs "length cs"] show ?thesis by auto
  qed
qed

lemma DelStruct_outcome:
  "(getModel db (Indirect t) False = Inl e \<longrightarrow> rejects b (DelStruct c db b t v cols) e) \<and>
   (getModel db (Indirect t) False = Inr m \<and> encodePrimaryKey c m v = Inl e \<longrightarrow>
      rejects b (DelStruct c db b t v cols) e) \<and>
   (getModel db (Indirect t) False = Inr m \<and> encodePrimaryKey c m v = Inr pk \<and>
    \<not> list_all (knownColumn m) (columnsOf m cols) \<longrightarrow>
      (\<exists>col\<in>set (columnsOf m cols). \<not> knownColumn m col \<and>
         rejects b (DelStruct c db b t v cols) (UnableToFindField (name m) col))) \<and>
   (getModel db (Indirect t) False = Inr m \<and> encodePrimaryKey c m v = Inr pk \<and>
    list_all (knownColumn m) (columnsOf m cols) \<longrightarrow>
      (\<exists>cs. list_all2 (delCallFor m pk) (columnsOf m cols) cs \<and>
         issues b (DelStruct c db b t v cols) cs (length cs)))"
proof (intro conjI impI)
  show "rejects b (DelStruct c db b t v cols) e" if "getModel db (Indirect t) False = Inl e"
    using that by (simp add: DelStruct_def rejects_initResult)
  show "rejects b (DelStruct c db b t v cols) e"
    if "getModel db (Indirect t) False = Inr m \<and> encodePrimaryKey c m v = Inl e"
    using that by (simp add: DelStruct_def rejects_initResult)
  show "\<exists>col\<in>set (columnsOf m cols). \<not> knownColumn m col \<and>
         rejects b (DelStruct c db b t v cols) (UnableToFindField (name m) col)"
    if h: "getModel db (Indirect t) False = Inr m \<and> encodePrimaryKey c m v = Inr pk \<and>
        \<not> list_all (knownColumn m) (columnsOf m cols)"
  proof -
    from h delStructCalls_bad [of m "columnsOf m cols" pk "[]"] obtain col
      where "col \<in> set (columnsOf m cols)" "\<not> knownColumn m col"
        "delStructCalls m pk (columnsOf m cols) [] = Inl (UnableToFindField (name m) col)"
      by blast
    with h show ?thesis
      by (auto simp: DelStruct_def columnsOf_def rejects_initResult)
  qed
  show "\<exists>cs. list_all2 (delCallFor m pk) (columnsOf m cols) cs \<and>
         issues b (DelStruct c db b t v cols) cs (length cs)"
    if h: "getModel db (Indirect t) False = Inr m \<and> encodePrimaryKey c m v = Inr pk \<and>
        list_all (knownColumn m) (columnsOf m cols)"
  proof -
    from h delStructCalls_ok [of m "columnsOf m cols" pk "[]"] obtain cs
      where l: "list_all2 (delCallFor m pk) (columnsOf m cols) cs"
        and g: "delStructCalls m pk (columnsOf m cols) [] = Inr cs" by auto
    from h g have "DelStruct c db b t v cols =
        initResult (b\<lparr>calls := calls b @ cs\<rparr>) (length cs) (length cs) None"
      by (simp add: DelStruct_def columnsOf_def)
    with l issues_initResult [of b cs "length cs"] show ?thesis by auto
  qed
qed

lemma IncStruct_outcome:
  "(getModel db t True = Inl e \<longrightarrow> rejects b (IncStruct c db b t v val column) e) \<and>
   (getModel db t True = Inr m \<and> encodePrimaryKey c m v = Inl e \<longrightarrow>
      rejects b (IncStruct c db b t v val column) e) \<and>
   (getModel db t True = Inr m \<and> encodePrimaryKey c m v = Inr pk \<and>
    \<not> knownColumn m column \<longrightarrow>
      rejects b (IncStruct c db b t v val column) (UnableToFindField (name m) column)) \<and>
   (getModel db t True = Inr m \<and> encodePrimaryKey c m v = Inr pk \<and>
    map_of (mfields m) column = Some f \<longrightarrow>
      issues b (IncStruct c db b t v val column)
        [\<lparr>Args = IncrementRequest (encodeColumnKey m pk column) val, Post = IncPost f\<rparr>] 1)"
  using issues_initResult [of b
      "[\<lparr>Args = IncrementRequest (encodeColumnKey m pk column) val, Post = IncPost f\<rparr>]" 1]
  by (auto simp: IncStruct_def rejects_initResult knownColumn_def split: option.splits)

lemma ScanStruct_outcome:
  "(sliceElem destT = None \<longrightarrow>
      rejects b (ScanStruct c db b destT startT startV endT endV maxRows cols)
        DestNotPointerToSlice) \<and>
   (sliceElem destT = Some elemT \<and> getModel db (scanModelType elemT) False = Inl e \<longrightarrow>
      rejects b (ScanStruct c db b destT startT startV endT endV maxRows cols) e) \<and>
   (sliceElem destT = Some elemT \<and> getModel db (scanModelType elemT) False = Inr m \<and>
    scanModelType elemT \<noteq> Indirect startT \<longrightarrow>
      rejects b (ScanStruct c db b destT startT startV endT endV maxRows cols)
        IncompatibleStartKeyType) \<and>
   (sliceElem destT = Some elemT \<and> getModel db (scanModelType elemT) False = Inr m \<and>
    scanModelType elemT = Indirect startT \<and> scanModelType elemT \<noteq> Indirect endT \<longrightarrow>
      rejects b (ScanStruct c db b destT startT startV endT endV maxRows cols)
        IncompatibleEndKeyType) \<and>
   (sliceElem destT = Some elemT \<and> getModel db (scanModelType elemT) False = Inr m \<and>
    scanModelType elemT = Indirect startT \<and> scanModelType elemT = Indirect endT \<and>
    encodePrimaryKey c m startV = Inl e \<longrightarrow>
      rejects b (ScanStruct c db b destT startT startV endT endV maxRows cols) e) \<and>
   (sliceElem destT = Some elemT \<and> getModel db (scanModelType elemT) False = Inr m \<and>
    scanModelType elemT = Indirect startT \<and> scanModelType elemT = Indirect endT \<and>
    encodePrimaryKey c m startV = Inr sk \<and> encodePrimaryKey c m endV = Inl e \<longrightarrow>
      rejects b (ScanStruct c db b destT startT startV endT endV maxRows cols) e) \<and>
   (sliceElem destT = Some elemT \<and> getModel db (scanModelType elemT) False = Inr m \<and>
    scanModelType elemT = Indirect startT \<and> scanModelType elemT = Indirect endT \<and>
    encodePrimaryKey c m startV = Inr sk \<and> encodePrimaryKey c m endV = Inr ek \<longrightarrow>
      issues b (ScanStruct c db b destT startT startV endT endV maxRows cols)
        [\<lparr>Args = ScanRequest sk ek maxRows,
          Post = ScanPost m (scanModelType elemT) (isPtr elemT) cols\<rparr>] 0)"
  using issues_initResult [of b
      "[\<lparr>Args = ScanRequest sk ek maxRows,
         Post = ScanPost m (scanModelType elemT) (isPtr elemT) cols\<rparr>]" 0]
  by (auto simp: ScanStruct_def Let_def scanModelType_def rejects_initResult)

text \<open>
  C4. What each of the five structured operations does to the batch, by the outcome of
  its validation steps, in the order the operation takes them.

  \<^item> \<^verbatim>\<open>GetStruct\<close> and \<^verbatim>\<open>IncStruct\<close> look the model up with \<^verbatim>\<open>getModel\<close>, which asks
    for a pointer; \<^verbatim>\<open>PutStruct\<close> and \<^verbatim>\<open>DelStruct\<close> look it up for the type behind the
    object. When the lookup fails (not a pointer, no binding), the operation records
    that error and the calls of the batch are as before.
  \<^item> When \<^verbatim>\<open>encodePrimaryKey\<close> fails on the object, the operation records that error
    and the calls of the batch are as before.
  \<^item> When one of the requested columns names no field of the model, the operation
    records \<^verbatim>\<open>UnableToFindField\<close> for such a column, and the calls of the batch are as
    before; for \<^verbatim>\<open>PutStruct\<close> the same holds when \<^verbatim>\<open>marshalTableValue\<close> fails on the
    field of a requested column, with the error of the marshaler.
  \<^item> Otherwise the operation appends one call for each requested column, in the order of
    the columns: the Get, Put or Delete request on the key of the column
    (\<^verbatim>\<open>encodeColumnKey\<close>), and records the number of calls and no error.
    \<^verbatim>\<open>IncStruct\<close> appends its one Increment call.
  \<^item> \<^verbatim>\<open>ScanStruct\<close> records an error and leaves the calls as they were when the
    destination is not a pointer to a slice, when the model lookup for the element type
    fails, when the type of the start or of the end object is not the element's record
    type, and when \<^verbatim>\<open>encodePrimaryKey\<close> fails on the start or on the end object;
    otherwise it appends its one Scan call.
  \<^item> So each operation either leaves the calls of the batch as they were and records an
    error, or appends all of its calls and records none; no operation appends only some
    of its calls.
\<close>

theorem structured_ops_all_or_nothing:
  "((getModel db t True = Inl e \<longrightarrow> rejects b (GetStruct c db b t v cols) e) \<and>
     (getModel db t True = Inr m \<and> encodePrimaryKey c m v = Inl e \<longrightarrow>
        rejects b (GetStruct c db b t v cols) e) \<and>
     (getModel db t True = Inr m \<and> encodePrimaryKey c m v = Inr pk \<and>
      \<not> list_all (knownColumn m) (columnsOf m cols) \<longrightarrow>
        (\<exists>col\<in>set (columnsOf m cols). \<not> knownColumn m col \<and>
           rejects b (GetStruct c db b t v cols) (UnableToFindField (name m) col))) \<and>
     (getModel db t True = Inr m \<and> encodePrimaryKey c m v = Inr pk \<and>
      list_all (knownColumn m) (columnsOf m cols) \<longrightarrow>
        (\<exists>cs. list_all2 (getCallFor m pk) (columnsOf m cols) cs \<and>
           issues b (GetStruct c db b t v cols) cs (length cs)))) \<and>
   ((getModel db (Indirect t) False = Inl e \<longrightarrow> rejects b (PutStruct c db b t v cols) e) \<and>
     (getModel db (Indirect t) False = Inr m \<and> encodePrimaryKey c m v = Inl e \<longrightarrow>
        rejects b (PutStruct c db b t v cols) e) \<and>
     (getModel db (Indirect t) False = Inr m \<and> encodePrimaryKey c m v = Inr pk \<and>
      \<not> list_all (marshalsColumn m v) (columnsOf m cols) \<longrightarrow>
        (\<exists>col\<in>set (columnsOf m cols). \<not> marshalsColumn m v col \<and>
           (\<exists>e'. rejects b (PutStruct c db b t v cols) e' \<and>
              (if knownColumn m col
               then (\<exists>f. map_of (mfields m) col = Some f \<and> marshalTableValue (v f) = Inl e')
               else e' = UnableToFindField (name m) col)))) \<and>
     (getModel db (Indirect t) False = Inr m \<and> encodePrimaryKey c m v = Inr pk \<and>
      list_all (marshalsColumn m v) (columnsOf m cols) \<longrightarrow>
        (\<exists>cs. list_all2 (putCallFor m pk v) (columnsOf m cols) cs \<and>
           issues b (PutStruct c db b t v cols) cs (length cs)))) \<and>
   ((getModel db t True = Inl e \<longrightarrow> rejects b (IncStruct c db b t v val column) e) \<and>
     (getModel db t True = Inr m \<and> encodePrimaryKey c m v = Inl e \<longrightarrow>
        rejects b (IncStruct c db b t v val column) e) \<and>
     (getModel db t True = Inr m \<and> encodePrimaryKey c m v = Inr pk \<and>
      \<not> knownColumn m column \<longrightarrow>
        rejects b (IncStruct c db b t v val column) (UnableToFindField (name m) column)) \<and>
     (getModel db t True = Inr m \<and> encodePrimaryKey c m v = Inr pk \<and>
      map_of (mfields m) column = Some f \<longrightarrow>
        issues b (IncStruct c db b t v val column)
          [\<lparr>Args = IncrementRequest (encodeColumnKey m pk column) val, Post = IncPost f\<rparr>] 1)) \<and>
   ((sliceElem destT = None \<longrightarrow>
        rejects b (ScanStruct c db b destT startT startV endT endV maxRows cols)
          DestNotPointerToSlice) \<and>
     (sliceElem destT = Some elemT \<and> getModel db (scanModelType elemT) False = Inl e \<longrightarrow>
        rejects b (ScanStruct c db b destT startT startV endT endV maxRows cols) e) \<and>
     (sliceElem destT = Some elemT \<and> getModel db (scanModelType elemT) False = Inr m \<and>
      scanModelType elemT \<noteq> Indirect startT \<longrightarrow>
        rejects b (ScanStruct c db b destT startT startV endT endV maxRows cols)
          IncompatibleStartKeyType) \<and>
     (sliceElem destT = Some elemT \<and> getModel db (scanModelType elemT) False = Inr m \<and>
      scanModelType elemT = Indirect startT \<and> scanModelType elemT \<noteq> Indirect endT \<longrightarrow>
        rejects b (ScanStruct c db b destT startT startV endT endV maxRows cols)
          IncompatibleEndKeyType) \<and>
     (sliceElem destT = Some elemT \<and> getModel db (scanModelType elemT) False = Inr m \<and>
      scanModelType elemT = Indirect startT \<and> scanModelType elemT = Indirect endT \<and>
      encodePrimaryKey c m startV = Inl e \<longrightarrow>
        rejects b (ScanStruct c db b destT startT startV endT endV maxRows cols) e) \<and>
     (sliceElem destT = Some elemT \<and> getModel db (scanModelType elemT) False = Inr m \<and>
      scanModelType elemT = Indirect startT \<and> scanModelType elemT = Indirect endT \<and>
      encodePrimaryKey c m startV = Inr sk \<and> encodePrimaryKey c m endV = Inl e \<longrightarrow>
        rejects b (ScanStruct c db b destT startT startV endT endV maxRows cols) e) \<and>
     (sliceElem destT = Some elemT \<and> getModel db (scanModelType elemT) False = Inr m \<and>
      scanModelType elemT = Indirect startT \<and> scanModelType elemT = Indirect endT \<and>
      encodePrimaryKey c m startV = Inr sk \<and> encodePrimaryKey c m endV = Inr ek \<longrightarrow>
        issues b (ScanStruct c db b destT startT startV endT endV maxRows cols)
          [\<lparr>Args = ScanRequest sk ek maxRows,
            Post = ScanPost m (scanModelType elemT) (isPtr elemT) cols\<rparr>] 0)) \<and>
   ((getModel db (Indirect t) False = Inl e \<longrightarrow> rejects b (DelStruct c db b t v cols) e) \<and>
     (getModel db (Indirect t) False = Inr m \<and> encodePrimaryKey c m v = Inl e \<longrightarrow>
        rejects b (DelStruct c db b t v cols) e) \<and>
     (getModel db (Indirect t) False = Inr m \<and> encodePrimaryKey c m v = Inr pk \<and>
      \<not> list_all (knownColumn m) (columnsOf m cols) \<longrightarrow>
        (\<exists>col\<in>set (columnsOf m cols). \<not> knownColumn m col \<and>
           rejects b (DelStruct c db b t v cols) (UnableToFindField (name m) col))) \<and>
     (getModel db (Indirect t) False = Inr m \<and> encodePrimaryKey c m v = Inr pk \<and>
      list_all (knownColumn m) (columnsOf m cols) \<longrightarrow>
        (\<exists>cs. list_all2 (delCallFor m pk) (columnsOf m cols) cs \<and>
           issues b (DelStruct c db b t v cols) cs (length cs)))) \<and>
   (allOrNothing b (GetStruct c db b t v cols) (length (requestedColumns db t cols)) \<and>
    allOrNothing b (PutStruct c db b t v cols) (length (requestedColumns db (Indirect t) cols)) \<and>
    allOrNothing b (IncStruct c db b t v val column) 1 \<and>
    allOrNothing b (ScanStruct c db b destT startT startV endT endV maxRows cols) 1 \<and>
    allOrNothing b (DelStruct c db b t v cols) (length (requestedColumns db (Indirect t) cols)))"
  by (rule conjI [OF GetStruct_outcome conjI [OF PutStruct_outcome conjI [OF IncStruct_outcome
      conjI [OF ScanStruct_outcome conjI [OF DelStruct_outcome
      conjI [OF GetStruct_allOrNothing conjI [OF PutStruct_allOrNothing
      conjI [OF IncStruct_allOrNothing conjI [OF ScanStruct_allOrNothing
      DelStruct_allOrNothing]]]]]]]]])

theorem structured_ops_all_or_nothing_witness:
  "issues exBatch (GetStruct specCodec exDB exBatch (TPtr exType) (exRec [0x61] [0x62]) [exV, exK])
     [\<lparr>Args = GetRequest (encodeColumnKey exModel exPkA exV), Post = GetPost 1\<rparr>,
      \<lparr>Args = GetRequest (encodeColumnKey exModel exPkA exK), Post = GetPost 0\<rparr>] 2 \<and>
   issues exBatch (PutStruct specCodec exDB exBatch (TPtr exType) (exRec [0x61] [0x62]) [exV, exK])
     [\<lparr>Args = PutRequest (encodeColumnKey exModel exPkA exV) (emptyValue\<lparr>Bytes := Some [0x62]\<rparr>),
       Post = NoPost\<rparr>,
      \<lparr>Args = PutRequest (encodeColumnKey exModel exPkA exK) (emptyValue\<lparr>Bytes := Some [0x61]\<rparr>),
       Post = NoPost\<rparr>] 2 \<and>
   issues exBatch (IncStruct specCodec exDB exBatch (TPtr exType) (exRec [0x61] [0x62]) 1 exV)
     [\<lparr>Args = IncrementRequest (encodeColumnKey exModel exPkA exV) 1, Post = IncPost 1\<rparr>] 1 \<and>
   issues exBatch (ScanStruct specCodec exDB exBatch (TPtr (TSlice exType)) exType (exRec [0x61] []) (TPtr exType) (exRec [0x63] []) 0 [exV, exK])
     [\<lparr>Args = ScanRequest exPkA exPkC 0, Post = ScanPost exModel exType False [exV, exK]\<rparr>] 0 \<and>
   issues exBatch (DelStruct specCodec exDB exBatch (TPtr exType) (exRec [0x61] [0x62]) [exV, exK])
     [\<lparr>Args = DeleteRequest (encodeColumnKey exModel exPkA exV), Post = NoPost\<rparr>,
      \<lparr>Args = DeleteRequest (encodeColumnKey exModel exPkA exK), Post = NoPost\<rparr>] 2 \<and>
   rejects exBatch (GetStruct specCodec exDB exBatch exType (exRec [0x61] [0x62]) [exV, exK]) PointerTypeRequired \<and>
   rejects exBatch (IncStruct specCodec exDB exBatch exType (exRec [0x61] [0x62]) 1 exV) PointerTypeRequired \<and>
   rejects exBatch (PutStruct specCodec exDB exBatch (TPtr exType2) (exRec [0x61] [0x62]) [exV, exK]) UnableToFindModel \<and>
   rejects exBatch (DelStruct specCodec exDB exBatch (TPtr exType2) (exRec [0x61] [0x62]) [exV, exK]) UnableToFindModel \<and>
   rejects exBatch (GetStruct specCodec exDB exBatch (TPtr exType) (\<lambda>i. VOther 0) [exV, exK]) UnableToEncodeKey \<and>
   rejects exBatch (PutStruct specCodec exDB exBatch (TPtr exType) (\<lambda>i. VOther 0) [exV, exK]) UnableToEncodeKey \<and>
   rejects exBatch (GetStruct specCodec exDB exBatch (TPtr exType) (exRec [0x61] [0x62]) [exV, exX]) (UnableToFindField exName exX) \<and>
   rejects exBatch (DelStruct specCodec exDB exBatch (TPtr exType) (exRec [0x61] [0x62]) [exV, exX]) (UnableToFindField exName exX) \<and>
   rejects exBatch (IncStruct specCodec exDB exBatch (TPtr exType) (exRec [0x61] [0x62]) 1 exX) (UnableToFindField exName exX) \<and>
   rejects exBatch (PutStruct specCodec exDB exBatch (TPtr exType) ((exRec [0x61] [0x62])(1 := VOther 0)) [exV, exK]) UnableToMarshalValue \<and>
   rejects exBatch (ScanStruct specCodec exDB exBatch (TPtr exType) exType (exRec [0x61] []) (TPtr exType) (exRec [0x63] []) 0 [exV, exK]) DestNotPointerToSlice \<and>
   rejects exBatch (ScanStruct specCodec exDB exBatch (TPtr (TSlice exType2)) exType (exRec [0x61] []) (TPtr exType) (exRec [0x63] []) 0 [exV, exK]) UnableToFindModel \<and>
   rejects exBatch (ScanStruct specCodec exDB exBatch (TPtr (TSlice exType)) exType2 (exRec [0x61] []) (TPtr exType) (exRec [0x63] []) 0 [exV, exK]) IncompatibleStartKeyType \<and>
   rejects exBatch (ScanStruct specCodec exDB exBatch (TPtr (TSlice exType)) exType (exRec [0x61] []) exType2 (exRec [0x63] []) 0 [exV, exK]) IncompatibleEndKeyType \<and>
   rejects exBatch (ScanStruct specCodec exDB exBatch (TPtr (TSlice exType)) exType (\<lambda>i. VOther 0) (TPtr exType) (exRec [0x63] []) 0 [exV, exK]) UnableToEncodeKey \<and>
   rejects exBatch (ScanStruct specCodec exDB exBatch (TPtr (TSlice exType)) exType (exRec [0x61] []) (TPtr exType) (\<lambda>i. VOther 0) 0 [exV, exK]) UnableToEncodeKey \<and>
   allOrNothing exBatch (GetStruct specCodec exDB exBatch (TPtr exType) (exRec [0x61] [0x62]) [exV, exK]) 2 \<and>
   allOrNothing exBatch (PutStruct specCodec exDB exBatch (TPtr exType) (exRec [0x61] [0x62]) [exV, exK]) 2 \<and>
   allOrNothing exBatch (IncStruct specCodec exDB exBatch (TPtr exType) (exRec [0x61] [0x62]) 1 exV) 1 \<and>
   allOrNothing exBatch (ScanStruct specCodec exDB exBatch (TPtr (TSlice exType)) exType (exRec [0x61] []) (TPtr exType) (exRec [0x63] []) 0 [exV, exK]) 1 \<and>
   allOrNothing exBatch (DelStruct specCodec exDB exBatch (TPtr exType) (exRec [0x61] [0x62]) [exV, exK]) 2"
proof -
  have gm: "getModel exDB (TPtr exType) True = Inr exModel"
    "getModel exDB (Indirect (TPtr exType)) False = Inr exModel"
    "getModel exDB (scanModelType exType) False = Inr exModel"
    by (simp_all add: getModel_def scanModelType_def ex_defs)
  have gmP: "getModel exDB exType True = Inl PointerTypeRequired"
    by (simp add: getModel_def ex_defs)
  have gmN: "getModel exDB (Indirect (TPtr exType2)) False = Inl UnableToFindModel"
    "getModel exDB (scanModelType exType2) False = Inl UnableToFindModel"
    by (simp_all add: getModel_def scanModelType_def ex_defs)
  have pkA: "encodePrimaryKey specCodec exModel (exRec [0x61] [0x62]) = Inr exPkA"
    "encodePrimaryKey specCodec exModel (exRec [0x61] []) = Inr exPkA"
    using ex_encode [of "0x61"] by (simp_all add: exPkA_def)
  have pkC: "encodePrimaryKey specCodec exModel (exRec [0x63] []) = Inr exPkC"
    using ex_encode [of "0x63" "[]"] by (simp add: exPkC_def)
  have pkN: "encodePrimaryKey specCodec exModel ((exRec [0x61] [0x62])(1 := VOther 0)) = Inr exPkA"
    by (simp add: spec_eval ex_defs exPkA_def)
  have pkB: "encodePrimaryKey specCodec exModel (\<lambda>i. VOther 0) = Inl UnableToEncodeKey"
    by (simp add: spec_eval ex_defs)
  have co: "columnsOf exModel [exV, exK] = [exV, exK]" "columnsOf exModel [exV, exX] = [exV, exX]"
    by (simp_all add: columnsOf_def)
  have mo: "map_of (mfields exModel) exV = Some 1" "map_of (mfields exModel) exK = Some 0"
    "map_of (mfields exModel) exX = None"
    by (simp_all add: ex_defs)
  have kn: "list_all (knownColumn exModel) (columnsOf exModel [exV, exK])"
    "\<not> list_all (knownColumn exModel) (columnsOf exModel [exV, exX])"
    "\<not> knownColumn exModel exX" "knownColumn exModel exV"
    by (simp_all add: co knownColumn_def mo)
  have ma: "list_all (marshalsColumn exModel (exRec [0x61] [0x62])) (columnsOf exModel [exV, exK])"
    "\<not> list_all (marshalsColumn exModel ((exRec [0x61] [0x62])(1 := VOther 0)))
        (columnsOf exModel [exV, exK])"
    by (simp_all add: co marshalsColumn_def mo exRec_def)
  have sl: "sliceElem (TPtr (TSlice exType)) = Some exType"
    "sliceElem (TPtr (TSlice exType2)) = Some exType2" "sliceElem (TPtr exType) = None"
    by (simp_all add: ex_defs)
  have ty: "scanModelType exType = Indirect exType" "scanModelType exType = Indirect (TPtr exType)"
    "scanModelType exType \<noteq> Indirect exType2" "isPtr exType = False"
    by (simp_all add: scanModelType_def ex_defs)
  have rq: "length (requestedColumns exDB (TPtr exType) [exV, exK]) = 2"
    "length (requestedColumns exDB (Indirect (TPtr exType)) [exV, exK]) = 2"
    by (simp_all add: requestedColumns_def exDB_def exV_def exK_def)
  note A = structured_ops_all_or_nothing [where b = "exBatch" and c = "specCodec" and db = "exDB" and t = "TPtr exType" and v = "exRec [0x61] [0x62]" and cols = "[exV, exK]" and m = "exModel" and pk = "exPkA" and val = "1" and column = "exV" and f = "1" and destT = "TPtr (TSlice exType)" and elemT = "exType" and startT = "exType" and startV = "exRec [0x61] []" and endT = "TPtr exType" and endV = "exRec [0x63] []" and maxRows = "0" and sk = "exPkA" and ek = "exPkC" and e = "UnableToFindModel"]
  have g: "issues exBatch (GetStruct specCodec exDB exBatch (TPtr exType) (exRec [0x61] [0x62]) [exV, exK])
     [\<lparr>Args = GetRequest (encodeColumnKey exModel exPkA exV), Post = GetPost 1\<rparr>,
      \<lparr>Args = GetRequest (encodeColumnKey exModel exPkA exK), Post = GetPost 0\<rparr>] 2"
  proof -
    from A have "getModel exDB (TPtr exType) True = Inr exModel \<and>
        encodePrimaryKey specCodec exModel (exRec [0x61] [0x62]) = Inr exPkA \<and>
        list_all (knownColumn exModel) (columnsOf exModel [exV, exK]) \<longrightarrow>
        (\<exists>cs. list_all2 (getCallFor exModel exPkA) (columnsOf exModel [exV, exK]) cs \<and>
           issues exBatch (GetStruct specCodec exDB exBatch (TPtr exType) (exRec [0x61] [0x62]) [exV, exK]) cs (length cs))" by (elim conjE)
    with gm pkA kn obtain cs
      where l: "list_all2 (getCallFor exModel exPkA) (columnsOf exModel [exV, exK]) cs"
        and i: "issues exBatch (GetStruct specCodec exDB exBatch (TPtr exType) (exRec [0x61] [0x62]) [exV, exK]) cs (length cs)" by blast
    from l have "cs = [\<lparr>Args = GetRequest (encodeColumnKey exModel exPkA exV), Post = GetPost 1\<rparr>,
        \<lparr>Args = GetRequest (encodeColumnKey exModel exPkA exK), Post = GetPost 0\<rparr>]"
      by (auto simp: co list_all2_Cons1 getCallFor_def mo)
    with i show ?thesis by (simp add: numeral_2_eq_2)
  qed
  have p: "issues exBatch (PutStruct specCodec exDB exBatch (TPtr exType) (exRec [0x61] [0x62]) [exV, exK])
     [\<lparr>Args = PutRequest (encodeColumnKey exModel exPkA exV) (emptyValue\<lparr>Bytes := Some [0x62]\<rparr>),
       Post = NoPost\<rparr>,
      \<lparr>Args = PutRequest (encodeColumnKey exModel exPkA exK) (emptyValue\<lparr>Bytes := Some [0x61]\<rparr>),
       Post = NoPost\<rparr>] 2"
  proof -
    from A have "getModel exDB (Indirect (TPtr exType)) False = Inr exModel \<and>
        encodePrimaryKey specCodec exModel (exRec [0x61] [0x62]) = Inr exPkA \<and>
        list_all (marshalsColumn exModel (exRec [0x61] [0x62])) (columnsOf exModel [exV, exK]) \<longrightarrow>
        (\<exists>cs. list_all2 (putCallFor exModel exPkA (exRec [0x61] [0x62]))
               (columnsOf exModel [exV, exK]) cs \<and>
           issues exBatch (PutStruct specCodec exDB exBatch (TPtr exType) (exRec [0x61] [0x62]) [exV, exK]) cs (length cs))" by (elim conjE)
    with gm pkA ma obtain cs
      where l: "list_all2 (putCallFor exModel exPkA (exRec [0x61] [0x62]))
          (columnsOf exModel [exV, exK]) cs"
        and i: "issues exBatch (PutStruct specCodec exDB exBatch (TPtr exType) (exRec [0x61] [0x62]) [exV, exK]) cs (length cs)" by blast
    from l have "cs =
       [\<lparr>Args = PutRequest (encodeColumnKey exModel exPkA exV) (emptyValue\<lparr>Bytes := Some [0x62]\<rparr>),
          Post = NoPost\<rparr>,
        \<lparr>Args = PutRequest (encodeColumnKey exModel exPkA exK) (emptyValue\<lparr>Bytes := Some [0x61]\<rparr>),
          Post = NoPost\<rparr>]"
      by (auto simp: co list_all2_Cons1 putCallFor_def mo exRec_def)
    with i show ?thesis by (simp add: numeral_2_eq_2)
  qed
  have d: "issues exBatch (DelStruct specCodec exDB exBatch (TPtr exType) (exRec [0x61] [0x62]) [exV, exK])
     [\<lparr>Args = DeleteRequest (encodeColumnKey exModel exPkA exV), Post = NoPost\<rparr>,
      \<lparr>Args = DeleteRequest (encodeColumnKey exModel exPkA exK), Post = NoPost\<rparr>] 2"
  proof -
    from A have "getModel exDB (Indirect (TPtr exType)) False = Inr exModel \<and>
        encodePrimaryKey specCodec exModel (exRec [0x61] [0x62]) = Inr exPkA \<and>
        list_all (knownColumn exModel) (columnsOf exModel [exV, exK]) \<longrightarrow>
        (\<exists>cs. list_all2 (delCallFor exModel exPkA) (columnsOf exModel [exV, exK]) cs \<and>
           issues exBatch (DelStruct specCodec exDB exBatch (TPtr exType) (exRec [0x61] [0x62]) [exV, exK]) cs (length cs))" by (elim conjE)
    with gm pkA kn obtain cs
      where l: "list_all2 (delCallFor exModel exPkA) (columnsOf exModel [exV, exK]) cs"
        and i: "issues exBatch (DelStruct specCodec exDB exBatch (TPtr exType) (exRec [0x61] [0x62]) [exV, exK]) cs (length cs)" by blast
    from l have "cs = [\<lparr>Args = DeleteRequest (encodeColumnKey exModel exPkA exV), Post = NoPost\<rparr>,
        \<lparr>Args = DeleteRequest (encodeColumnKey exModel exPkA exK), Post = NoPost\<rparr>]"
      by (auto simp: co list_all2_Cons1 delCallFor_def mo)
    with i show ?thesis by (simp add: numeral_2_eq_2)
  qed
  have i: "issues exBatch (IncStruct specCodec exDB exBatch (TPtr exType) (exRec [0x61] [0x62]) 1 exV)
     [\<lparr>Args = IncrementRequest (encodeColumnKey exModel exPkA exV) 1, Post = IncPost 1\<rparr>] 1"
  proof -
    from A have "getModel exDB (TPtr exType) True = Inr exModel \<and>
        encodePrimaryKey specCodec exModel (exRec [0x61] [0x62]) = Inr exPkA \<and>
        map_of (mfields exModel) exV = Some 1 \<longrightarrow>
        issues exBatch (IncStruct specCodec exDB exBatch (TPtr exType) (exRec [0x61] [0x62]) 1 exV)
     [\<lparr>Args = IncrementRequest (encodeColumnKey exModel exPkA exV) 1, Post = IncPost 1\<rparr>] 1" by (elim conjE)
    with gm pkA mo show ?thesis by blast
  qed
  have s: "issues exBatch (ScanStruct specCodec exDB exBatch (TPtr (TSlice exType)) exType (exRec [0x61] []) (TPtr exType) (exRec [0x63] []) 0 [exV, exK])
     [\<lparr>Args = ScanRequest exPkA exPkC 0, Post = ScanPost exModel exType False [exV, exK]\<rparr>] 0"
  proof -
    from A have "sliceElem (TPtr (TSlice exType)) = Some exType \<and>
        getModel exDB (scanModelType exType) False = Inr exModel \<and>
        scanModelType exType = Indirect exType \<and> scanModelType exType = Indirect (TPtr exType) \<and>
        encodePrimaryKey specCodec exModel (exRec [0x61] []) = Inr exPkA \<and>
        encodePrimaryKey specCodec exModel (exRec [0x63] []) = Inr exPkC \<longrightarrow>
        issues exBatch (ScanStruct specCodec exDB exBatch (TPtr (TSlice exType)) exType (exRec [0x61] []) (TPtr exType) (exRec [0x63] []) 0 [exV, exK])
          [\<lparr>Args = ScanRequest exPkA exPkC 0,
            Post = ScanPost exModel (scanModelType exType) (isPtr exType) [exV, exK]\<rparr>] 0"
      by (elim conjE)
    with sl gm ty pkA pkC have "issues exBatch (ScanStruct specCodec exDB exBatch (TPtr (TSlice exType)) exType (exRec [0x61] []) (TPtr exType) (exRec [0x63] []) 0 [exV, exK])
          [\<lparr>Args = ScanRequest exPkA exPkC 0,
            Post = ScanPost exModel (scanModelType exType) (isPtr exType) [exV, exK]\<rparr>] 0"
      by blast
    moreover have "scanModelType exType = exType" by (simp add: scanModelType_def ex_defs)
    ultimately show ?thesis by (simp only: ty(4))
  qed
  have g1: "rejects exBatch (GetStruct specCodec exDB exBatch exType (exRec [0x61] [0x62]) [exV, exK]) PointerTypeRequired"
  proof -
    from structured_ops_all_or_nothing [where b = "exBatch" and c = "specCodec" and db = "exDB" and t = "exType" and v = "exRec [0x61] [0x62]" and cols = "[exV, exK]" and m = "exModel" and pk = "exPkA" and val = "1" and column = "exV" and f = "1" and destT = "TPtr (TSlice exType)" and elemT = "exType" and startT = "exType" and startV = "exRec [0x61] []" and endT = "TPtr exType" and endV = "exRec [0x63] []" and maxRows = "0" and sk = "exPkA" and ek = "exPkC" and e = "PointerTypeRequired"]
    have "getModel exDB exType True = Inl PointerTypeRequired \<longrightarrow>
        rejects exBatch (GetStruct specCodec exDB exBatch exType (exRec [0x61] [0x62]) [exV, exK]) PointerTypeRequired"
      by (elim conjE)
    with gmP show ?thesis by blast
  qed
  have i1: "rejects exBatch (IncStruct specCodec exDB exBatch exType (exRec [0x61] [0x62]) 1 exV) PointerTypeRequired"
  proof -
    from structured_ops_all_or_nothing [where b = "exBatch" and c = "specCodec" and db = "exDB" and t = "exType" and v = "exRec [0x61] [0x62]" and cols = "[exV, exK]" and m = "exModel" and pk = "exPkA" and val = "1" and column = "exV" and f = "1" and destT = "TPtr (TSlice exType)" and elemT = "exType" and startT = "exType" and startV = "exRec [0x61] []" and endT = "TPtr exType" and endV = "exRec [0x63] []" and maxRows = "0" and sk = "exPkA" and ek = "exPkC" and e = "PointerTypeRequired"]
    have "getModel exDB exType True = Inl PointerTypeRequired \<longrightarrow>
        rejects exBatch (IncStruct specCodec exDB exBatch exType (exRec [0x61] [0x62]) 1 exV) PointerTypeRequired"
      by (elim conjE)
    with gmP show ?thesis by blast
  qed
  have p1: "rejects exBatch (PutStruct specCodec exDB exBatch (TPtr exType2) (exRec [0x61] [0x62]) [exV, exK]) UnableToFindModel"
  proof -
    from structured_ops_all_or_nothing [where b = "exBatch" and c = "specCodec" and db = "exDB" and t = "TPtr exType2" and v = "exRec [0x61] [0x62]" and cols = "[exV, exK]" and m = "exModel" and pk = "exPkA" and val = "1" and column = "exV" and f = "1" and destT = "TPtr (TSlice exType)" and elemT = "exType" and startT = "exType" and startV = "exRec [0x61] []" and endT = "TPtr exType" and endV = "exRec [0x63] []" and maxRows = "0" and sk = "exPkA" and ek = "exPkC" and e = "UnableToFindModel"]
    have "getModel exDB (Indirect (TPtr exType2)) False = Inl UnableToFindModel \<longrightarrow>
        rejects exBatch (PutStruct specCodec exDB exBatch (TPtr exType2) (exRec [0x61] [0x62]) [exV, exK]) UnableToFindModel"
      by (elim conjE)
    with gmN show ?thesis by blast
  qed
  have d1: "rejects exBatch (DelStruct specCodec exDB exBatch (TPtr exType2) (exRec [0x61] [0x62]) [exV, exK]) UnableToFindModel"
  proof -
    from structured_ops_all_or_nothing [where b = "exBatch" and c = "specCodec" and db = "exDB" and t = "TPtr exType2" and v = "exRec [0x61] [0x62]" and cols = "[exV, exK]" and m = "exModel" and pk = "exPkA" and val = "1" and column = "exV" and f = "1" and destT = "TPtr (TSlice exType)" and elemT = "exType" and startT = "exType" and startV = "exRec [0x61] []" and endT = "TPtr exType" and endV = "exRec [0x63] []" and maxRows = "0" and sk = "exPkA" and ek = "exPkC" and e = "UnableToFindModel"]
    have "getModel exDB (Indirect (TPtr exType2)) False = Inl UnableToFindModel \<longrightarrow>
        rejects exBatch (DelStruct specCodec exDB exBatch (TPtr exType2) (exRec [0x61] [0x62]) [exV, exK]) UnableToFindModel"
      by (elim conjE)
    with gmN show ?thesis by blast
  qed
  have g2: "rejects exBatch (GetStruct specCodec exDB exBatch (TPtr exType) (\<lambda>i. VOther 0) [exV, exK]) UnableToEncodeKey"
  proof -
    from structured_ops_all_or_nothing [where b = "exBatch" and c = "specCodec" and db = "exDB" and t = "TPtr exType" and v = "\<lambda>i. VOther 0" and cols = "[exV, exK]" and m = "exModel" and pk = "exPkA" and val = "1" and column = "exV" and f = "1" and destT = "TPtr (TSlice exType)" and elemT = "exType" and startT = "exType" and startV = "exRec [0x61] []" and endT = "TPtr exType" and endV = "exRec [0x63] []" and maxRows = "0" and sk = "exPkA" and ek = "exPkC" and e = "UnableToEncodeKey"]
    have "getModel exDB (TPtr exType) True = Inr exModel \<and>
        encodePrimaryKey specCodec exModel (\<lambda>i. VOther 0) = Inl UnableToEncodeKey \<longrightarrow>
        rejects exBatch (GetStruct specCodec exDB exBatch (TPtr exType) (\<lambda>i. VOther 0) [exV, exK]) UnableToEncodeKey"
      by (elim conjE)
    with gm pkB show ?thesis by blast
  qed
  have p2: "rejects exBatch (PutStruct specCodec exDB exBatch (TPtr exType) (\<lambda>i. VOther 0) [exV, exK]) UnableToEncodeKey"
  proof -
    from structured_ops_all_or_nothing [where b = "exBatch" and c = "specCodec" and db = "exDB" and t = "TPtr exType" and v = "\<lambda>i. VOther 0" and cols = "[exV, exK]" and m = "exModel" and pk = "exPkA" and val = "1" and column = "exV" and f = "1" and destT = "TPtr (TSlice exType)" and elemT = "exType" and startT = "exType" and startV = "exRec [0x61] []" and endT = "TPtr exType" and endV = "exRec [0x63] []" and maxRows = "0" and sk = "exPkA" and ek = "exPkC" and e = "UnableToEncodeKey"]
    have "getModel exDB (Indirect (TPtr exType)) False = Inr exModel \<and>
        encodePrimaryKey specCodec exModel (\<lambda>i. VOther 0) = Inl UnableToEncodeKey \<longrightarrow>
        rejects exBatch (PutStruct specCodec exDB exBatch (TPtr exType) (\<lambda>i. VOther 0) [exV, exK]) UnableToEncodeKey"
      by (elim conjE)
    with gm pkB show ?thesis by blast
  qed
  have g3: "rejects exBatch (GetStruct specCodec exDB exBatch (TPtr exType) (exRec [0x61] [0x62]) [exV, exX]) (UnableToFindField exName exX)"
  proof -
    from structured_ops_all_or_nothing [where b = "exBatch" and c = "specCodec" and db = "exDB" and t = "TPtr exType" and v = "exRec [0x61] [0x62]" and cols = "[exV, exX]" and m = "exModel" and pk = "exPkA" and val = "1" and column = "exV" and f = "1" and destT = "TPtr (TSlice exType)" and elemT = "exType" and startT = "exType" and startV = "exRec [0x61] []" and endT = "TPtr exType" and endV = "exRec [0x63] []" and maxRows = "0" and sk = "exPkA" and ek = "exPkC" and e = "UnableToFindModel"]
    have "getModel exDB (TPtr exType) True = Inr exModel \<and>
        encodePrimaryKey specCodec exModel (exRec [0x61] [0x62]) = Inr exPkA \<and>
        \<not> list_all (knownColumn exModel) (columnsOf exModel [exV, exX]) \<longrightarrow>
        (\<exists>col\<in>set (columnsOf exModel [exV, exX]). \<not> knownColumn exModel col \<and>
           rejects exBatch (GetStruct specCodec exDB exBatch (TPtr exType) (exRec [0x61] [0x62]) [exV, exX]) (UnableToFindField (name exModel) col))"
      by (elim conjE)
    with gm pkA kn obtain col where "col \<in> set (columnsOf exModel [exV, exX])"
      "\<not> knownColumn exModel col"
      "rejects exBatch (GetStruct specCodec exDB exBatch (TPtr exType) (exRec [0x61] [0x62]) [exV, exX]) (UnableToFindField (name exModel) col)" by blast
    with kn(4) have "col = exX"
      "rejects exBatch (GetStruct specCodec exDB exBatch (TPtr exType) (exRec [0x61] [0x62]) [exV, exX]) (UnableToFindField (name exModel) col)" by (auto simp: co)
    then show ?thesis by (simp add: exModel_def)
  qed
  have d3: "rejects exBatch (DelStruct specCodec exDB exBatch (TPtr exType) (exRec [0x61] [0x62]) [exV, exX]) (UnableToFindField exName exX)"
  proof -
    from structured_ops_all_or_nothing [where b = "exBatch" and c = "specCodec" and db = "exDB" and t = "TPtr exType" and v = "exRec [0x61] [0x62]" and cols = "[exV, exX]" and m = "exModel" and pk = "exPkA" and val = "1" and column = "exV" and f = "1" and destT = "TPtr (TSlice exType)" and elemT = "exType" and startT = "exType" and startV = "exRec [0x61] []" and endT = "TPtr exType" and endV = "exRec [0x63] []" and maxRows = "0" and sk = "exPkA" and ek = "exPkC" and e = "UnableToFindModel"]
    have "getModel exDB (Indirect (TPtr exType)) False = Inr exModel \<and>
        encodePrimaryKey specCodec exModel (exRec [0x61] [0x62]) = Inr exPkA \<and>
        \<not> list_all (knownColumn exModel) (columnsOf exModel [exV, exX]) \<longrightarrow>
        (\<exists>col\<in>set (columnsOf exModel [exV, exX]). \<not> knownColumn exModel col \<and>
           rejects exBatch (DelStruct specCodec exDB exBatch (TPtr exType) (exRec [0x61] [0x62]) [exV, exX]) (UnableToFindField (name exModel) col))"
      by (elim conjE)
    with gm pkA kn obtain col where "col \<in> set (columnsOf exModel [exV, exX])"
      "\<not> knownColumn exModel col"
      "rejects exBatch (DelStruct specCodec exDB exBatch (TPtr exType) (exRec [0x61] [0x62]) [exV, exX]) (UnableToFindField (name exModel) col)" by blast
    with kn(4) have "col = exX"
      "rejects exBatch (DelStruct specCodec exDB exBatch (TPtr exType) (exRec [0x61] [0x62]) [exV, exX]) (UnableToFindField (name exModel) col)" by (auto simp: co)
    then show ?thesis by (simp add: exModel_def)
  qed
  have i3: "rejects exBatch (IncStruct specCodec exDB exBatch (TPtr exType) (exRec [0x61] [0x62]) 1 exX) (UnableToFindField exName exX)"
  proof -
    from structured_ops_all_or_nothing [where b = "exBatch" and c = "specCodec" and db = "exDB" and t = "TPtr exType" and v = "exRec [0x61] [0x62]" and cols = "[exV, exK]" and m = "exModel" and pk = "exPkA" and val = "1" and column = "exX" and f = "1" and destT = "TPtr (TSlice exType)" and elemT = "exType" and startT = "exType" and startV = "exRec [0x61] []" and endT = "TPtr exType" and endV = "exRec [0x63] []" and maxRows = "0" and sk = "exPkA" and ek = "exPkC" and e = "UnableToFindModel"]
    have "getModel exDB (TPtr exType) True = Inr exModel \<and>
        encodePrimaryKey specCodec exModel (exRec [0x61] [0x62]) = Inr exPkA \<and>
        \<not> knownColumn exModel exX \<longrightarrow>
        rejects exBatch (IncStruct specCodec exDB exBatch (TPtr exType) (exRec [0x61] [0x62]) 1 exX) (UnableToFindField (name exModel) exX)"
      by (elim conjE)
    with gm pkA kn have "rejects exBatch (IncStruct specCodec exDB exBatch (TPtr exType) (exRec [0x61] [0x62]) 1 exX) (UnableToFindField (name exModel) exX)"
      by blast
    then show ?thesis by (simp add: exModel_def)
  qed
  have p3: "rejects exBatch (PutStruct specCodec exDB exBatch (TPtr exType) ((exRec [0x61] [0x62])(1 := VOther 0)) [exV, exK]) UnableToMarshalValue"
  proof -
    from structured_ops_all_or_nothing [where b = "exBatch" and c = "specCodec" and db = "exDB" and t = "TPtr exType" and v = "(exRec [0x61] [0x62])(1 := VOther 0)" and cols = "[exV, exK]" and m = "exModel" and pk = "exPkA" and val = "1" and column = "exV" and f = "1" and destT = "TPtr (TSlice exType)" and elemT = "exType" and startT = "exType" and startV = "exRec [0x61] []" and endT = "TPtr exType" and endV = "exRec [0x63] []" and maxRows = "0" and sk = "exPkA" and ek = "exPkC" and e = "UnableToFindModel"]
    have "getModel exDB (Indirect (TPtr exType)) False = Inr exModel \<and>
        encodePrimaryKey specCodec exModel ((exRec [0x61] [0x62])(1 := VOther 0)) = Inr exPkA \<and>
        \<not> list_all (marshalsColumn exModel ((exRec [0x61] [0x62])(1 := VOther 0)))
            (columnsOf exModel [exV, exK]) \<longrightarrow>
        (\<exists>col\<in>set (columnsOf exModel [exV, exK]).
           \<not> marshalsColumn exModel ((exRec [0x61] [0x62])(1 := VOther 0)) col \<and>
           (\<exists>e'. rejects exBatch (PutStruct specCodec exDB exBatch (TPtr exType) ((exRec [0x61] [0x62])(1 := VOther 0)) [exV, exK]) e' \<and>
              (if knownColumn exModel col
               then (\<exists>f. map_of (mfields exModel) col = Some f \<and>
                       marshalTableValue (((exRec [0x61] [0x62])(1 := VOther 0)) f) = Inl e')
               else e' = UnableToFindField (name exModel) col)))"
      by (elim conjE)
    with gm pkN ma obtain col e' where c: "col \<in> set (columnsOf exModel [exV, exK])"
      and r: "rejects exBatch (PutStruct specCodec exDB exBatch (TPtr exType) ((exRec [0x61] [0x62])(1 := VOther 0)) [exV, exK]) e'"
      and w: "if knownColumn exModel col
               then (\<exists>f. map_of (mfields exModel) col = Some f \<and>
                       marshalTableValue (((exRec [0x61] [0x62])(1 := VOther 0)) f) = Inl e')
               else e' = UnableToFindField (name exModel) col" by blast
    from c have "col = exV \<or> col = exK" by (auto simp: co)
    with w have "e' = UnableToMarshalValue \<or>
        marshalTableValue (((exRec [0x61] [0x62])(1 := VOther 0)) 0) = Inl e'"
      by (auto simp: knownColumn_def mo)
    then have "e' = UnableToMarshalValue" by (simp add: exRec_def emptyValue_def)
    with r show ?thesis by simp
  qed
  have s1: "rejects exBatch (ScanStruct specCodec exDB exBatch (TPtr exType) exType (exRec [0x61] []) (TPtr exType) (exRec [0x63] []) 0 [exV, exK]) DestNotPointerToSlice"
  proof -
    from structured_ops_all_or_nothing [where b = "exBatch" and c = "specCodec" and db = "exDB" and t = "TPtr exType" and v = "exRec [0x61] [0x62]" and cols = "[exV, exK]" and m = "exModel" and pk = "exPkA" and val = "1" and column = "exV" and f = "1" and destT = "TPtr exType" and elemT = "exType" and startT = "exType" and startV = "exRec [0x61] []" and endT = "TPtr exType" and endV = "exRec [0x63] []" and maxRows = "0" and sk = "exPkA" and ek = "exPkC" and e = "UnableToFindModel"]
    have "sliceElem (TPtr exType) = None \<longrightarrow>
        rejects exBatch (ScanStruct specCodec exDB exBatch (TPtr exType) exType (exRec [0x61] []) (TPtr exType) (exRec [0x63] []) 0 [exV, exK]) DestNotPointerToSlice"
      by (elim conjE)
    with sl show ?thesis by blast
  qed
  have s2: "rejects exBatch (ScanStruct specCodec exDB exBatch (TPtr (TSlice exType2)) exType (exRec [0x61] []) (TPtr exType) (exRec [0x63] []) 0 [exV, exK]) UnableToFindModel"
  proof -
    from structured_ops_all_or_nothing [where b = "exBatch" and c = "specCodec" and db = "exDB" and t = "TPtr exType" and v = "exRec [0x61] [0x62]" and cols = "[exV, exK]" and m = "exModel" and pk = "exPkA" and val = "1" and column = "exV" and f = "1" and destT = "TPtr (TSlice exType2)" and elemT = "exType2" and startT = "exType" and startV = "exRec [0x61] []" and endT = "TPtr exType" and endV = "exRec [0x63] []" and maxRows = "0" and sk = "exPkA" and ek = "exPkC" and e = "UnableToFindModel"]
    have "sliceElem (TPtr (TSlice exType2)) = Some exType2 \<and>
        getModel exDB (scanModelType exType2) False = Inl UnableToFindModel \<longrightarrow>
        rejects exBatch (ScanStruct specCodec exDB exBatch (TPtr (TSlice exType2)) exType (exRec [0x61] []) (TPtr exType) (exRec [0x63] []) 0 [exV, exK]) UnableToFindModel"
      by (elim conjE)
    with sl gmN show ?thesis by blast
  qed
  have s3: "rejects exBatch (ScanStruct specCodec exDB exBatch (TPtr (TSlice exType)) exType2 (exRec [0x61] []) (TPtr exType) (exRec [0x63] []) 0 [exV, exK]) IncompatibleStartKeyType"
  proof -
    from structured_ops_all_or_nothing [where b = "exBatch" and c = "specCodec" and db = "exDB" and t = "TPtr exType" and v = "exRec [0x61] [0x62]" and cols = "[exV, exK]" and m = "exModel" and pk = "exPkA" and val = "1" and column = "exV" and f = "1" and destT = "TPtr (TSlice exType)" and elemT = "exType" and startT = "exType2" and startV = "exRec [0x61] []" and endT = "TPtr exType" and endV = "exRec [0x63] []" and maxRows = "0" and sk = "exPkA" and ek = "exPkC" and e = "UnableToFindModel"]
    have "sliceElem (TPtr (TSlice exType)) = Some exType \<and>
        getModel exDB (scanModelType exType) False = Inr exModel \<and>
        scanModelType exType \<noteq> Indirect exType2 \<longrightarrow>
        rejects exBatch (ScanStruct specCodec exDB exBatch (TPtr (TSlice exType)) exType2 (exRec [0x61] []) (TPtr exType) (exRec [0x63] []) 0 [exV, exK]) IncompatibleStartKeyType"
      by (elim conjE)
    with sl gm ty show ?thesis by blast
  qed
  have s4: "rejects exBatch (ScanStruct specCodec exDB exBatch (TPtr (TSlice exType)) exType (exRec [0x61] []) exType2 (exRec [0x63] []) 0 [exV, exK]) IncompatibleEndKeyType"
  proof -
    from structured_ops_all_or_nothing [where b = "exBatch" and c = "specCodec" and db = "exDB" and t = "TPtr exType" and v = "exRec [0x61] [0x62]" and cols = "[exV, exK]" and m = "exModel" and pk = "exPkA" and val = "1" and column = "exV" and f = "1" and destT = "TPtr (TSlice exType)" and elemT = "exType" and startT = "exType" and startV = "exRec [0x61] []" and endT = "exType2" and endV = "exRec [0x63] []" and maxRows = "0" and sk = "exPkA" and ek = "exPkC" and e = "UnableToFindModel"]
    have "sliceElem (TPtr (TSlice exType)) = Some exType \<and>
        getModel exDB (scanModelType exType) False = Inr exModel \<and>
        scanModelType exType = Indirect exType \<and> scanModelType exType \<noteq> Indirect exType2 \<longrightarrow>
        rejects exBatch (ScanStruct specCodec exDB exBatch (TPtr (TSlice exType)) exType (exRec [0x61] []) exType2 (exRec [0x63] []) 0 [exV, exK]) IncompatibleEndKeyType"
      by (elim conjE)
    with sl gm ty show ?thesis by blast
  qed
  have s5: "rejects exBatch (ScanStruct specCodec exDB exBatch (TPtr (TSlice exType)) exType (\<lambda>i. VOther 0) (TPtr exType) (exRec [0x63] []) 0 [exV, exK]) UnableToEncodeKey"
  proof -
    from structured_ops_all_or_nothing [where b = "exBatch" and c = "specCodec" and db = "exDB" and t = "TPtr exType" and v = "exRec [0x61] [0x62]" and cols = "[exV, exK]" and m = "exModel" and pk = "exPkA" and val = "1" and column = "exV" and f = "1" and destT = "TPtr (TSlice exType)" and elemT = "exType" and startT = "exType" and startV = "\<lambda>i. VOther 0" and endT = "TPtr exType" and endV = "exRec [0x63] []" and maxRows = "0" and sk = "exPkA" and ek = "exPkC" and e = "UnableToEncodeKey"]
    have "sliceElem (TPtr (TSlice exType)) = Some exType \<and>
        getModel exDB (scanModelType exType) False = Inr exModel \<and>
        scanModelType exType = Indirect exType \<and>
        scanModelType exType = Indirect (TPtr exType) \<and>
        encodePrimaryKey specCodec exModel (\<lambda>i. VOther 0) = Inl UnableToEncodeKey \<longrightarrow>
        rejects exBatch (ScanStruct specCodec exDB exBatch (TPtr (TSlice exType)) exType (\<lambda>i. VOther 0) (TPtr exType) (exRec [0x63] []) 0 [exV, exK]) UnableToEncodeKey"
      by (elim conjE)
    with sl gm ty pkB show ?thesis by blast
  qed
  have s6: "rejects exBatch (ScanStruct specCodec exDB exBatch (TPtr (TSlice exType)) exType (exRec [0x61] []) (TPtr exType) (\<lambda>i. VOther 0) 0 [exV, exK]) UnableToEncodeKey"
  proof -
    from structured_ops_all_or_nothing [where b = "exBatch" and c = "specCodec" and db = "exDB" and t = "TPtr exType" and v = "exRec [0x61] [0x62]" and cols = "[exV, exK]" and m = "exModel" and pk = "exPkA" and val = "1" and column = "exV" and f = "1" and destT = "TPtr (TSlice exType)" and elemT = "exType" and startT = "exType" and startV = "exRec [0x61] []" and endT = "TPtr exType" and endV = "\<lambda>i. VOther 0" and maxRows = "0" and sk = "exPkA" and ek = "exPkC" and e = "UnableToEncodeKey"]
    have "sliceElem (TPtr (TSlice exType)) = Some exType \<and>
        getModel exDB (scanModelType exType) False = Inr exModel \<and>
        scanModelType exType = Indirect exType \<and>
        scanModelType exType = Indirect (TPtr exType) \<and>
        encodePrimaryKey specCodec exModel (exRec [0x61] []) = Inr exPkA \<and>
        encodePrimaryKey specCodec exModel (\<lambda>i. VOther 0) = Inl UnableToEncodeKey \<longrightarrow>
        rejects exBatch (ScanStruct specCodec exDB exBatch (TPtr (TSlice exType)) exType (exRec [0x61] []) (TPtr exType) (\<lambda>i. VOther 0) 0 [exV, exK]) UnableToEncodeKey"
      by (elim conjE)
    with sl gm ty pkA pkB show ?thesis by blast
  qed
  from A have "allOrNothing exBatch (GetStruct specCodec exDB exBatch (TPtr exType) (exRec [0x61] [0x62]) [exV, exK])
      (length (requestedColumns exDB (TPtr exType) [exV, exK]))" by (elim conjE)
  then have ag: "allOrNothing exBatch (GetStruct specCodec exDB exBatch (TPtr exType) (exRec [0x61] [0x62]) [exV, exK]) 2" by (simp only: rq)
  from A have "allOrNothing exBatch (PutStruct specCodec exDB exBatch (TPtr exType) (exRec [0x61] [0x62]) [exV, exK])
      (length (requestedColumns exDB (Indirect (TPtr exType)) [exV, exK]))" by (elim conjE)
  then have ap: "allOrNothing exBatch (PutStruct specCodec exDB exBatch (TPtr exType) (exRec [0x61] [0x62]) [exV, exK]) 2" by (simp only: rq)
  from A have ai: "allOrNothing exBatch (IncStruct specCodec exDB exBatch (TPtr exType) (exRec [0x61] [0x62]) 1 exV) 1" by (elim conjE)
  from A have as: "allOrNothing exBatch (ScanStruct specCodec exDB exBatch (TPtr (TSlice exType)) exType (exRec [0x61] []) (TPtr exType) (exRec [0x63] []) 0 [exV, exK]) 1" by (elim conjE)
  from A have "allOrNothing exBatch (DelStruct specCodec exDB exBatch (TPtr exType) (exRec [0x61] [0x62]) [exV, exK])
      (length (requestedColumns exDB (Indirect (TPtr exType)) [exV, exK]))" by (elim conjE)
  then have ad: "allOrNothing exBatch (DelStruct specCodec exDB exBatch (TPtr exType) (exRec [0x61] [0x62]) [exV, exK]) 2" by (simp only: rq)
  from g p i s d g1 i1 p1 d1 g2 p2 g3 d3 i3 p3 s1 s2 s3 s4 s5 s6 ag ap ai as ad
  show ?thesis by (intro conjI)
qed

section \<open>Binding\<close>

lemma encodeTableKey_error: "encodeTableKey c b x = Inl e \<Longrightarrow> e = UnableToEncodeKey"
  by (cases x) (auto split: if_splits)

lemma encodeKeyColumns_unknown:
  "\<exists>col\<in>set cols. map_of (mfields m) col = None \<Longrightarrow>
   \<exists>e. encodeKeyColumns c m v cols key = Inl e \<and>
       (e = UnableToEncodeKey \<or>
        (\<exists>col\<in>set cols. map_of (mfields m) col = None \<and> e = UnableToFindField (name m) col))"
proof (induction cols arbitrary: key)
  case Nil
  then show ?case by simp
next
  case (Cons col cols)
  show ?case
  proof (cases "map_of (mfields m) col")
    case None
    then show ?thesis by auto
  next
    case (Some f)
    with Cons.prems have rest: "\<exists>col\<in>set cols. map_of (mfields m) col = None" by auto
    show ?thesis
    proof (cases "encodeTableKey c key (v f)")
      case (Inl e)
      with Some encodeTableKey_error [OF Inl] show ?thesis by simp
    next
      case (Inr key')
      from Cons.IH [OF rest, of key'] Some Inr show ?thesis by auto
    qed
  qed
qed

text \<open>
  C5, as claimed, fails: \<^verbatim>\<open>BindModel\<close> does not look the primary-key columns up.
  Binding the example type with the primary key X, which is not one of its fields,
  returns no error.
\<close>

theorem bind_unknown_pk_counterexample:
  "map_of [(exK, 0::nat), (exV, 1)] exX = None \<and>
   exFields exType = Inr [(exK, 0), (exV, 1)] \<and>
   fst (BindModel exFields Map.empty exName exType [exX]) = None"
  by (simp add: ex_defs BindModel_def)

text \<open>
  C5, amended. When the record type is not bound yet and its fields can be computed,
  \<^verbatim>\<open>BindModel\<close> returns no error and registers the binding with the primary-key names
  as given. A primary-key column that is not a field of the type is reported later, by
  \<^verbatim>\<open>encodePrimaryKey\<close> (the first step of every structured operation): it fails, with
  "unable to find field" for such a column unless a column before it could not be
  encoded.
\<close>

theorem bind_defers_primary_key_check:
  assumes "db (deref t) = None" and "getDBFields (deref t) = Inr fs"
  shows "\<exists>m. BindModel getDBFields db nm t pk = (None, db(deref t \<mapsto> m)) \<and>
           name m = nm \<and> mfields m = fs \<and> primaryKey m = pk \<and>
           ((\<exists>col\<in>set pk. map_of fs col = None) \<longrightarrow>
            (\<exists>e. encodePrimaryKey c m v = Inl e \<and>
                 (e = UnableToEncodeKey \<or>
                  (\<exists>col\<in>set pk. map_of fs col = None \<and> e = UnableToFindField nm col))))"
proof -
  define m where "m = \<lparr>name = nm, mfields = fs, primaryKey = pk,
                       otherColumns = filter (\<lambda>col. col \<notin> set pk) (map fst fs)\<rparr>"
  have b: "BindModel getDBFields db nm t pk = (None, db(deref t \<mapsto> m))"
    using assms by (simp add: BindModel_def Let_def m_def)
  have sel: "name m = nm" "mfields m = fs" "primaryKey m = pk" by (simp_all add: m_def)
  have "(\<exists>col\<in>set pk. map_of fs col = None) \<longrightarrow>
        (\<exists>e. encodePrimaryKey c m v = Inl e \<and>
             (e = UnableToEncodeKey \<or>
              (\<exists>col\<in>set pk. map_of fs col = None \<and> e = UnableToFindField nm col)))"
    using encodeKeyColumns_unknown [of pk m c v "EncodeBytes c [] nm"]
    by (simp add: encodePrimaryKey_def sel)
  with b sel show ?thesis by blast
qed

theorem bind_defers_primary_key_check_witness:
  "BindModel exFields Map.empty exName exType [exX] =
     (None, Map.empty(exType \<mapsto> \<lparr>name = exName, mfields = [(exK, 0), (exV, 1)],
        primaryKey = [exX], otherColumns = [exK, exV]\<rparr>)) \<and>
   encodePrimaryKey specCodec \<lparr>name = exName, mfields = [(exK, 0), (exV, 1)],
        primaryKey = [exX], otherColumns = [exK, exV]\<rparr> (exRec [0x61] [0x62]) =
     Inl (UnableToFindField exName exX)"
  using bind_defers_primary_key_check [of Map.empty exType exFields "[(exK, 0), (exV, 1)]"
      exName "[exX]" specCodec "exRec [0x61] [0x62]"]
  by (simp add: ex_defs BindModel_def encodePrimaryKey_def)

text \<open>
  C6, as claimed, fails in its second part: \<^verbatim>\<open>BindModel\<close> keys the registry by record
  type and never compares table names. With the table kv bound to the example type,
  binding another type to kv succeeds and adds a binding.
\<close>

theorem bind_same_name_counterexample:
  "snd (BindModel exFields Map.empty exName exType [exK]) = exDB \<and>
   name exModel = exName \<and> exType2 \<noteq> exType \<and>
   fst (BindModel exFields exDB exName exType2 [exK]) = None \<and>
   snd (BindModel exFields exDB exName exType2 [exK]) exType2 \<noteq> None"
  by (simp add: ex_defs BindModel_def)

text \<open>
  C6, amended. Binding a record type that is already bound (directly or through a
  pointer to it) fails with "already defined" and leaves the registry as it was; so does
  every second binding of a type that was just bound. A failed binding never changes the
  registry. Table names are not compared: a type that is not bound yet and whose fields
  can be computed is bound whatever the name.
\<close>

theorem bind_same_type_twice:
  "(db (deref t) \<noteq> None \<longrightarrow> BindModel gf db nm t pk = (Some (AlreadyDefined nm), db)) \<and>
   (fst (BindModel gf db nm t pk) = None \<longrightarrow>
      BindModel gf (snd (BindModel gf db nm t pk)) nm' t pk' =
        (Some (AlreadyDefined nm'), snd (BindModel gf db nm t pk))) \<and>
   (fst (BindModel gf db nm t pk) \<noteq> None \<longrightarrow> snd (BindModel gf db nm t pk) = db) \<and>
   (db (deref t) = None \<longrightarrow> gf (deref t) = Inr fs \<longrightarrow> fst (BindModel gf db nm t pk) = None)"
  by (auto simp: BindModel_def Let_def split: sum.splits)

theorem bind_same_type_twice_witness:
  "fst (BindModel exFields Map.empty exName exType [exK]) = None \<and>
   BindModel exFields (snd (BindModel exFields Map.empty exName exType [exK])) exX (TPtr exType) [exV] =
     (Some (AlreadyDefined exX), snd (BindModel exFields Map.empty exName exType [exK]))"
  using bind_same_type_twice [of Map.empty exType exFields exName "[exK]" exX "[exV]"]
    bind_same_type_twice [of "snd (BindModel exFields Map.empty exName exType [exK])" "TPtr exType"
      exFields exX "[exV]"]
  by (simp add: ex_defs BindModel_def)

section \<open>Decoding a primary key\<close>

text \<open>
  C7. \<^verbatim>\<open>decodePrimaryKey\<close> decodes the table name first. When the name differs from the
  model's it returns "unexpected table name" and the record is as it was; in particular
  so for a key that was encoded for a model with another name. When the name is the
  model's, the primary-key columns are decoded from the bytes that follow, in the order
  of the model's primary key: a key encoded from a record decodes, whatever follows it,
  the bytes that follow are returned, and the fields outside the primary key are as they
  were. The decoded record has the same primary key when the key was encoded from values
  that the fields can hold (a decoded integer or float is stored with the width of its
  field).
\<close>

theorem decodePrimaryKey_table_name_first:
  "(DecodeBytes c key = Some (key', nm) \<longrightarrow> sliceBytes nm \<noteq> name m \<longrightarrow>
      decodePrimaryKey c m key v = (Inl (UnexpectedTableName (name m) (sliceBytes nm)), v)) \<and>
   (DecodeBytes c key = Some (key', nm) \<longrightarrow> sliceBytes nm = name m \<longrightarrow>
      decodePrimaryKey c m key v = decodeKeyColumns c m (primaryKey m) key' v) \<and>
   (codec_ok c \<longrightarrow> encodePrimaryKey c m' r = Inr p \<longrightarrow> name m' \<noteq> name m \<longrightarrow>
      decodePrimaryKey c m (p @ rest) v = (Inl (UnexpectedTableName (name m) (name m')), v)) \<and>
   (codec_ok c \<longrightarrow> encodePrimaryKey c m r = Inr p \<longrightarrow>
      (\<forall>f\<in>pkFields m. kindOf (v f) = kindOf (r f)) \<longrightarrow>
      (\<exists>v1. decodePrimaryKey c m (p @ rest) v = (Inr rest, v1) \<and>
            ((\<forall>f\<in>pkFields m. validValue (r f)) \<longrightarrow> encodePrimaryKey c m v1 = Inr p) \<and>
            (\<forall>f. f \<notin> pkFields m \<longrightarrow> v1 f = v f)))"
proof (intro conjI impI)
  assume "DecodeBytes c key = Some (key', nm)" "sliceBytes nm \<noteq> name m"
  then show "decodePrimaryKey c m key v = (Inl (UnexpectedTableName (name m) (sliceBytes nm)), v)"
    by (simp add: decodePrimaryKey_def)
next
  assume "DecodeBytes c key = Some (key', nm)" "sliceBytes nm = name m"
  then show "decodePrimaryKey c m key v = decodeKeyColumns c m (primaryKey m) key' v"
    by (simp add: decodePrimaryKey_def)
next
  assume "codec_ok c" "encodePrimaryKey c m' r = Inr p" "name m' \<noteq> name m"
  then show "decodePrimaryKey c m (p @ rest) v = (Inl (UnexpectedTableName (name m) (name m')), v)"
    by (rule decodePrimaryKey_other_table)
next
  assume "codec_ok c" "encodePrimaryKey c m r = Inr p" "\<forall>f\<in>pkFields m. kindOf (v f) = kindOf (r f)"
  from decodePrimaryKey_encoded [OF this, of rest]
  show "\<exists>v1. decodePrimaryKey c m (p @ rest) v = (Inr rest, v1) \<and>
            ((\<forall>f\<in>pkFields m. validValue (r f)) \<longrightarrow> encodePrimaryKey c m v1 = Inr p) \<and>
            (\<forall>f. f \<notin> pkFields m \<longrightarrow> v1 f = v f)"
    by blast
qed

theorem decodePrimaryKey_table_name_first_witness:
  "decodePrimaryKey specCodec exModel [0x6B, 0x77, 0, 1, 0x61, 0, 1, 0x56] (exRec [] [0x7A]) =
     (Inl (UnexpectedTableName exName [0x6B, 0x77]), exRec [] [0x7A]) \<and>
   codec_ok specCodec \<and>
   encodePrimaryKey specCodec exModel (exRec [0x61] [0x62]) = Inr [0x6B, 0x76, 0, 1, 0x61, 0, 1] \<and>
   (\<exists>v1. decodePrimaryKey specCodec exModel ([0x6B, 0x76, 0, 1, 0x61, 0, 1] @ [0x56])
            (exRec [] [0x7A]) = (Inr [0x56], v1) \<and>
         encodePrimaryKey specCodec exModel v1 = Inr [0x6B, 0x76, 0, 1, 0x61, 0, 1] \<and>
         v1 1 = VString [0x7A])"
proof -
  have d: "DecodeBytes specCodec [0x6B, 0x77, 0, 1, 0x61, 0, 1, 0x56] =
             Some ([0x61, 0, 1, 0x56], Some [0x6B, 0x77])"
    by (simp add: spec_eval)
  have sl: "sliceBytes (Some [0x6B, 0x77]) = [0x6B, 0x77]"
    by (simp add: sliceBytes_def)
  have nm: "name exModel = exName"
    by (simp add: exModel_def)
  have n: "sliceBytes (Some [0x6B, 0x77]) \<noteq> name exModel"
    by (simp add: sliceBytes_def exModel_def exName_def)
  have r1: "exRec [] [0x7A] 1 = VString [0x7A]"
    by (simp add: exRec_def)
  have e: "encodePrimaryKey specCodec exModel (exRec [0x61] [0x62]) =
             Inr [0x6B, 0x76, 0, 1, 0x61, 0, 1]"
    by (simp add: spec_eval ex_defs)
  have k: "\<forall>f\<in>pkFields exModel. kindOf (exRec [] [0x7A] f) = kindOf (exRec [0x61] [0x62] f)"
    by (simp add: exRec_def)
  have vl: "\<forall>f\<in>pkFields exModel. validValue (exRec [0x61] [0x62] f)"
    by (simp add: exRec_def)
  have o: "1 \<notin> pkFields exModel"
    by (simp add: pkFields_def keyFields_def List.map_filter_def ex_defs)
  note T = decodePrimaryKey_table_name_first [of specCodec "[0x6B, 0x77, 0, 1, 0x61, 0, 1, 0x56]"
      "[0x61, 0, 1, 0x56]" "Some [0x6B, 0x77]" exModel "exRec [] [0x7A]" exModel
      "exRec [0x61] [0x62]" "[0x6B, 0x76, 0, 1, 0x61, 0, 1]" "[0x56]"]
  from T d n have c1:
    "decodePrimaryKey specCodec exModel [0x6B, 0x77, 0, 1, 0x61, 0, 1, 0x56] (exRec [] [0x7A]) =
       (Inl (UnexpectedTableName exName [0x6B, 0x77]), exRec [] [0x7A])"
    unfolding sl nm by blast
  from T codec_ok_specCodec e k vl obtain v1 where
    v1: "decodePrimaryKey specCodec exModel ([0x6B, 0x76, 0, 1, 0x61, 0, 1] @ [0x56])
           (exRec [] [0x7A]) = (Inr [0x56], v1)"
       "encodePrimaryKey specCodec exModel v1 = Inr [0x6B, 0x76, 0, 1, 0x61, 0, 1]"
       "\<forall>f. f \<notin> pkFields exModel \<longrightarrow> v1 f = exRec [] [0x7A] f"
    by blast
  from v1(3) o have "v1 1 = exRec [] [0x7A] 1" by blast
  with r1 have c4: "v1 1 = VString [0x7A]" by simp
  from c1 codec_ok_specCodec e v1(1,2) c4 show ?thesis by blast
qed

section \<open>Column keys on the heap\<close>

lemma goAppend_owned:
  assumes "owned n h s" "n \<le> nextArr h" "goAppend slack h s xs = (h', s')"
  shows "sliceContents h' s' = sliceContents h s @ xs \<and> owned n h' s' \<and>
         nextArr h \<le> nextArr h' \<and> (\<forall>a. a < n \<longrightarrow> arrays h' a = arrays h a)"
proof (cases "len s + length xs \<le> cap s")
  case True
  show ?thesis
  proof (cases "arr s")
    case None
    with True assms show ?thesis
      by (auto simp: goAppend_def owned_def sliceContents_def)
  next
    case (Some a)
    with True assms show ?thesis
      by (auto simp: goAppend_def owned_def sliceContents_def)
  qed
next
  case False
  with assms show ?thesis
    by (auto simp: goAppend_def owned_def sliceContents_def Let_def split: option.splits)
qed

lemma owned_nilSlice: "owned n h nilSlice"
  by (simp add: owned_def nilSlice_def)

lemma sliceContents_nilSlice: "sliceContents h nilSlice = []"
  by (simp add: sliceContents_def nilSlice_def)

lemma owned_freshIn: "owned (nextArr h) h' s \<Longrightarrow> freshIn h h' s"
  by (auto simp: owned_def freshIn_def split: option.splits)

lemma sameArrays_contents:
  "sameArrays h h' \<Longrightarrow> validSlice h s \<Longrightarrow> sliceContents h' s = sliceContents h s"
  by (auto simp: sameArrays_def validSlice_def sliceContents_def split: option.splits)

lemma sameArrays_valid: "sameArrays h h' \<Longrightarrow> validSlice h s \<Longrightarrow> validSlice h' s"
  by (auto simp: sameArrays_def validSlice_def split: option.splits)

lemma sameArrays_trans: "sameArrays h h1 \<Longrightarrow> sameArrays h1 h2 \<Longrightarrow> sameArrays h h2"
  by (auto simp: sameArrays_def)

lemma freshIn_valid: "freshIn h h' s \<Longrightarrow> validSlice h' s"
  by (auto simp: freshIn_def validSlice_def split: option.splits)

lemma freshIn_mono:
  "freshIn h1 h2 s \<Longrightarrow> nextArr h \<le> nextArr h1 \<Longrightarrow> nextArr h2 \<le> nextArr h3 \<Longrightarrow> freshIn h h3 s"
  by (auto simp: freshIn_def split: option.splits)

lemma encodeColumnKey_heap_props:
  assumes "encodeColumnKey_heap slack h pk col = (h', key)"
  shows "sliceContents h' key = encodeColumnKey m (sliceContents h pk) col \<and>
         sameArrays h h' \<and> freshIn h h' key"
proof -
  obtain h1 key1 where a1: "goAppend slack h nilSlice (sliceContents h pk) = (h1, key1)"
    by (cases "goAppend slack h nilSlice (sliceContents h pk)")
  with assms have a2: "goAppend slack h1 key1 col = (h', key)"
    by (simp add: encodeColumnKey_heap_def)
  from goAppend_owned [OF owned_nilSlice _ a1, of "nextArr h"]
  have c1: "sliceContents h1 key1 = sliceContents h pk" and o1: "owned (nextArr h) h1 key1"
    and n1: "nextArr h \<le> nextArr h1" and f1: "\<forall>a. a < nextArr h \<longrightarrow> arrays h1 a = arrays h a"
    by (simp_all add: sliceContents_nilSlice)
  from goAppend_owned [OF o1 n1 a2]
  have c2: "sliceContents h' key = sliceContents h1 key1 @ col" and o2: "owned (nextArr h) h' key"
    and n2: "nextArr h1 \<le> nextArr h'" and f2: "\<forall>a. a < nextArr h \<longrightarrow> arrays h' a = arrays h1 a"
    by simp_all
  have "sliceContents h' key = encodeColumnKey m (sliceContents h pk) col"
    using c1 c2 by (simp add: encodeColumnKey_def)
  moreover have "sameArrays h h'" using n1 n2 f1 f2 by (simp add: sameArrays_def)
  moreover have "freshIn h h' key" using o2 by (rule owned_freshIn)
  ultimately show ?thesis by simp
qed

lemma encodeColumnKeys_props:
  "encodeColumnKeys slack h pk cols = (h', keys) \<Longrightarrow> validSlice h pk \<Longrightarrow>
   map (sliceContents h') keys = map (encodeColumnKey m (sliceContents h pk)) cols \<and>
   sameArrays h h' \<and> (\<forall>k\<in>set keys. freshIn h h' k) \<and>
   distinct (List.map_filter arr keys)"
proof (induction cols arbitrary: h keys h')
  case Nil
  then show ?case by (simp add: sameArrays_def List.map_filter_def)
next
  case (Cons col cols)
  obtain h1 key where k: "encodeColumnKey_heap slack h pk col = (h1, key)"
    by (cases "encodeColumnKey_heap slack h pk col")
  obtain h2 keys' where ks: "encodeColumnKeys slack h1 pk cols = (h2, keys')"
    by (cases "encodeColumnKeys slack h1 pk cols")
  from Cons.prems(1) k ks have eq: "h' = h2" "keys = key # keys'" by simp_all
  from encodeColumnKey_heap_props [OF k, of m]
  have p: "sliceContents h1 key = encodeColumnKey m (sliceContents h pk) col"
    "sameArrays h h1" "freshIn h h1 key" by simp_all
  have v1: "validSlice h1 pk" using p(2) Cons.prems(2) by (rule sameArrays_valid)
  from Cons.IH [OF ks v1]
  have i1: "map (sliceContents h2) keys' = map (encodeColumnKey m (sliceContents h1 pk)) cols"
    and i2: "sameArrays h1 h2" and i3: "\<forall>k\<in>set keys'. freshIn h1 h2 k"
    and i4: "distinct (List.map_filter arr keys')" by simp_all
  have pk1: "sliceContents h1 pk = sliceContents h pk"
    using p(2) Cons.prems(2) by (rule sameArrays_contents)
  have key2: "sliceContents h2 key = sliceContents h1 key"
    using i2 freshIn_valid [OF p(3)] by (rule sameArrays_contents)
  have n01: "nextArr h \<le> nextArr h1" using p(2) by (simp add: sameArrays_def)
  have n12: "nextArr h1 \<le> nextArr h2" using i2 by (simp add: sameArrays_def)
  have c: "map (sliceContents h2) (key # keys') =
           map (encodeColumnKey m (sliceContents h pk)) (col # cols)"
    using i1 pk1 key2 p(1) by simp
  have s: "sameArrays h h2" using p(2) i2 by (rule sameArrays_trans)
  have f: "\<forall>k\<in>set (key # keys'). freshIn h h2 k"
    using i3 p(3) n01 n12 by (auto intro: freshIn_mono)
  have d: "distinct (List.map_filter arr (key # keys'))"
  proof (cases "arr key")
    case None
    with i4 show ?thesis by (simp add: List.map_filter_def)
  next
    case (Some a)
    have "a < nextArr h1" using p(3) Some by (simp add: freshIn_def)
    moreover have "\<forall>k\<in>set keys'. \<forall>b. arr k = Some b \<longrightarrow> nextArr h1 \<le> b"
      using i3 by (auto simp: freshIn_def)
    ultimately have "a \<notin> set (List.map_filter arr keys')"
      by (force simp: List.map_filter_def)
    with i4 Some show ?thesis by (simp add: List.map_filter_def)
  qed
  from c s f d eq show ?case by simp
qed

text \<open>
  C10. \<^verbatim>\<open>encodeColumnKey\<close> returns a slice whose contents are the primary key followed by
  the column name; its array, if it has one (the slice is nil when both are empty), is
  allocated by the call, and every array that existed before, the primary key's among
  them, is unchanged. Hence column keys built one after the other from the same primary
  key have pairwise different arrays, each holds the primary key followed by its column
  name after all of them are built, and the primary key is as it was.
\<close>

theorem encodeColumnKey_leaves_primary_key:
  "(encodeColumnKey_heap slack h pk col = (h1, key) \<longrightarrow>
      sliceContents h1 key = encodeColumnKey m (sliceContents h pk) col \<and>
      sameArrays h h1 \<and> freshIn h h1 key \<and>
      (validSlice h pk \<longrightarrow> sliceContents h1 pk = sliceContents h pk)) \<and>
   (encodeColumnKeys slack h pk cols = (h', keys) \<longrightarrow> validSlice h pk \<longrightarrow>
      map (sliceContents h') keys = map (encodeColumnKey m (sliceContents h pk)) cols \<and>
      sliceContents h' pk = sliceContents h pk \<and>
      sameArrays h h' \<and> (\<forall>k\<in>set keys. freshIn h h' k) \<and>
      distinct (List.map_filter arr keys))"
  using encodeColumnKey_heap_props [where slack = slack and h = h and pk = pk and col = col
      and h' = h1 and key = key and m = m]
    encodeColumnKeys_props [where slack = slack and h = h and pk = pk and cols = cols
      and h' = h' and keys = keys and m = m]
  by (auto intro: sameArrays_contents)

theorem encodeColumnKey_leaves_primary_key_witness:
  "validSlice exHeap exPk \<and>
   map (sliceContents (fst (encodeColumnKeys (\<lambda>n. 2) exHeap exPk [exK, exV])))
       (snd (encodeColumnKeys (\<lambda>n. 2) exHeap exPk [exK, exV])) =
     [[0x6B, 0x76, 0, 1, 0x61, 0, 1, 0x4B], [0x6B, 0x76, 0, 1, 0x61, 0, 1, 0x56]] \<and>
   sliceContents (fst (encodeColumnKeys (\<lambda>n. 2) exHeap exPk [exK, exV])) exPk =
     [0x6B, 0x76, 0, 1, 0x61, 0, 1] \<and>
   map arr (snd (encodeColumnKeys (\<lambda>n. 2) exHeap exPk [exK, exV])) = [Some 1, Some 2] \<and>
   sliceContents (fst (encodeColumnKey_heap (\<lambda>n. 2) exHeap exPk exV))
       (snd (encodeColumnKey_heap (\<lambda>n. 2) exHeap exPk exV)) =
     [0x6B, 0x76, 0, 1, 0x61, 0, 1, 0x56]"
proof -
  have v: "validSlice exHeap exPk"
    by (simp add: validSlice_def exHeap_def exPk_def)
  have c: "sliceContents exHeap exPk = [0x6B, 0x76, 0, 1, 0x61, 0, 1]"
    by (simp add: sliceContents_def exHeap_def exPk_def)
  have a: "map arr (snd (encodeColumnKeys (\<lambda>n. 2) exHeap exPk [exK, exV])) = [Some 1, Some 2]"
    by (simp add: encodeColumnKey_heap_def goAppend_def nilSlice_def c Let_def exK_def exV_def
        sliceContents_def exHeap_def split: prod.splits)
  note T = encodeColumnKey_leaves_primary_key [of "\<lambda>n. 2" exHeap exPk exV
      "fst (encodeColumnKey_heap (\<lambda>n. 2) exHeap exPk exV)"
      "snd (encodeColumnKey_heap (\<lambda>n. 2) exHeap exPk exV)" exModel "[exK, exV]"
      "fst (encodeColumnKeys (\<lambda>n. 2) exHeap exPk [exK, exV])"
      "snd (encodeColumnKeys (\<lambda>n. 2) exHeap exPk [exK, exV])"]
  show ?thesis using T v a by (simp add: c encodeColumnKey_def exK_def exV_def)
qed

section \<open>Scanning with a column filter\<close>

text \<open>
  C2. With a non-empty column list, a row whose column is not in the list has its
  primary key decoded into the current record and nothing else done to the record: the
  loop goes on with the record that \<^verbatim>\<open>decodePrimaryKey\<close> left. Hence, for a reply sorted
  by key whose rows all carry columns outside the list, the step succeeds and appends one
  record per distinct primary key, in ascending order of the keys, each with the fields
  of its primary key decoded from the key and every other field at its zero value.
\<close>

theorem scan_filter_keeps_row_identity:
  assumes ok: "codec_ok c"
    and pks: "\<forall>(p, col, v)\<in>set trs. p \<in> encodedKeys c m t"
    and srt: "sorted (map Key (replyRows m trs))"
    and flt: "columns \<noteq> []" "\<forall>(p, col, v)\<in>set trs. col \<notin> set columns"
  shows "(\<forall>r rows res sliceV col res2.
            decodePrimaryKey c m (Key r) res = (Inr col, res2) \<longrightarrow> col \<notin> set columns \<longrightarrow>
            scanRows c m (zeroStruct t) columns (r # rows) None res sliceV =
            scanRows c m (zeroStruct t) columns rows
              (Some (take (length (Key r) - length col) (Key r))) res2 sliceV) \<and>
         (\<exists>new. scanPost c m t columns (replyRows m trs) dest = Inr (dest @ new) \<and>
            map (encodePrimaryKey c m) new = map Inr (sorted_list_of_set (fst ` set trs)) \<and>
            (\<forall>r\<in>set new. \<forall>f. f \<notin> pkFields m \<longrightarrow> r f = zeroStruct t f))"
proof -
  have s: "sorted (map fst trs)" using pks srt by (rule encodedKeys_sorted [OF ok])
  have rows: "\<forall>(p, col, v)\<in>set trs. p \<in> encodedKeys c m t \<and> rowOK m t columns col v"
    using pks flt by (auto simp: rowOK_def filteredOut_def)
  have kf: "keyColumnFree m columns trs"
    using flt by (auto simp: keyColumnFree_def filteredOut_def)
  have af: "assignedFields m columns trs = {}"
    using flt by (auto simp: assignedFields_def filteredOut_def)
  from scanPost_groups [OF ok rows, of dest] kf af obtain new
    where p: "scanPost c m t columns (replyRows m trs) dest = Inr (dest @ new)"
      and k: "map (encodePrimaryKey c m) new = map Inr (remdups_adj (map fst trs))"
      and z: "\<forall>r\<in>set new. \<forall>f. f \<notin> pkFields m \<longrightarrow> r f = zeroStruct t f"
    by auto
  have k': "map (encodePrimaryKey c m) new = map Inr (sorted_list_of_set (fst ` set trs))"
    using k remdups_adj_sorted_list [OF s] by simp
  have step: "\<forall>r rows res sliceV col res2.
            decodePrimaryKey c m (Key r) res = (Inr col, res2) \<longrightarrow> col \<notin> set columns \<longrightarrow>
            scanRows c m (zeroStruct t) columns (r # rows) None res sliceV =
            scanRows c m (zeroStruct t) columns rows
              (Some (take (length (Key r) - length col) (Key r))) res2 sliceV"
    using flt(1) by (simp add: Let_def)
  from step p k' z show ?thesis by blast
qed

theorem scan_filter_keeps_row_identity_witness:
  "codec_ok specCodec \<and> sorted (map Key (replyRows exModel exTrs)) \<and>
   (\<exists>new. scanPost specCodec exModel exType [exK] (replyRows exModel exTrs) [] = Inr new \<and>
      map (encodePrimaryKey specCodec exModel) new = [Inr exPkA, Inr exPkC] \<and>
      map (\<lambda>r. (r 0, r 1)) new = [(VString [0x61], VString []), (VString [0x63], VString [])])"
proof -
  from scan_filter_keeps_row_identity [OF codec_ok_specCodec ex_pks ex_sorted ex_filtered, of "[]"]
  obtain new where p: "scanPost specCodec exModel exType [exK] (replyRows exModel exTrs) [] = Inr new"
    and k: "map (encodePrimaryKey specCodec exModel) new =
              map Inr (sorted_list_of_set (fst ` set exTrs))"
    by auto
  from k have k': "map (encodePrimaryKey specCodec exModel) new = [Inr exPkA, Inr exPkC]"
    by (simp only: ex_sorted_list list.map)
  show ?thesis
    using codec_ok_specCodec ex_sorted p k' ex_scan_filtered [OF p]
    apply (intro conjI exI [of _ new])
    apply assumption+
    done
qed

section \<open>Scan reconstruction\<close>

text \<open>
  C1, as claimed, fails: the reply below has one row, its key is the primary key of the
  record with K = "a" followed by the column name V, and it is sorted; its value is an
  integer, which does not unmarshal into the string field, so the step returns the error
  and appends nothing, although one primary key was observed.
\<close>

theorem scan_groups_rows_by_primary_key_counterexample:
  "hasType (exRec [0x61] []) exType \<and>
   encodePrimaryKey specCodec exModel (exRec [0x61] []) = Inr exPkA \<and>
   map Key (replyRows exModel exBadTrs) = [exPkA @ exV] \<and>
   sorted (map Key (replyRows exModel exBadTrs)) \<and>
   scanPost specCodec exModel exType [] (replyRows exModel exBadTrs) [] =
     Inl UnableToUnmarshalInteger"
  using ex_hasType [of "[0x61]" "[]"] ex_encode [of "0x61" "[]"] ex_bad
  by (simp add: exPkA_def replyRows_def exBadTrs_def encodeColumnKey_def)

text \<open>
  C1, amended. For a reply sorted by key, each key a primary key of the bound type
  followed by a column name, in which every row that the column filter does not exclude
  names a field of the model and holds a value that unmarshals into it: the step
  returns no error and appends exactly one record per distinct primary key; when no such
  row names a primary-key column, the appended records carry the distinct primary keys in
  ascending order. With no rows nothing is appended.
\<close>

theorem scan_groups_rows_by_primary_key:
  assumes ok: "codec_ok c"
    and pks: "\<forall>(p, col, v)\<in>set trs. p \<in> encodedKeys c m t"
    and srt: "sorted (map Key (replyRows m trs))"
    and vals: "\<forall>(p, col, v)\<in>set trs. rowOK m t columns col v"
  shows "scanPost c m t columns [] dest = Inr dest \<and>
         (\<exists>new. scanPost c m t columns (replyRows m trs) dest = Inr (dest @ new) \<and>
            length new = card (fst ` set trs) \<and>
            (keyColumnFree m columns trs \<longrightarrow>
               map (encodePrimaryKey c m) new = map Inr (sorted_list_of_set (fst ` set trs))))"
proof -
  have s: "sorted (map fst trs)" using pks srt by (rule encodedKeys_sorted [OF ok])
  have rows: "\<forall>(p, col, v)\<in>set trs. p \<in> encodedKeys c m t \<and> rowOK m t columns col v"
    using pks vals by auto
  from scanPost_groups [OF ok rows, of dest] obtain new
    where p: "scanPost c m t columns (replyRows m trs) dest = Inr (dest @ new)"
      and l: "length new = length (remdups_adj (map fst trs))"
      and k: "keyColumnFree m columns trs \<longrightarrow>
              map (encodePrimaryKey c m) new = map Inr (remdups_adj (map fst trs))"
    by blast
  have l': "length new = card (fst ` set trs)"
    using l remdups_adj_sorted_length [OF s] by simp
  have k': "keyColumnFree m columns trs \<longrightarrow>
            map (encodePrimaryKey c m) new = map Inr (sorted_list_of_set (fst ` set trs))"
    using k remdups_adj_sorted_list [OF s] by simp
  have e: "scanPost c m t columns [] dest = Inr dest" by (simp add: scanPost_def)
  from e p l' k' show ?thesis by blast
qed

theorem scan_groups_rows_by_primary_key_witness:
  "codec_ok specCodec \<and> sorted (map Key (replyRows exModel exTrs)) \<and>
   scanPost specCodec exModel exType [] [] [] = Inr [] \<and>
   (\<exists>new. scanPost specCodec exModel exType [] (replyRows exModel exTrs) [] = Inr new \<and>
      length new = 2 \<and>
      map (encodePrimaryKey specCodec exModel) new = [Inr exPkA, Inr exPkC] \<and>
      map (\<lambda>r. (r 0, r 1)) new =
        [(VString [0x61], VString [0x62]), (VString [0x63], VString [0x64])])"
proof -
  from scan_groups_rows_by_primary_key [OF codec_ok_specCodec ex_pks ex_sorted ex_rowOK, of "[]"]
    ex_keyColumnFree [of "[]"]
  obtain new where e: "scanPost specCodec exModel exType [] [] [] = Inr []"
    and p: "scanPost specCodec exModel exType [] (replyRows exModel exTrs) [] = Inr new"
    and l: "length new = card (fst ` set exTrs)"
    and k: "map (encodePrimaryKey specCodec exModel) new =
              map Inr (sorted_list_of_set (fst ` set exTrs))"
    by auto
  from l have l': "length new = 2" by (simp only: ex_card)
  from k have k': "map (encodePrimaryKey specCodec exModel) new = [Inr exPkA, Inr exPkC]"
    by (simp only: ex_sorted_list list.map)
  show ?thesis
    using codec_ok_specCodec ex_sorted e p l' k' ex_scan [OF p]
    apply (intro conjI exI [of _ new])
    apply assumption+
    done
qed

end
